theory Spec2Isabelle
  imports Complex_Main "HOL-Library.AList"
begin

section \<open>The Klaviyo service: data model\<close>

text \<open>
  The development follows the class \<open>KlaviyoService\<close> (the rate-limited version, the one
  with \<open>rateLimit\<close> and the retry counter of \<open>makeRequest\<close>). An \<open>async\<close> method
  becomes a function from the service state to a result and the new state; a rejected
  promise (a \<open>throw\<close>) is the left summand of the result. Times are milliseconds, as
  \<open>Date.now()\<close> gives them. JSON numbers are modelled as reals: the rounding of the
  floating-point sums is not modelled. A response body is a JSON object of the shape
  the API documents; strings are ASCII, so \<open>toLowerCase\<close> and \<open>\s\<close> are the ASCII ones.
\<close>

subsection \<open>Requests and replies\<close>

datatype http_method = GET | POST | PUT | PATCH | DELETE

text \<open>The attributes of a \<open>metric-aggregate\<close> request body, the only body the class posts.\<close>

record agg_attributes =
  measurements :: "string list"
  metric_id :: string
  timezone :: string
  filter_by :: "string list option"
  interval :: "string option"
  group_by :: "string list option"

text \<open>
  The axios configuration of one call. \<open>req_params\<close> is set for a GET only and
  \<open>req_data\<close> for the other methods, as in \<open>makeRequest\<close>.
\<close>

record request =
  req_url :: string
  req_method :: http_method
  req_headers :: "(string \<times> string) list"
  req_params :: "(string \<times> string) list option"
  req_data :: "agg_attributes option"

text \<open>
  An element of a \<open>data\<close> array: a metric of the catalog, an event, a campaign. Only the
  properties the class reads are kept: \<open>id\<close>, \<open>attributes.name\<close>, \<open>name\<close> and
  \<open>attributes.properties.$value\<close>.
\<close>

record item =
  item_id :: "string option"
  attributes_name :: "string option"
  item_name :: "string option"
  properties_value :: "real option"

text \<open>
  A measurement of an aggregate group: a number, or an array with one entry per interval
  (\<open>None\<close> is a JSON \<open>null\<close> entry, which \<open>parseFloat\<close> turns into \<open>NaN\<close>).
\<close>

datatype measurement = Scalar real | Series "real option list"

record measurements_obj =
  m_unique :: "measurement option"
  m_count :: "measurement option"
  m_sum_value :: "measurement option"

record dimension =
  d_attributed_message :: "string option"
  d_message :: "string option"
  d_flow :: "string option"
  d_campaign :: "string option"

record agg_group =
  g_measurements :: "measurements_obj option"
  g_dimensions :: "dimension list option"

text \<open>
  A decoded response body (an object). \<open>body_data\<close> is \<open>data\<close> when it is an array,
  \<open>body_next\<close> is \<open>links.next\<close>, \<open>body_groups\<close> is \<open>data.attributes.data\<close>.
\<close>

record body =
  body_data :: "item list option"
  body_next :: "string option"
  body_groups :: "agg_group list option"

text \<open>The upstream error envelope \<open>{errors: [{title, detail}], message}\<close>.\<close>

record err_item =
  e_detail :: "string option"
  e_title :: "string option"

record err_body =
  errors :: "err_item list option"
  err_message :: "string option"

text \<open>
  How axios settles a call: it resolves with the body, or rejects with an error object
  that has a \<open>message\<close> and, when the server answered, a \<open>response\<close> with its status
  and its data.
\<close>

datatype reply =
  Resolved body
| Rejected "(nat \<times> err_body) option" string

text \<open>What \<open>makeRequest\<close> can throw: its own \<open>Error\<close>, or a \<open>TypeError\<close> of the runtime.\<close>

datatype js_error = Error string | TypeError string

subsection \<open>The environment and the service object\<close>

text \<open>
  The environment holds what one build never changes: the three fields the constructor
  sets once (\<open>privateKey\<close>, \<open>baseURL\<close>, \<open>minRequestInterval\<close>), the upstream API,
  which answers the \<open>n\<close>-th call of the service with \<open>upstream n request\<close>, and three
  operations of the JavaScript runtime taken as parameters:
  \<open>Date.prototype.toISOString\<close>, the date one calendar month earlier
  (\<open>setMonth(getMonth() - 1)\<close>), and \<open>pathname + search\<close> of \<open>new URL(url)\<close>
  (\<open>None\<close> when the constructor throws).
\<close>

record env =
  privateKey :: string
  baseURL :: string
  minRequestInterval :: int
  upstream :: "nat \<Rightarrow> request \<Rightarrow> reply"
  toISOString :: "int \<Rightarrow> string"
  monthBefore :: "int \<Rightarrow> int"
  urlPathSearch :: "string \<Rightarrow> string option"

text \<open>
  Every call of \<open>wait\<close> and of axios is recorded, in order. The call sites of \<open>wait\<close>
  are told apart: the rate limiter, the 429 handler of \<open>makeRequest\<close>, and the fixed
  pause of \<open>getAllMetricsWithDetails\<close>.
\<close>

datatype effect =
  RateLimitWait int
| RetryWait int
| PauseWait int
| Axios request

text \<open>
  The mutable part: \<open>this.lastRequestTime\<close>, the clock (\<open>Date.now()\<close>), the number of
  calls made so far and the trace.
\<close>

record service =
  lastRequestTime :: int
  clock :: int
  calls :: nat
  trace :: "effect list"

text \<open>The state the constructor leaves, at time \<open>t\<close>.\<close>

definition new_service :: "int \<Rightarrow> service" where
  "new_service t = \<lparr>lastRequestTime = 0, clock = t, calls = 0, trace = []\<rparr>"

text \<open>
  An \<open>async\<close> method: from the state to a fulfilled value (\<open>Inr\<close>) or a rejection
  (\<open>Inl\<close>), and the new state.
\<close>

type_synonym 'a promise = "service \<Rightarrow> (js_error + 'a) \<times> service"

definition resolve :: "'a \<Rightarrow> 'a promise" where
  "resolve v s = (Inr v, s)"

definition reject :: "js_error \<Rightarrow> 'a promise" where
  "reject err s = (Inl err, s)"

text \<open>\<open>const v = await p; k(v)\<close>: a rejection of \<open>p\<close> is thrown on.\<close>

definition await :: "'a promise \<Rightarrow> ('a \<Rightarrow> 'b promise) \<Rightarrow> 'b promise" where
  "await p k s = (case p s of (Inl err, s') \<Rightarrow> (Inl err, s') | (Inr v, s') \<Rightarrow> k v s')"

text \<open>\<open>try { p } catch (error) { handler(error) }\<close>, and \<open>p.catch(handler)\<close>.\<close>

definition try_catch :: "'a promise \<Rightarrow> (js_error \<Rightarrow> 'a promise) \<Rightarrow> 'a promise" where
  "try_catch p handler s =
     (case p s of (Inl err, s') \<Rightarrow> handler err s' | (Inr v, s') \<Rightarrow> (Inr v, s'))"

text \<open>
  One entry of \<open>Promise.allSettled\<close>. The promises of one \<open>allSettled\<close> are run one
  after the other, in the order of the array: one schedule of the concurrent calls.
\<close>

datatype 'a settled = Fulfilled 'a | RejectedWith js_error

definition settle :: "'a promise \<Rightarrow> 'a settled promise" where
  "settle p s =
     (case p s of
        (Inl err, s') \<Rightarrow> (Inr (RejectedWith err), s')
      | (Inr v, s') \<Rightarrow> (Inr (Fulfilled v), s'))"

section \<open>The rate limiter and the request executor\<close>

text \<open>\<open>wait(ms)\<close>: the timer fires after \<open>ms\<close> milliseconds (at once when \<open>ms\<close> is not positive).\<close>

definition wait :: "(int \<Rightarrow> effect) \<Rightarrow> int \<Rightarrow> service \<Rightarrow> service" where
  "wait site ms s = s\<lparr>clock := clock s + max 0 ms, trace := trace s @ [site ms]\<rparr>"

text \<open>
  \<open>rateLimit\<close> in its two synchronous parts. \<open>rateLimit_begin\<close> runs up to the
  \<open>await\<close>: it reads the clock and \<open>lastRequestTime\<close> and gives the time to wait, if
  any. \<open>rateLimit_end\<close> is the assignment \<open>this.lastRequestTime = Date.now()\<close>.
\<close>

definition rateLimit_begin :: "env \<Rightarrow> service \<Rightarrow> int option" where
  "rateLimit_begin e s =
     (let now = clock s;
          timeSinceLastRequest = now - lastRequestTime s
      in if timeSinceLastRequest < minRequestInterval e
         then Some (minRequestInterval e - timeSinceLastRequest)
         else None)"

definition rateLimit_end :: "service \<Rightarrow> service" where
  "rateLimit_end s = s\<lparr>lastRequestTime := clock s\<rparr>"

text \<open>\<open>rateLimit\<close>, run by one caller from its start to its end with no other caller in between.\<close>

definition rateLimit :: "env \<Rightarrow> service \<Rightarrow> service" where
  "rateLimit e s =
     (case rateLimit_begin e s of
        None \<Rightarrow> rateLimit_end s
      | Some waitTime \<Rightarrow> rateLimit_end (wait RateLimitWait waitTime s))"

subsection \<open>Concurrent callers of the rate limiter\<close>

text \<open>
  JavaScript runs each synchronous part to its end, so concurrent calls of
  \<open>rateLimit\<close> interleave only at the \<open>await\<close>. A caller is suspended on its timer
  until the time it is due, or has returned at the time it stored in
  \<open>lastRequestTime\<close>. The events: a new call of \<open>rateLimit\<close>, time passing, and the
  timer of the \<open>i\<close>-th caller firing (never before it is due).
\<close>

datatype caller = Suspended int | Returned int

datatype event = Call | Elapse int | TimerFires nat

fun step :: "env \<Rightarrow> event \<Rightarrow> service \<times> caller list \<Rightarrow> (service \<times> caller list) option" where
  "step e Call (s, cs) =
     (case rateLimit_begin e s of
        None \<Rightarrow> Some (rateLimit_end s, cs @ [Returned (clock s)])
      | Some waitTime \<Rightarrow> Some (s, cs @ [Suspended (clock s + waitTime)]))"
| "step e (Elapse d) (s, cs) = (if 0 \<le> d then Some (s\<lparr>clock := clock s + d\<rparr>, cs) else None)"
| "step e (TimerFires i) (s, cs) =
     (if i < length cs
      then (case cs ! i of
              Suspended due \<Rightarrow>
                if due \<le> clock s then Some (rateLimit_end s, cs[i := Returned (clock s)]) else None
            | Returned t \<Rightarrow> None)
      else None)"

fun run :: "env \<Rightarrow> event list \<Rightarrow> service \<times> caller list \<Rightarrow> (service \<times> caller list) option" where
  "run e [] st = Some st"
| "run e (ev # evs) st = (case step e ev st of None \<Rightarrow> None | Some st' \<Rightarrow> run e evs st')"

subsection \<open>The retry hint \<open>/(\d+)\s*second/i\<close>\<close>

text \<open>\<open>\d\<close> and \<open>\s\<close>: a decimal digit; a space, tab, line feed, vertical tab, form feed or carriage return.\<close>

definition is_digit :: "char \<Rightarrow> bool" where
  "is_digit c = (c \<in> set ''0123456789'')"

definition is_space :: "char \<Rightarrow> bool" where
  "is_space c = (c \<in> {CHR '' '', CHR 0x09, CHR 0x0A, CHR 0x0B, CHR 0x0C, CHR 0x0D})"

definition digit_val :: "char \<Rightarrow> nat" where
  "digit_val c = of_char c - 48"

text \<open>\<open>parseInt\<close> on a string of decimal digits.\<close>

definition parse_digits :: "string \<Rightarrow> nat" where
  "parse_digits ds = foldl (\<lambda>acc c. 10 * acc + digit_val c) 0 ds"

definition lower_char :: "char \<Rightarrow> char" where
  "lower_char c =
     (let n = (of_char c :: nat) in if 65 \<le> n \<and> n \<le> 90 then char_of (n + 32) else c)"

text \<open>\<open>toLowerCase\<close>, on the ASCII letters.\<close>

definition toLowerCase :: "string \<Rightarrow> string" where
  "toLowerCase s = map lower_char s"

definition starts_with :: "string \<Rightarrow> string \<Rightarrow> bool" where
  "starts_with s p = (take (length p) s = p)"

text \<open>\<open>s.includes(t)\<close>.\<close>

fun str_includes :: "string \<Rightarrow> string \<Rightarrow> bool" where
  "str_includes [] t = (t = [])"
| "str_includes (c # cs) t = (starts_with (c # cs) t \<or> str_includes cs t)"

text \<open>
  The regular expression matched at the start of the string: a run of digits, optional
  white space, then \<open>second\<close> in any case. The group is the run of digits.
\<close>

definition hint_here :: "string \<Rightarrow> nat option" where
  "hint_here s =
     (let ds = takeWhile is_digit s;
          rest = dropWhile is_space (dropWhile is_digit s)
      in if ds \<noteq> [] \<and> starts_with (toLowerCase rest) ''second''
         then Some (parse_digits ds) else None)"

text \<open>The leftmost match, as \<open>String.prototype.match\<close> finds it.\<close>

fun retry_hint :: "string \<Rightarrow> nat option" where
  "retry_hint [] = None"
| "retry_hint (c # cs) =
     (case hint_here (c # cs) of Some n \<Rightarrow> Some n | None \<Rightarrow> retry_hint cs)"

text \<open>\<open>error.response?.data?.errors?.[0]?.detail\<close>.\<close>

definition first_detail :: "(nat \<times> err_body) option \<Rightarrow> string option" where
  "first_detail resp =
     (case resp of
        None \<Rightarrow> None
      | Some (st, b) \<Rightarrow>
          (case errors b of
             None \<Rightarrow> None
           | Some [] \<Rightarrow> None
           | Some (x # xs) \<Rightarrow> e_detail x))"

text \<open>\<open>waitTime\<close> of the 429 handler.\<close>

definition retry_wait :: "(nat \<times> err_body) option \<Rightarrow> int" where
  "retry_wait resp =
     (case first_detail resp of
        None \<Rightarrow> 1000
      | Some d \<Rightarrow> (case retry_hint d of None \<Rightarrow> 1000 | Some n \<Rightarrow> int n * 1000))"

subsection \<open>The error that \<open>makeRequest\<close> throws\<close>

text \<open>
  The message is \<open>errors[0].detail || errors[0].title\<close> when \<open>errors\<close> is an array, else
  \<open>data.message\<close> when it is there, else the message of the axios error. An empty
  string is falsy; \<open>undefined\<close> prints as \<open>undefined\<close> in the template string; reading
  \<open>errors[0].detail\<close> of an empty array throws a \<open>TypeError\<close>.
\<close>

definition truthy_str :: "string option \<Rightarrow> bool" where
  "truthy_str x = (case x of None \<Rightarrow> False | Some v \<Rightarrow> v \<noteq> [])"

definition print_str :: "string option \<Rightarrow> string" where
  "print_str x = (case x of None \<Rightarrow> ''undefined'' | Some v \<Rightarrow> v)"

definition request_error :: "(nat \<times> err_body) option \<Rightarrow> string \<Rightarrow> js_error" where
  "request_error resp msg =
     (case resp of
        None \<Rightarrow> Error (''Klaviyo API Error: '' @ msg)
      | Some (st, b) \<Rightarrow>
          (case errors b of
             Some [] \<Rightarrow> TypeError ''Cannot read properties of undefined (reading 'detail')''
           | Some (x # xs) \<Rightarrow>
               Error (''Klaviyo API Error: '' @
                 print_str (if truthy_str (e_detail x) then e_detail x else e_title x))
           | None \<Rightarrow>
               if truthy_str (err_message b)
               then Error (''Klaviyo API Error: '' @ print_str (err_message b))
               else Error (''Klaviyo API Error: '' @ msg)))"

text \<open>\<open>error.message\<close>.\<close>

fun message_of :: "js_error \<Rightarrow> string" where
  "message_of (Error m) = m"
| "message_of (TypeError m) = m"

definition maxRetries :: nat where
  "maxRetries = 3"

definition request_config ::
  "env \<Rightarrow> string \<Rightarrow> http_method \<Rightarrow> agg_attributes option \<Rightarrow> (string \<times> string) list \<Rightarrow> request"
where
  "request_config e endpoint meth dat params =
     \<lparr>req_url = baseURL e @ endpoint,
      req_method = meth,
      req_headers =
        [(''Authorization'', ''Klaviyo-API-Key '' @ privateKey e),
         (''Accept'', ''application/json''),
         (''Content-Type'', ''application/json''),
         (''revision'', ''2024-10-15'')],
      req_params = (if meth = GET then Some params else None),
      req_data = (if meth = GET then None else dat)\<rparr>"

definition axios :: "env \<Rightarrow> request \<Rightarrow> service \<Rightarrow> reply \<times> service" where
  "axios e config s =
     (upstream e (calls s) config, s\<lparr>calls := calls s + 1, trace := trace s @ [Axios config]\<rparr>)"

function makeRequest ::
  "env \<Rightarrow> string \<Rightarrow> http_method \<Rightarrow> agg_attributes option \<Rightarrow> (string \<times> string) list \<Rightarrow> nat
     \<Rightarrow> body promise"
where
  "makeRequest e endpoint meth dat params retryCount s =
     (let r = axios e (request_config e endpoint meth dat params) (rateLimit e s)
      in case fst r of
           Resolved b \<Rightarrow> (Inr b, snd r)
         | Rejected resp msg \<Rightarrow>
             if map_option fst resp = Some 429 \<and> retryCount < maxRetries
             then makeRequest e endpoint meth dat params (retryCount + 1)
                    (wait RetryWait (retry_wait resp) (snd r))
             else (Inl (request_error resp msg), snd r))"
  by pat_completeness auto
termination
  by (relation "measure (\<lambda>(e, endpoint, meth, dat, params, retryCount, s). maxRetries - retryCount)")
     auto

section \<open>The fetch helpers\<close>

text \<open>\<open>a || b\<close> on strings, and \<open>response?.data || []\<close>.\<close>

definition or_str :: "string option \<Rightarrow> string \<Rightarrow> string" where
  "or_str a b = (case a of None \<Rightarrow> b | Some v \<Rightarrow> if v \<noteq> [] then v else b)"

definition data_or_empty :: "body \<Rightarrow> item list" where
  "data_or_empty response = (case body_data response of None \<Rightarrow> [] | Some d \<Rightarrow> d)"

text \<open>The object \<open>{ data: [] }\<close>.\<close>

definition empty_listing :: body where
  "empty_listing = \<lparr>body_data = Some [], body_next = None, body_groups = None\<rparr>"

text \<open>What \<open>getAccount\<close> returns: the response, or the object \<open>{ name, contact_email }\<close>.\<close>

datatype account_value = AccountBody body | AccountFallback string string

definition getAccount :: "env \<Rightarrow> account_value promise" where
  "getAccount e =
     try_catch
       (await (makeRequest e ''/accounts/'' GET None [] 0) (\<lambda>response. resolve (AccountBody response)))
       (\<lambda>error. resolve (AccountFallback ''Klaviyo Account'' ''N/A''))"

definition getMetrics :: "env \<Rightarrow> body promise" where
  "getMetrics e =
     try_catch (makeRequest e ''/metrics/'' GET None [] 0) (\<lambda>error. resolve empty_listing)"

definition getMetricById :: "env \<Rightarrow> string \<Rightarrow> (string \<times> string) list \<Rightarrow> body option promise" where
  "getMetricById e metricId params =
     try_catch
       (await (makeRequest e (''/metrics/'' @ metricId @ ''/'') GET None params 0)
          (\<lambda>response. resolve (Some response)))
       (\<lambda>error. resolve None)"

record metrics_with_details =
  mwd_metrics :: "item list"
  mwd_details :: "body list"
  mwd_total :: "nat option"

text \<open>The \<open>for\<close> loop of \<open>getAllMetricsWithDetails\<close> over \<open>metricsToFetch\<close>.\<close>

primrec fetch_details :: "env \<Rightarrow> item list \<Rightarrow> body list \<Rightarrow> body list promise" where
  "fetch_details e [] = (\<lambda>details. resolve details)"
| "fetch_details e (metric # rest) =
     (\<lambda>details.
        await
          (try_catch
             (await (getMetricById e (print_str (item_id metric)) [])
                (\<lambda>detail s.
                   resolve (case detail of None \<Rightarrow> details | Some d \<Rightarrow> details @ [d])
                     (wait PauseWait 250 s)))
             (\<lambda>error. resolve details))
          (fetch_details e rest))"

definition getAllMetricsWithDetails :: "env \<Rightarrow> metrics_with_details promise" where
  "getAllMetricsWithDetails e =
     try_catch
       (await (getMetrics e)
          (\<lambda>metricsResponse.
             let metrics = data_or_empty metricsResponse
             in if metrics = []
                then resolve \<lparr>mwd_metrics = [], mwd_details = [], mwd_total = None\<rparr>
                else await (fetch_details e (take 20 metrics) [])
                       (\<lambda>details.
                          resolve \<lparr>mwd_metrics = metrics, mwd_details = details,
                                   mwd_total = Some (length metrics)\<rparr>)))
       (\<lambda>error. resolve \<lparr>mwd_metrics = [], mwd_details = [], mwd_total = Some 0\<rparr>)"

definition campaigns_of :: "env \<Rightarrow> string \<Rightarrow> body promise" where
  "campaigns_of e channel =
     try_catch
       (makeRequest e ''/campaigns/'' GET None
          [(''filter'', ''equals(messages.channel,'' @ [CHR 0x27] @ channel @ [CHR 0x27] @ '')'')] 0)
       (\<lambda>error. resolve empty_listing)"

definition settled_or :: "'a \<Rightarrow> 'a settled \<Rightarrow> 'a" where
  "settled_or d x = (case x of Fulfilled v \<Rightarrow> v | RejectedWith err \<Rightarrow> d)"

definition getCampaigns :: "env \<Rightarrow> body promise" where
  "getCampaigns e =
     try_catch
       (await (settle (campaigns_of e ''email''))
          (\<lambda>emailCampaigns.
             await (settle (campaigns_of e ''sms''))
               (\<lambda>smsCampaigns.
                  let emailData = settled_or empty_listing emailCampaigns;
                      smsData = settled_or empty_listing smsCampaigns
                  in resolve \<lparr>body_data = Some (data_or_empty emailData @ data_or_empty smsData),
                              body_next = None, body_groups = None\<rparr>)))
       (\<lambda>error. resolve empty_listing)"

definition getLists :: "env \<Rightarrow> body promise" where
  "getLists e =
     try_catch (makeRequest e ''/lists/'' GET None [] 0) (\<lambda>error. resolve empty_listing)"

definition getFlows :: "env \<Rightarrow> body promise" where
  "getFlows e =
     try_catch (makeRequest e ''/flows/'' GET None [] 0) (\<lambda>error. resolve empty_listing)"

text \<open>The later of the two definitions of \<open>getCampaignMetrics\<close>, the one with \<open>campaignId\<close>.\<close>

definition getCampaignMetrics_campaignId :: "env \<Rightarrow> string \<Rightarrow> body option promise" where
  "getCampaignMetrics_campaignId e campaignId =
     try_catch
       (await (makeRequest e (''/campaigns/'' @ campaignId @ ''/campaign-messages/'') GET None [] 0)
          (\<lambda>response. resolve (Some response)))
       (\<lambda>error. resolve None)"

section \<open>Aggregate queries\<close>

text \<open>The \<open>options\<close> argument: \<open>None\<close> is a property left out, which takes the default.\<close>

record agg_options =
  o_measurements :: "string list option"
  o_filters :: "string list option"
  o_interval :: "string option"
  o_timezone :: "string option"
  o_by :: "string list option"

text \<open>The \<open>attributes\<close> of the request body that \<open>queryMetricAggregates\<close> builds.\<close>

definition aggregate_attributes :: "string \<Rightarrow> agg_options \<Rightarrow> agg_attributes" where
  "aggregate_attributes metricId options =
     (let filters = (case o_filters options of None \<Rightarrow> [] | Some f \<Rightarrow> f)
      in \<lparr>measurements = (case o_measurements options of None \<Rightarrow> [''count''] | Some m \<Rightarrow> m),
          metric_id = metricId,
          timezone = (case o_timezone options of None \<Rightarrow> ''UTC'' | Some t \<Rightarrow> t),
          filter_by = (if filters \<noteq> [] then Some filters else None),
          interval = (if truthy_str (o_interval options) then o_interval options else None),
          group_by = (case o_by options of
                        None \<Rightarrow> None
                      | Some b \<Rightarrow> if b \<noteq> [] then Some b else None)\<rparr>)"

text \<open>Truthiness of a measurement: the number 0 and a missing property are falsy, an array is truthy.\<close>

definition truthy_measurement :: "measurement option \<Rightarrow> bool" where
  "truthy_measurement m =
     (case m of None \<Rightarrow> False | Some (Scalar x) \<Rightarrow> x \<noteq> 0 | Some (Series xs) \<Rightarrow> True)"

text \<open>\<open>measurements[measurementKey]\<close>: the first truthy one of \<open>unique\<close>, \<open>count\<close>, \<open>sum_value\<close>.\<close>

definition selected_measurement :: "measurements_obj option \<Rightarrow> measurement option" where
  "selected_measurement ms =
     (case ms of
        None \<Rightarrow> None
      | Some m \<Rightarrow>
          if truthy_measurement (m_unique m) then m_unique m
          else if truthy_measurement (m_count m) then m_count m
          else if truthy_measurement (m_sum_value m) then m_sum_value m
          else None)"

text \<open>The \<open>reduce\<close> over an array of a measurement; \<open>NaN\<close> counts as 0.\<close>

definition sum_series :: "real option list \<Rightarrow> real" where
  "sum_series xs = foldl (\<lambda>acc val. acc + (case val of None \<Rightarrow> 0 | Some num \<Rightarrow> num)) 0 xs"

definition measurement_value :: "measurement option \<Rightarrow> real" where
  "measurement_value m =
     (case m of None \<Rightarrow> 0 | Some (Scalar x) \<Rightarrow> x | Some (Series xs) \<Rightarrow> sum_series xs)"

definition dimension_value :: "dimension \<Rightarrow> string" where
  "dimension_value d =
     or_str (d_attributed_message d)
       (or_str (d_message d) (or_str (d_flow d) (or_str (d_campaign d) ''unknown'')))"

text \<open>The result \<open>{ total, grouped }\<close>.\<close>

record aggregate_result =
  res_total :: real
  res_grouped :: "(string \<times> real) list"

text \<open>\<open>groupedData[k] || 0\<close> and \<open>groupedData[k] = (groupedData[k] || 0) + v\<close>.\<close>

definition grouped_get :: "(string \<times> real) list \<Rightarrow> string \<Rightarrow> real" where
  "grouped_get g k = (case map_of g k of None \<Rightarrow> 0 | Some v \<Rightarrow> v)"

definition grouped_add :: "(string \<times> real) list \<Rightarrow> string \<Rightarrow> real \<Rightarrow> (string \<times> real) list" where
  "grouped_add g k v = AList.update k (grouped_get g k + v) g"

text \<open>
  The body of the \<open>forEach\<close> for one group. With \<open>by\<close> given and a dimension present,
  \<open>measurements[measurementKey]\<close> is read even when the group has no \<open>measurements\<close>:
  a \<open>TypeError\<close>.
\<close>

definition add_group :: "bool \<Rightarrow> agg_group \<Rightarrow> aggregate_result \<Rightarrow> js_error + aggregate_result" where
  "add_group by_given grp acc =
     (let ms = g_measurements grp;
          v = measurement_value (selected_measurement ms);
          acc1 = acc\<lparr>res_total := res_total acc + v\<rparr>
      in case (if by_given then g_dimensions grp else None) of
           Some (d0 # ds) \<Rightarrow>
             (case ms of
                None \<Rightarrow> Inl (TypeError ''Cannot read properties of undefined'')
              | Some m \<Rightarrow>
                  (case selected_measurement ms of
                     Some (Series xs) \<Rightarrow>
                       Inr (acc1\<lparr>res_grouped := grouped_add (res_grouped acc1) (dimension_value d0) (sum_series xs)\<rparr>)
                   | other \<Rightarrow>
                       Inr (acc1\<lparr>res_grouped := grouped_add (res_grouped acc1) (dimension_value d0) v\<rparr>)))
         | other \<Rightarrow> Inr acc1)"

fun add_groups :: "bool \<Rightarrow> agg_group list \<Rightarrow> aggregate_result \<Rightarrow> js_error + aggregate_result" where
  "add_groups by_given [] acc = Inr acc"
| "add_groups by_given (grp # grps) acc =
     (case add_group by_given grp acc of
        Inl err \<Rightarrow> Inl err
      | Inr acc' \<Rightarrow> add_groups by_given grps acc')"

definition parse_aggregates :: "bool \<Rightarrow> body \<Rightarrow> js_error + aggregate_result" where
  "parse_aggregates by_given response =
     (case body_groups response of
        None \<Rightarrow> Inr \<lparr>res_total = 0, res_grouped = []\<rparr>
      | Some groups \<Rightarrow> add_groups by_given groups \<lparr>res_total = 0, res_grouped = []\<rparr>)"

definition queryMetricAggregates :: "env \<Rightarrow> string \<Rightarrow> agg_options \<Rightarrow> aggregate_result promise" where
  "queryMetricAggregates e metricId options =
     try_catch
       (await
          (makeRequest e ''/metric-aggregates/'' POST (Some (aggregate_attributes metricId options)) [] 0)
          (\<lambda>response.
             case parse_aggregates (o_by options \<noteq> None) response of
               Inl err \<Rightarrow> reject err
             | Inr result \<Rightarrow> resolve result))
       (\<lambda>error. resolve \<lparr>res_total = 0, res_grouped = []\<rparr>)"

section \<open>Revenue\<close>

record revenue_options =
  r_startDate :: "string option"
  r_endDate :: "string option"
  r_interval :: "string option"
  r_timezone :: "string option"
  r_attributedMessage :: "string option"

text \<open>
  The \<open>attributes\<close> of the request body that \<open>calculateRevenueByMetricId\<close> builds at
  time \<open>now\<close>: the two date filters are always there.
\<close>

definition revenue_attributes :: "env \<Rightarrow> int \<Rightarrow> string \<Rightarrow> revenue_options \<Rightarrow> agg_attributes" where
  "revenue_attributes e now metricId options =
     (let oneMonthAgo = monthBefore e now;
          defaultStartDate = or_str (r_startDate options) (toISOString e oneMonthAgo);
          defaultEndDate = or_str (r_endDate options) (toISOString e now);
          filters =
            [''greater-or-equal(datetime,'' @ defaultStartDate @ '')'',
             ''less-than(datetime,'' @ defaultEndDate @ '')''] @
            (if truthy_str (r_attributedMessage options)
             then [''equals($attributed_message,'' @ [CHR 0x22] @
                     print_str (r_attributedMessage options) @ [CHR 0x22] @ '')'']
             else [])
      in \<lparr>measurements = [''sum_value''],
          metric_id = metricId,
          timezone = (case r_timezone options of None \<Rightarrow> ''UTC'' | Some t \<Rightarrow> t),
          filter_by = Some filters,
          interval = (if truthy_str (r_interval options) then r_interval options else None),
          group_by = None\<rparr>)"

text \<open>The result \<open>{ totalRevenue, eventCount, eventsWithRevenue, method }\<close>.\<close>

record revenue_result =
  totalRevenue :: real
  eventCount :: int
  eventsWithRevenue :: "nat option"
  calc_method :: string

text \<open>\<open>parseInt\<close> of a number: its integer part.\<close>

definition parseInt_num :: "real \<Rightarrow> int" where
  "parseInt_num x = (if 0 \<le> x then \<lfloor>x\<rfloor> else \<lceil>x\<rceil>)"

definition revenue_of_group :: "agg_group \<Rightarrow> real" where
  "revenue_of_group grp =
     (case g_measurements grp of
        None \<Rightarrow> 0
      | Some m \<Rightarrow>
          if truthy_measurement (m_sum_value m) then measurement_value (m_sum_value m) else 0)"

definition count_of_group :: "agg_group \<Rightarrow> int" where
  "count_of_group grp =
     (case g_measurements grp of
        None \<Rightarrow> 0
      | Some m \<Rightarrow>
          (case m_count m of
             None \<Rightarrow> 0
           | Some (Scalar x) \<Rightarrow> if x \<noteq> 0 then parseInt_num x else 0
           | Some (Series xs) \<Rightarrow>
               foldl (\<lambda>acc val. acc + (case val of None \<Rightarrow> 0 | Some num \<Rightarrow> parseInt_num num)) 0 xs))"

definition parse_revenue :: "body \<Rightarrow> revenue_result" where
  "parse_revenue response =
     (let aggregateData = (case body_groups response of None \<Rightarrow> [] | Some groups \<Rightarrow> groups)
      in \<lparr>totalRevenue = foldl (\<lambda>acc grp. acc + revenue_of_group grp) 0 aggregateData,
          eventCount = foldl (\<lambda>acc grp. acc + count_of_group grp) 0 aggregateData,
          eventsWithRevenue = None,
          calc_method = ''metric-aggregates''\<rparr>)"

definition metric_filter :: "string \<Rightarrow> string" where
  "metric_filter metricId = ''equals(metric_id,'' @ [CHR 0x22] @ metricId @ [CHR 0x22] @ '')''"

definition has_value :: "item \<Rightarrow> bool" where
  "has_value ev = (case properties_value ev of None \<Rightarrow> False | Some v \<Rightarrow> v \<noteq> 0)"

definition event_value :: "item \<Rightarrow> real" where
  "event_value ev = (case properties_value ev of None \<Rightarrow> 0 | Some v \<Rightarrow> v)"

definition calculateRevenueFromEvents :: "env \<Rightarrow> string \<Rightarrow> string \<Rightarrow> revenue_result promise" where
  "calculateRevenueFromEvents e metricId limit =
     try_catch
       (await
          (makeRequest e ''/events/'' GET None
             [(''filter'', metric_filter metricId), (''page[size]'', limit)] 0)
          (\<lambda>eventsResponse.
             let events = data_or_empty eventsResponse
             in resolve
                  \<lparr>totalRevenue = foldl (\<lambda>acc ev. if has_value ev then acc + event_value ev else acc) 0 events,
                   eventCount = int (length events),
                   eventsWithRevenue = Some (length (filter has_value events)),
                   calc_method = ''events''\<rparr>))
       (\<lambda>error. resolve \<lparr>totalRevenue = 0, eventCount = 0, eventsWithRevenue = Some 0,
                           calc_method = ''events''\<rparr>)"

definition calculateRevenueByMetricId :: "env \<Rightarrow> string \<Rightarrow> revenue_options \<Rightarrow> revenue_result promise" where
  "calculateRevenueByMetricId e metricId options s =
     try_catch
       (await
          (makeRequest e ''/metric-aggregates/'' POST
             (Some (revenue_attributes e (clock s) metricId options)) [] 0)
          (\<lambda>response. resolve (parse_revenue response)))
       (\<lambda>error. calculateRevenueFromEvents e metricId ''100'')
       s"

section \<open>Pagination\<close>

text \<open>
  One request of the loop of \<open>getAllEventsByMetricId\<close>: the first page with the filter and
  the page size, a later page with the path and query of \<open>links.next\<close>, less a leading
  \<open>/api\<close>, and no parameters.
\<close>

definition strip_api :: "string \<Rightarrow> string" where
  "strip_api path = (if starts_with path ''/api/'' then drop 4 path else path)"

definition page_request :: "env \<Rightarrow> string \<Rightarrow> bool \<Rightarrow> string option \<Rightarrow> body promise" where
  "page_request e flt firstRequest url =
     (if firstRequest
      then makeRequest e ''/events/'' GET None [(''filter'', flt), (''page[size]'', ''100'')] 0
      else (case urlPathSearch e (print_str url) of
              None \<Rightarrow> reject (TypeError ''Invalid URL'')
            | Some path \<Rightarrow> makeRequest e (strip_api path) GET None [] 0))"

text \<open>
  The \<open>while (firstRequest || url)\<close> loop. It ends when a page has no \<open>links.next\<close>,
  or when a request fails; an upstream that always gives a next link keeps it running,
  so the loop is a partial function: \<open>None\<close> is a run that never returns.
\<close>

partial_function (option) fetch_pages ::
  "env \<Rightarrow> string \<Rightarrow> bool \<Rightarrow> string option \<Rightarrow> item list \<Rightarrow> service
     \<Rightarrow> ((js_error + item list) \<times> service) option"
where
  "fetch_pages e flt firstRequest url allEvents s =
     (if firstRequest \<or> truthy_str url
      then (case page_request e flt firstRequest url s of
              (Inl err, s') \<Rightarrow> Some (Inl err, s')
            | (Inr response, s') \<Rightarrow>
                fetch_pages e flt False
                  (if truthy_str (body_next response) then body_next response else None)
                  (case body_data response of None \<Rightarrow> allEvents | Some d \<Rightarrow> allEvents @ d)
                  s')
      else Some (Inr allEvents, s))"

definition getAllEventsByMetricId ::
  "env \<Rightarrow> string \<Rightarrow> service \<Rightarrow> ((js_error + body) \<times> service) option"
where
  "getAllEventsByMetricId e metricId s =
     (case fetch_pages e (metric_filter metricId) True None [] s of
        None \<Rightarrow> None
      | Some (Inl err, s') \<Rightarrow> Some (Inr empty_listing, s')
      | Some (Inr allEvents, s') \<Rightarrow>
          Some (Inr \<lparr>body_data = Some allEvents, body_next = None, body_groups = None\<rparr>, s'))"

section \<open>Metric names\<close>

text \<open>\<open>m?.attributes?.name || m?.name || ''\<close>.\<close>

definition metric_name :: "item \<Rightarrow> string" where
  "metric_name m = or_str (attributes_name m) (or_str (item_name m) [])"

text \<open>\<open>metric?.id || null\<close>.\<close>

definition id_or_null :: "item option \<Rightarrow> string option" where
  "id_or_null metric =
     (case metric of
        None \<Rightarrow> None
      | Some m \<Rightarrow> if truthy_str (item_id m) then item_id m else None)"

definition findMetricIdByName :: "env \<Rightarrow> string \<Rightarrow> string option promise" where
  "findMetricIdByName e metricName =
     try_catch
       (await (getMetrics e)
          (\<lambda>metricsResponse.
             let metrics = data_or_empty metricsResponse
             in case find (\<lambda>m. toLowerCase (metric_name m) = toLowerCase metricName) metrics of
                  Some metric \<Rightarrow> resolve (item_id metric)
                | None \<Rightarrow> resolve None))
       (\<lambda>error. resolve None)"

text \<open>The two closures of \<open>getDashboardMetrics\<close>, over \<open>allMetrics\<close>.\<close>

definition findMetricId :: "item list \<Rightarrow> string \<Rightarrow> string option" where
  "findMetricId allMetrics searchName =
     id_or_null
       (find (\<lambda>m. str_includes (toLowerCase (metric_name m)) (toLowerCase searchName)) allMetrics)"

definition findExactMetricId :: "item list \<Rightarrow> string \<Rightarrow> string option" where
  "findExactMetricId allMetrics exactName =
     id_or_null (find (\<lambda>m. toLowerCase (metric_name m) = toLowerCase exactName) allMetrics)"

definition or_id :: "string option \<Rightarrow> string option \<Rightarrow> string option" where
  "or_id a b = (if truthy_str a then a else b)"

section \<open>The dashboard\<close>

record event_metrics =
  placedOrder :: real
  viewedProduct :: real
  addedToCart :: real
  activeOnSite :: real

record revenue_metrics =
  rm_totalRevenue :: real
  revenueByEmail :: real
  revenueOverTime :: "real list"

text \<open>A value that went through \<open>.catch(e => ({ error: e.message }))\<close>.\<close>

datatype 'a or_error = Value 'a | ErrorObj string

definition catch_error :: "'a promise \<Rightarrow> 'a or_error promise" where
  "catch_error p =
     try_catch (await p (\<lambda>v. resolve (Value v))) (\<lambda>err. resolve (ErrorObj (message_of err)))"

text \<open>\<open>x.status === 'fulfilled' && !x.value.error ? x.value : null\<close>.\<close>

fun usable :: "'a or_error settled \<Rightarrow> 'a or_error option" where
  "usable (Fulfilled (Value v)) = Some (Value v)"
| "usable (Fulfilled (ErrorObj m)) = (if m = [] then Some (ErrorObj m) else None)"
| "usable (RejectedWith err) = None"

text \<open>\<open>x?.data?.length || 0\<close>.\<close>

fun data_length :: "body or_error option \<Rightarrow> nat" where
  "data_length (Some (Value b)) = (case body_data b of None \<Rightarrow> 0 | Some d \<Rightarrow> length d)"
| "data_length (Some (ErrorObj m)) = 0"
| "data_length None = 0"

record snapshot =
  snap_account :: "account_value or_error option"
  snap_metrics :: "body or_error option"
  metricsWithDetails :: "metrics_with_details option"
  snap_campaigns :: "body or_error option"
  snap_lists :: "body or_error option"
  snap_flows :: "body or_error option"
  campaignCount :: nat
  flowCount :: nat
  eventMetrics :: event_metrics
  revenueMetrics :: revenue_metrics
  timestamp :: string

text \<open>The closure \<open>getEventCountByMetricId\<close>.\<close>

definition getEventCountByMetricId :: "env \<Rightarrow> string list \<Rightarrow> string option \<Rightarrow> real promise" where
  "getEventCountByMetricId e dateFilters metricId =
     (if \<not> truthy_str metricId then resolve 0
      else try_catch
             (await
                (queryMetricAggregates e (print_str metricId)
                   \<lparr>o_measurements = Some [''count''], o_filters = Some dateFilters,
                    o_interval = None, o_timezone = Some ''UTC'', o_by = None\<rparr>)
                (\<lambda>result. resolve (res_total result)))
             (\<lambda>error. resolve 0))"

text \<open>One entry of \<open>eventCountPromises\<close>.\<close>

definition event_count_promise :: "env \<Rightarrow> string list \<Rightarrow> string option \<Rightarrow> real promise" where
  "event_count_promise e dateFilters metricId =
     (if truthy_str metricId then getEventCountByMetricId e dateFilters metricId else resolve 0)"

text \<open>
  Steps 2 and 3 of the event metrics, once \<open>allMetrics\<close> is there: the four ids, then the
  four counts. The result is \<open>eventMetrics\<close> and \<open>placedOrderId\<close>.
\<close>

definition event_counts :: "env \<Rightarrow> item list \<Rightarrow> (event_metrics \<times> string option) promise" where
  "event_counts e allMetrics s =
     (let placedOrderId =
            or_id (findExactMetricId allMetrics ''Placed Order'') (findMetricId allMetrics ''placed order'');
          viewedProductId = findMetricId allMetrics ''viewed product'';
          addedToCartId = findMetricId allMetrics ''added to cart'';
          activeOnSiteId = findMetricId allMetrics ''active on site'';
          now = clock s;
          dateFilters =
            [''greater-or-equal(datetime,'' @ toISOString e (monthBefore e now) @ '')'',
             ''less-than(datetime,'' @ toISOString e now @ '')'']
      in await (settle (event_count_promise e dateFilters placedOrderId))
           (\<lambda>placedOrderCount.
              await (settle (event_count_promise e dateFilters viewedProductId))
                (\<lambda>viewedProductCount.
                   await (settle (event_count_promise e dateFilters addedToCartId))
                     (\<lambda>addedToCartCount.
                        await (settle (event_count_promise e dateFilters activeOnSiteId))
                          (\<lambda>activeOnSiteCount.
                             resolve
                               (\<lparr>placedOrder = settled_or 0 placedOrderCount,
                                 viewedProduct = settled_or 0 viewedProductCount,
                                 addedToCart = settled_or 0 addedToCartCount,
                                 activeOnSite = settled_or 0 activeOnSiteCount\<rparr>,
                                placedOrderId)))))
           s)"

definition no_events :: event_metrics where
  "no_events = \<lparr>placedOrder = 0, viewedProduct = 0, addedToCart = 0, activeOnSite = 0\<rparr>"

text \<open>The first inner \<open>try\<close> of \<open>getDashboardMetrics\<close>: the catalog, then the counts.\<close>

definition event_part :: "env \<Rightarrow> (event_metrics \<times> string option) promise" where
  "event_part e =
     try_catch
       (await (getMetrics e)
          (\<lambda>allMetricsResponse. event_counts e (data_or_empty allMetricsResponse)))
       (\<lambda>err. resolve (no_events, None))"

definition no_revenue :: revenue_metrics where
  "no_revenue = \<lparr>rm_totalRevenue = 0, revenueByEmail = 0, revenueOverTime = []\<rparr>"

text \<open>
  The second inner \<open>try\<close>: \<open>metricsWithDetails\<close>, then the revenue of the last month.
  What the \<open>catch\<close> leaves depends on how far the block came, so the handler is given
  once for each of the two awaits.
\<close>

definition revenue_part ::
  "env \<Rightarrow> string option \<Rightarrow> (metrics_with_details option \<times> revenue_metrics) promise"
where
  "revenue_part e placedOrderId =
     try_catch
       (await (getAllMetricsWithDetails e)
          (\<lambda>details.
             try_catch
               (if truthy_str placedOrderId
                then await
                       (calculateRevenueByMetricId e (print_str placedOrderId)
                          \<lparr>r_startDate = None, r_endDate = None, r_interval = None,
                           r_timezone = Some ''UTC'', r_attributedMessage = None\<rparr>)
                       (\<lambda>revenueData.
                          resolve
                            (Some details,
                             no_revenue\<lparr>rm_totalRevenue := totalRevenue revenueData,
                                         revenueByEmail := totalRevenue revenueData\<rparr>))
                else resolve (Some details, no_revenue))
               (\<lambda>err. resolve (Some details, no_revenue))))
       (\<lambda>err. resolve (None, no_revenue))"

definition getDashboardMetrics :: "env \<Rightarrow> snapshot promise" where
  "getDashboardMetrics e =
     try_catch
       (await (settle (catch_error (getAccount e)))
          (\<lambda>account.
             await (settle (catch_error (getMetrics e)))
               (\<lambda>metrics.
                  await (settle (catch_error (getCampaigns e)))
                    (\<lambda>campaigns.
                       await (settle (catch_error (getLists e)))
                         (\<lambda>lists.
                            await (settle (catch_error (getFlows e)))
                              (\<lambda>flows.
                                 let campaignsData = usable campaigns;
                                     flowsData = usable flows
                                 in await (event_part e)
                                      (\<lambda>(events, placedOrderId).
                                         await (revenue_part e placedOrderId)
                                           (\<lambda>(details, revenue) s.
                                              resolve
                                                \<lparr>snap_account = usable account,
                                                 snap_metrics = usable metrics,
                                                 metricsWithDetails = details,
                                                 snap_campaigns = campaignsData,
                                                 snap_lists = usable lists,
                                                 snap_flows = flowsData,
                                                 campaignCount = data_length campaignsData,
                                                 flowCount = data_length flowsData,
                                                 eventMetrics = events,
                                                 revenueMetrics = revenue,
                                                 timestamp = toISOString e (clock s)\<rparr>
                                                s))))))))
       (\<lambda>error. reject error)"

section \<open>The class body\<close>

text \<open>
  The method definitions of \<open>class KlaviyoService\<close>, in the order of the source. The
  name \<open>getCampaignMetrics\<close> is defined twice: first with \<open>options\<close> (the computation
  from metric aggregates grouped by \<open>$attributed_message\<close>), later with \<open>campaignId\<close>.
\<close>

datatype method_def =
  Def_wait
| Def_rateLimit
| Def_makeRequest
| Def_getAccount
| Def_getMetrics
| Def_getMetricById
| Def_getMetricStatistics
| Def_getAllMetricsWithDetails
| Def_getCampaigns
| Def_getCampaignMetrics_options
| Def_getFlowMetrics
| Def_queryMetricAggregates
| Def_getLists
| Def_getProfiles
| Def_getEvents
| Def_getCampaignMetrics_campaignId
| Def_getFlows
| Def_getMetricData
| Def_getEventsByMetricId
| Def_getAllEventsByMetricId
| Def_calculateRevenueByMetricId
| Def_calculateRevenueFromEvents
| Def_findMetricIdByName
| Def_getEventsByMetricName
| Def_getDashboardMetrics

definition class_body :: "(string \<times> method_def) list" where
  "class_body =
     [(''wait'', Def_wait),
      (''rateLimit'', Def_rateLimit),
      (''makeRequest'', Def_makeRequest),
      (''getAccount'', Def_getAccount),
      (''getMetrics'', Def_getMetrics),
      (''getMetricById'', Def_getMetricById),
      (''getMetricStatistics'', Def_getMetricStatistics),
      (''getAllMetricsWithDetails'', Def_getAllMetricsWithDetails),
      (''getCampaigns'', Def_getCampaigns),
      (''getCampaignMetrics'', Def_getCampaignMetrics_options),
      (''getFlowMetrics'', Def_getFlowMetrics),
      (''queryMetricAggregates'', Def_queryMetricAggregates),
      (''getLists'', Def_getLists),
      (''getProfiles'', Def_getProfiles),
      (''getEvents'', Def_getEvents),
      (''getCampaignMetrics'', Def_getCampaignMetrics_campaignId),
      (''getFlows'', Def_getFlows),
      (''getMetricData'', Def_getMetricData),
      (''getEventsByMetricId'', Def_getEventsByMetricId),
      (''getAllEventsByMetricId'', Def_getAllEventsByMetricId),
      (''calculateRevenueByMetricId'', Def_calculateRevenueByMetricId),
      (''calculateRevenueFromEvents'', Def_calculateRevenueFromEvents),
      (''findMetricIdByName'', Def_findMetricIdByName),
      (''getEventsByMetricName'', Def_getEventsByMetricName),
      (''getDashboardMetrics'', Def_getDashboardMetrics)]"

text \<open>
  Evaluating the class body defines each method on the prototype in turn; a later
  definition of a name replaces the earlier one. A call \<open>this.name(...)\<close> runs what the
  prototype holds under \<open>name\<close>.
\<close>

definition define_methods ::
  "(string \<times> method_def) list \<Rightarrow> (string \<times> method_def) list \<Rightarrow> (string \<times> method_def) list"
where
  "define_methods defs proto = foldl (\<lambda>tbl (name, d). AList.update name d tbl) proto defs"

definition prototype :: "(string \<times> method_def) list" where
  "prototype = define_methods class_body []"

definition dispatch :: "string \<Rightarrow> method_def option" where
  "dispatch name = map_of prototype name"

section \<open>Observations and sample environments\<close>

text \<open>The trace without the waits of the rate limiter.\<close>

definition retry_view :: "effect list \<Rightarrow> effect list" where
  "retry_view tr = filter (\<lambda>x. case x of RateLimitWait ms \<Rightarrow> False | other \<Rightarrow> True) tr"


text \<open>The requests of a trace, in order.\<close>

definition requests_of :: "effect list \<Rightarrow> request list" where
  "requests_of tr = concat (map (\<lambda>x. case x of Axios r \<Rightarrow> [r] | other \<Rightarrow> []) tr)"

text \<open>A promise that never rejects.\<close>

definition fulfils :: "'a promise \<Rightarrow> bool" where
  "fulfils p = (\<forall>s. \<exists>v s'. p s = (Inr v, s'))"

text \<open>
  What the constructor sets, over a given upstream. The three runtime operations are
  fixed to simple stand-ins for the sample runs: a constant time stamp, 31 days for the
  month, and dropping the origin \<open>https://a.klaviyo.com\<close> of a link.
\<close>

definition sample_env :: "string \<Rightarrow> (nat \<Rightarrow> request \<Rightarrow> reply) \<Rightarrow> env" where
  "sample_env key up =
     \<lparr>privateKey = key, baseURL = ''https://a.klaviyo.com/api'', minRequestInterval = 250,
      upstream = up,
      toISOString = (\<lambda>t. ''2024-03-01T00:00:00.000Z''),
      monthBefore = (\<lambda>t. t - 2678400000),
      urlPathSearch = (\<lambda>u. Some (drop 21 u))\<rparr>"

text \<open>The value of one group, and whether the group is keyed into \<open>grouped\<close>.\<close>

definition group_value :: "agg_group \<Rightarrow> real" where
  "group_value grp = measurement_value (selected_measurement (g_measurements grp))"

definition keyed :: "bool \<Rightarrow> agg_group \<Rightarrow> bool" where
  "keyed by_given grp =
     (by_given \<and> (case g_dimensions grp of None \<Rightarrow> False | Some [] \<Rightarrow> False | Some (d0 # ds) \<Rightarrow> True))"

definition groups_of :: "body \<Rightarrow> agg_group list" where
  "groups_of response = (case body_groups response of None \<Rightarrow> [] | Some groups \<Rightarrow> groups)"

text \<open>
  The key under which a keyed group is stored: the value of the first of its
  \<open>dimensions\<close>. The groups can be read when each keyed one has \<open>measurements\<close>;
  reading \<open>measurements[measurementKey]\<close> of a keyed group without them throws.
\<close>

definition group_key :: "agg_group \<Rightarrow> string" where
  "group_key grp = (case g_dimensions grp of Some (d0 # ds) \<Rightarrow> dimension_value d0 | other \<Rightarrow> [])"

definition readable :: "bool \<Rightarrow> agg_group list \<Rightarrow> bool" where
  "readable by_given groups = (\<forall>g\<in>set groups. keyed by_given g \<longrightarrow> g_measurements g \<noteq> None)"

text \<open>
  What \<open>grouped\<close> is to hold for a list of groups: the keys of the keyed groups, each
  once, and under each key the sum of the values of the groups with that key. The
  association list has the keys in the order in which the \<open>forEach\<close> first sets them.
\<close>

definition key_total :: "bool \<Rightarrow> agg_group list \<Rightarrow> string \<Rightarrow> real" where
  "key_total by_given groups k =
     sum_list (map group_value (filter (\<lambda>g. keyed by_given g \<and> group_key g = k) groups))"

definition first_keys :: "string list \<Rightarrow> string list" where
  "first_keys ks = rev (remdups (rev ks))"

definition grouped_of :: "bool \<Rightarrow> agg_group list \<Rightarrow> (string \<times> real) list" where
  "grouped_of by_given groups =
     map (\<lambda>k. (k, key_total by_given groups k))
       (first_keys (map group_key (filter (keyed by_given) groups)))"

text \<open>The requests a run has added to the trace.\<close>

definition new_requests :: "service \<Rightarrow> service \<Rightarrow> request list" where
  "new_requests s s' = drop (length (requests_of (trace s))) (requests_of (trace s'))"

text \<open>An upstream that rejects a request whenever it comes, and one that always answers it with the same body.\<close>

definition rejects :: "env \<Rightarrow> request \<Rightarrow> bool" where
  "rejects e r = (\<forall>n. \<exists>resp msg. upstream e n r = Rejected resp msg)"

definition answers :: "env \<Rightarrow> request \<Rightarrow> body \<Rightarrow> bool" where
  "answers e r b = (\<forall>n. upstream e n r = Resolved b)"

text \<open>The request of \<open>getCampaigns\<close> for one channel.\<close>

definition channel_request :: "env \<Rightarrow> string \<Rightarrow> request" where
  "channel_request e channel =
     request_config e ''/campaigns/'' GET None
       [(''filter'', ''equals(messages.channel,'' @ [CHR 0x27] @ channel @ [CHR 0x27] @ '')'')]"

text \<open>The body \<open>{ data: items, links: { next } }\<close>.\<close>

definition listing :: "item list \<Rightarrow> string option \<Rightarrow> body" where
  "listing items next_url = \<lparr>body_data = Some items, body_next = next_url, body_groups = None\<rparr>"

text \<open>
  A run of pages, for the statement about \<open>getAllEventsByMetricId\<close>: each page but the
  last is given by its items, its \<open>links.next\<close> and the path and query of that link.
  \<open>page_requests\<close> are the requests the loop is to make, \<open>page_replies\<close> the replies of
  the upstream, the last page with no \<open>links.next\<close>.
\<close>

definition first_page_request :: "env \<Rightarrow> string \<Rightarrow> request" where
  "first_page_request e metricId =
     request_config e ''/events/'' GET None
       [(''filter'', metric_filter metricId), (''page[size]'', ''100'')]"






text \<open>
  The requests of the dashboard build that depend on the catalog: the detail of one
  metric, the count of the events of a metric over the month before \<open>now\<close>, and the
  revenue of that month. The request of the fallback of the revenue, for the first 100
  events of the metric, is \<open>first_page_request\<close>.
\<close>

definition detail_request :: "env \<Rightarrow> item \<Rightarrow> request" where
  "detail_request e m = request_config e (''/metrics/'' @ print_str (item_id m) @ ''/'') GET None []"

definition date_filters :: "env \<Rightarrow> int \<Rightarrow> string list" where
  "date_filters e now =
     [''greater-or-equal(datetime,'' @ toISOString e (monthBefore e now) @ '')'',
      ''less-than(datetime,'' @ toISOString e now @ '')'']"

definition count_request :: "env \<Rightarrow> int \<Rightarrow> string \<Rightarrow> request" where
  "count_request e now metricId =
     request_config e ''/metric-aggregates/'' POST
       (Some (aggregate_attributes metricId
                \<lparr>o_measurements = Some [''count''], o_filters = Some (date_filters e now),
                 o_interval = None, o_timezone = Some ''UTC'', o_by = None\<rparr>)) []"

definition revenue_request :: "env \<Rightarrow> int \<Rightarrow> string \<Rightarrow> request" where
  "revenue_request e now metricId =
     request_config e ''/metric-aggregates/'' POST
       (Some (revenue_attributes e now metricId
                \<lparr>r_startDate = None, r_endDate = None, r_interval = None,
                 r_timezone = Some ''UTC'', r_attributedMessage = None\<rparr>)) []"

text \<open>
  What a counter of \<open>eventMetrics\<close> holds, given the id its name resolved to: 0 with no
  id; with an id, the sum of the values of the groups of the answer when the upstream
  answers the count request of the id whatever the time, and 0 when it rejects it.
\<close>

definition counted :: "env \<Rightarrow> string option \<Rightarrow> real \<Rightarrow> bool" where
  "counted e metricId v =
     (case metricId of
        None \<Rightarrow> v = 0
      | Some i \<Rightarrow>
          (\<forall>response. (\<forall>now. answers e (count_request e now i) response)
                         \<longrightarrow> v = sum_list (map group_value (groups_of response)))
          \<and> ((\<forall>now. rejects e (count_request e now i)) \<longrightarrow> v = 0))"

text \<open>
  What \<open>revenueMetrics\<close> holds, given the id of Placed Order: no revenue with no id; with
  an id, the sum of \<open>sum_value\<close> over the groups of the answer to the revenue request;
  when that request is rejected, the sum of \<open>$value\<close> over the first 100 events; and no
  revenue when the request for the events is rejected too.
\<close>

definition revenue_of :: "real \<Rightarrow> revenue_metrics" where
  "revenue_of x = \<lparr>rm_totalRevenue = x, revenueByEmail = x, revenueOverTime = []\<rparr>"

definition earned :: "env \<Rightarrow> string option \<Rightarrow> revenue_metrics \<Rightarrow> bool" where
  "earned e metricId revenue =
     (case metricId of
        None \<Rightarrow> revenue = no_revenue
      | Some i \<Rightarrow>
          (\<forall>response. (\<forall>now. answers e (revenue_request e now i) response)
                         \<longrightarrow> revenue = revenue_of (sum_list (map revenue_of_group (groups_of response))))
          \<and> (\<forall>response. (\<forall>now. rejects e (revenue_request e now i))
                            \<and> answers e (first_page_request e i) response
                         \<longrightarrow> revenue = revenue_of (sum_list (map event_value (data_or_empty response))))
          \<and> ((\<forall>now. rejects e (revenue_request e now i)) \<and> rejects e (first_page_request e i)
                \<longrightarrow> revenue = no_revenue))"

text \<open>
  What \<open>metricsWithDetails\<close> holds for a catalog, given for each of its first 20 metrics
  the answer to its detail request, or \<open>None\<close> when the request is rejected.
\<close>

definition detailed :: "env \<Rightarrow> item \<Rightarrow> body option \<Rightarrow> bool" where
  "detailed e m d =
     (case d of
        None \<Rightarrow> rejects e (detail_request e m)
      | Some b \<Rightarrow> answers e (detail_request e m) b)"

definition details_of :: "item list \<Rightarrow> (item \<Rightarrow> body option) \<Rightarrow> metrics_with_details" where
  "details_of metrics det =
     (if metrics = []
      then \<lparr>mwd_metrics = [], mwd_details = [], mwd_total = None\<rparr>
      else \<lparr>mwd_metrics = metrics,
            mwd_details = concat (map (\<lambda>m. case det m of None \<Rightarrow> [] | Some d \<Rightarrow> [d]) (take 20 metrics)),
            mwd_total = Some (length metrics)\<rparr>)"




definition boom_body :: err_body where
  "boom_body =
     \<lparr>errors = Some [\<lparr>e_detail = Some ''boom'', e_title = Some ''Server Error''\<rparr>],
      err_message = None\<rparr>"

definition failing_env :: "nat \<Rightarrow> string \<Rightarrow> env" where
  "failing_env status msg = sample_env ''pk'' (\<lambda>n r. Rejected (Some (status, boom_body)) msg)"

text \<open>An upstream that answers every call with \<open>{ data: [] }\<close>, and one that cannot be reached.\<close>

definition ok_env :: env where
  "ok_env = sample_env ''pk'' (\<lambda>n r. Resolved empty_listing)"

definition offline_env :: env where
  "offline_env = sample_env ''pk'' (\<lambda>n r. Rejected None ''Network Error'')"

text \<open>
  An aggregate response with two groups: 5 under the dimension \<open>c1\<close>, and 7 with no
  dimensions; and one with the single group \<open>sum_value = [10, 20, 30]\<close>.
\<close>

definition count_of :: "real \<Rightarrow> measurements_obj" where
  "count_of x = \<lparr>m_unique = None, m_count = Some (Scalar x), m_sum_value = None\<rparr>"





definition by_message :: agg_options where
  "by_message =
     \<lparr>o_measurements = Some [''count''], o_filters = None, o_interval = None,
      o_timezone = None, o_by = Some [''$attributed_message'']\<rparr>"

definition sum_unfiltered :: agg_options where
  "sum_unfiltered =
     \<lparr>o_measurements = Some [''sum_value''], o_filters = Some [], o_interval = None,
      o_timezone = None, o_by = Some [''$attributed_message'']\<rparr>"

definition no_dates :: revenue_options where
  "no_dates =
     \<lparr>r_startDate = None, r_endDate = None, r_interval = None, r_timezone = Some ''UTC'',
      r_attributedMessage = None\<rparr>"

text \<open>A metric of the catalog with an id and a name, and an upstream that answers every call with a given list.\<close>

definition metric_named :: "string \<Rightarrow> string \<Rightarrow> item" where
  "metric_named i n =
     \<lparr>item_id = Some i, attributes_name = Some n, item_name = None, properties_value = None\<rparr>"

definition catalog_env :: "item list \<Rightarrow> env" where
  "catalog_env ms = sample_env ''pk'' (\<lambda>n r. Resolved (listing ms None))"

text \<open>
  An upstream whose \<open>/flows/\<close> endpoint answers 500 while the others answer: a count
  query with one group of count 5, any other aggregate query with one group of
  \<open>sum_value\<close> 120, and every other endpoint with a catalog of one metric.
\<close>

definition one_group :: "measurements_obj \<Rightarrow> body" where
  "one_group m =
     \<lparr>body_data = None, body_next = None,
      body_groups = Some [\<lparr>g_measurements = Some m, g_dimensions = None\<rparr>]\<rparr>"

definition aggregate_reply :: "agg_attributes option \<Rightarrow> body" where
  "aggregate_reply a =
     (if map_option measurements a = Some [''count'']
      then one_group (count_of 5)
      else one_group \<lparr>m_unique = None, m_count = None, m_sum_value = Some (Scalar 120)\<rparr>)"

definition flows_down_env :: env where
  "flows_down_env =
     sample_env ''pk''
       (\<lambda>n r. if req_url r = ''https://a.klaviyo.com/api/flows/''
              then Rejected (Some (500, boom_body)) ''Request failed with status code 500''
              else if req_url r = ''https://a.klaviyo.com/api/metric-aggregates/''
              then Resolved (aggregate_reply (req_data r))
              else Resolved (listing [metric_named ''M1'' ''Placed Order''] None))"

text \<open>Three small catalogs.\<close>

definition two_metrics :: "item list" where
  "two_metrics = [metric_named ''A'' ''Viewed Product Page'', metric_named ''B'' ''Placed Order'']"

definition refund_catalog :: "item list" where
  "refund_catalog = [metric_named ''M1'' ''Placed Order Refund'']"

definition variant_catalog :: "item list" where
  "variant_catalog = [metric_named ''A'' ''Viewed Product Page'', metric_named ''B'' ''Viewed Product'']"






section \<open>Basic facts\<close>

declare makeRequest.simps [simp del]

subsection \<open>Promises\<close>

lemma await_Inr: "fst (p s) = Inr v \<Longrightarrow> await p k s = k v (snd (p s))"
  by (cases "p s") (simp add: await_def)

lemma await_Inl: "fst (p s) = Inl err \<Longrightarrow> await p k s = (Inl err, snd (p s))"
  by (cases "p s") (simp add: await_def)

lemma try_catch_Inr: "fst (p s) = Inr v \<Longrightarrow> try_catch p h s = (Inr v, snd (p s))"
  by (cases "p s") (simp add: try_catch_def)

lemma try_catch_Inl: "fst (p s) = Inl err \<Longrightarrow> try_catch p h s = h err (snd (p s))"
  by (cases "p s") (simp add: try_catch_def)

lemma settle_Inr: "fst (p s) = Inr v \<Longrightarrow> settle p s = (Inr (Fulfilled v), snd (p s))"
  by (cases "p s") (simp add: settle_def)

lemma fulfilsD: "fulfils p \<Longrightarrow> \<exists>v. fst (p s) = Inr v"
  unfolding fulfils_def by (metis fst_conv)

lemma fulfilsI: "(\<And>s. \<exists>v. fst (p s) = Inr v) \<Longrightarrow> fulfils p"
  unfolding fulfils_def by (metis prod.collapse)

lemma fulfils_resolve [simp]: "fulfils (resolve v)"
  by (simp add: fulfils_def resolve_def)

lemma fulfils_settle [simp]: "fulfils (settle p)"
proof (rule fulfilsI)
  fix s show "\<exists>v. fst (settle p s) = Inr v"
    by (cases "p s"; cases "fst (p s)") (auto simp: settle_def)
qed

lemma fulfils_try_catch: "(\<And>err. fulfils (h err)) \<Longrightarrow> fulfils (try_catch p h)"
proof (rule fulfilsI)
  fix s assume h: "\<And>err. fulfils (h err)"
  show "\<exists>v. fst (try_catch p h s) = Inr v"
  proof (cases "fst (p s)")
    case (Inl err)
    then show ?thesis using fulfilsD [OF h] by (simp add: try_catch_Inl)
  next
    case (Inr v)
    then show ?thesis by (simp add: try_catch_Inr)
  qed
qed

lemma fulfils_await: "fulfils p \<Longrightarrow> (\<And>v. fulfils (k v)) \<Longrightarrow> fulfils (await p k)"
proof (rule fulfilsI)
  fix s assume p: "fulfils p" and k: "\<And>v. fulfils (k v)"
  from fulfilsD [OF p] obtain v where "fst (p s) = Inr v" by blast
  then show "\<exists>v. fst (await p k s) = Inr v"
    using fulfilsD [OF k] by (simp add: await_Inr)
qed

lemma fulfils_state: "(\<And>s. fulfils (f s)) \<Longrightarrow> fulfils (\<lambda>s. f s s)"
  unfolding fulfils_def by blast

subsection \<open>The rate limiter, one caller at a time\<close>

lemma wait_fields [simp]:
  "calls (wait f ms s) = calls s"
  "trace (wait f ms s) = trace s @ [f ms]"
  "clock (wait f ms s) = clock s + max 0 ms"
  "lastRequestTime (wait f ms s) = lastRequestTime s"
  by (simp_all add: wait_def)

lemma retry_view_simps [simp]:
  "retry_view (xs @ ys) = retry_view xs @ retry_view ys"
  "retry_view [] = []"
  "retry_view (Axios r # xs) = Axios r # retry_view xs"
  "retry_view (RetryWait w # xs) = RetryWait w # retry_view xs"
  "retry_view (PauseWait w # xs) = PauseWait w # retry_view xs"
  "retry_view (RateLimitWait w # xs) = retry_view xs"
  by (simp_all add: retry_view_def)

lemma requests_of_simps [simp]:
  "requests_of (xs @ ys) = requests_of xs @ requests_of ys"
  "requests_of [] = []"
  "requests_of (Axios r # xs) = r # requests_of xs"
  "requests_of (RetryWait w # xs) = requests_of xs"
  "requests_of (PauseWait w # xs) = requests_of xs"
  "requests_of (RateLimitWait w # xs) = requests_of xs"
  by (simp_all add: requests_of_def)

lemma rateLimit_fields [simp]:
  "calls (rateLimit e s) = calls s"
  "retry_view (trace (rateLimit e s)) = retry_view (trace s)"
  "requests_of (trace (rateLimit e s)) = requests_of (trace s)"
  "lastRequestTime (rateLimit e s) = clock (rateLimit e s)"
  by (simp_all add: rateLimit_def rateLimit_begin_def rateLimit_end_def Let_def)

text \<open>
  Run alone, \<open>rateLimit\<close> returns no sooner than \<open>minRequestInterval\<close> after the time
  the last caller stored.
\<close>

lemma rateLimit_alone_gap:
  "lastRequestTime s + minRequestInterval e \<le> lastRequestTime (rateLimit e s)"
  by (simp add: rateLimit_def rateLimit_begin_def rateLimit_end_def Let_def)

lemma axios_fields [simp]:
  "calls (snd (axios e c s)) = calls s + 1"
  "trace (snd (axios e c s)) = trace s @ [Axios c]"
  "fst (axios e c s) = upstream e (calls s) c"
  by (simp_all add: axios_def)

subsection \<open>One call of \<open>makeRequest\<close>\<close>

lemma makeRequest_resolved:
  assumes "upstream e (calls s) (request_config e endpoint meth dat params) = Resolved b"
  shows "fst (makeRequest e endpoint meth dat params rc s) = Inr b"
    and "calls (snd (makeRequest e endpoint meth dat params rc s)) = calls s + 1"
    and "retry_view (trace (snd (makeRequest e endpoint meth dat params rc s)))
           = retry_view (trace s) @ [Axios (request_config e endpoint meth dat params)]"
    and "requests_of (trace (snd (makeRequest e endpoint meth dat params rc s)))
           = requests_of (trace s) @ [request_config e endpoint meth dat params]"
  using assms by (simp_all add: makeRequest.simps [of e endpoint meth dat params rc s] Let_def)

lemma makeRequest_rejected:
  assumes "upstream e (calls s) (request_config e endpoint meth dat params) = Rejected resp msg"
    and "map_option fst resp \<noteq> Some 429 \<or> maxRetries \<le> rc"
  shows "fst (makeRequest e endpoint meth dat params rc s) = Inl (request_error resp msg)"
    and "calls (snd (makeRequest e endpoint meth dat params rc s)) = calls s + 1"
    and "retry_view (trace (snd (makeRequest e endpoint meth dat params rc s)))
           = retry_view (trace s) @ [Axios (request_config e endpoint meth dat params)]"
    and "requests_of (trace (snd (makeRequest e endpoint meth dat params rc s)))
           = requests_of (trace s) @ [request_config e endpoint meth dat params]"
  using assms by (auto simp add: makeRequest.simps [of e endpoint meth dat params rc s] Let_def)



section \<open>The retry hint\<close>








subsection \<open>Every run of \<open>makeRequest\<close>\<close>

text \<open>
  Whatever the upstream answers: at least one call and at most \<open>maxRetries + 1\<close>, every
  call with the same configuration; and an upstream that rejects every call makes
  \<open>makeRequest\<close> throw.
\<close>

lemma makeRequest_calls:
  "rc \<le> maxRetries \<Longrightarrow>
   calls s < calls (snd (makeRequest e endpoint meth dat params rc s)) \<and>
   calls (snd (makeRequest e endpoint meth dat params rc s)) \<le> calls s + (maxRetries - rc) + 1"
proof (induction e endpoint meth dat params rc s rule: makeRequest.induct)
  case (1 e endpoint meth dat params retryCount s)
  let ?r = "axios e (request_config e endpoint meth dat params) (rateLimit e s)"
  show ?case
  proof (cases "fst ?r")
    case (Resolved b)
    then show ?thesis
      by (simp add: makeRequest.simps [of e endpoint meth dat params retryCount s] Let_def)
  next
    case (Rejected resp msg)
    show ?thesis
    proof (cases "map_option fst resp = Some 429 \<and> retryCount < maxRetries")
      case True
      let ?s' = "wait RetryWait (retry_wait resp) (snd ?r)"
      let ?t = "snd (makeRequest e endpoint meth dat params (retryCount + 1) ?s')"
      have ih: "calls ?s' < calls ?t \<and> calls ?t \<le> calls ?s' + (maxRetries - (retryCount + 1)) + 1"
        using "1.IH" [OF refl Rejected True] True by simp
      have cs: "calls ?s' = calls s + 1" by simp
      have now: "makeRequest e endpoint meth dat params retryCount s
                   = makeRequest e endpoint meth dat params (retryCount + 1) ?s'"
        using Rejected True
        by (simp add: makeRequest.simps [of e endpoint meth dat params retryCount s] Let_def)
      show ?thesis
        unfolding now using ih cs True by arith
    next
      case False
      then show ?thesis
        using Rejected
        by (auto simp add: makeRequest.simps [of e endpoint meth dat params retryCount s] Let_def)
    qed
  qed
qed

lemma makeRequest_requests:
  "requests_of (trace (snd (makeRequest e endpoint meth dat params rc s)))
     = requests_of (trace s) @
       replicate (calls (snd (makeRequest e endpoint meth dat params rc s)) - calls s)
         (request_config e endpoint meth dat params)"
proof (induction e endpoint meth dat params rc s rule: makeRequest.induct)
  case (1 e endpoint meth dat params retryCount s)
  let ?c = "request_config e endpoint meth dat params"
  let ?r = "axios e ?c (rateLimit e s)"
  show ?case
  proof (cases "fst ?r")
    case (Resolved b)
    then show ?thesis
      by (simp add: makeRequest.simps [of e endpoint meth dat params retryCount s] Let_def)
  next
    case (Rejected resp msg)
    show ?thesis
    proof (cases "map_option fst resp = Some 429 \<and> retryCount < maxRetries")
      case True
      let ?s' = "wait RetryWait (retry_wait resp) (snd ?r)"
      let ?t = "snd (makeRequest e endpoint meth dat params (retryCount + 1) ?s')"
      have ih: "requests_of (trace ?t) = requests_of (trace ?s') @ replicate (calls ?t - calls ?s') ?c"
        using "1.IH" [OF refl Rejected True] .
      have lt: "calls ?s' < calls ?t"
        using makeRequest_calls [of "retryCount + 1" ?s' e endpoint meth dat params] True by simp
      have now: "makeRequest e endpoint meth dat params retryCount s
                   = makeRequest e endpoint meth dat params (retryCount + 1) ?s'"
        using Rejected True
        by (simp add: makeRequest.simps [of e endpoint meth dat params retryCount s] Let_def)
      have "calls ?t - calls s = Suc (calls ?t - calls ?s')"
        using lt by simp
      then show ?thesis
        unfolding now using ih by (simp add: replicate_append_same)
    next
      case False
      then show ?thesis
        using Rejected
        by (auto simp add: makeRequest.simps [of e endpoint meth dat params retryCount s] Let_def)
    qed
  qed
qed

lemma makeRequest_all_rejected:
  assumes "\<forall>n. \<exists>resp msg. upstream e n (request_config e endpoint meth dat params) = Rejected resp msg"
  shows "\<exists>err. fst (makeRequest e endpoint meth dat params rc s) = Inl err"
  using assms
proof (induction e endpoint meth dat params rc s rule: makeRequest.induct)
  case (1 e endpoint meth dat params retryCount s)
  let ?c = "request_config e endpoint meth dat params"
  let ?r = "axios e ?c (rateLimit e s)"
  from "1.prems" obtain resp msg where rej: "fst ?r = Rejected resp msg"
    by (metis axios_fields(3))
  show ?case
  proof (cases "map_option fst resp = Some 429 \<and> retryCount < maxRetries")
    case True
    from "1.IH" [OF refl rej True "1.prems"] show ?thesis
      using rej True
      by (simp add: makeRequest.simps [of e endpoint meth dat params retryCount s] Let_def)
  next
    case False
    then show ?thesis
      using rej
      by (auto simp add: makeRequest.simps [of e endpoint meth dat params retryCount s] Let_def)
  qed
qed

section \<open>The rate limiter under concurrent callers\<close>

text \<open>
  C3. The claim: between any two consecutive admissions of concurrent callers of the
  rate limiter at least \<open>minRequestInterval\<close> passes, and \<open>N\<close> admissions take at least
  \<open>(N - 1) * minRequestInterval\<close>. The code reads \<open>lastRequestTime\<close> before its wait
  and writes it after, so callers that arrive together wait for the same instant.
  Here three callers arrive at time 1000 on a fresh service with the interval 250:
  the first returns at once, the second and the third both return at 1250. The gap
  between the last two admissions is 0, and the three admissions take 250, not 500.
\<close>

theorem rateLimit_concurrent_callers:
  "run (sample_env ''pk'' (\<lambda>n r. Resolved empty_listing))
     [Call, Call, Call, Elapse 250, TimerFires 1, TimerFires 2] (new_service 1000, [])
   = Some (\<lparr>lastRequestTime = 1250, clock = 1250, calls = 0, trace = []\<rparr>,
           [Returned 1000, Returned 1250, Returned 1250])"
  by (simp add: sample_env_def new_service_def rateLimit_begin_def rateLimit_end_def Let_def)

section \<open>Throttling and errors of the request executor\<close>

subsection \<open>The sample replies\<close>





subsection \<open>A call throttled at every attempt\<close>




subsection \<open>A call that fails with another status\<close>

text \<open>
  C9, as the claim states it: the error carries the status of the response. The
  \<open>Error\<close> that \<open>makeRequest\<close> throws has a message only: a 500 and a 404 with the same
  body give the same error.
\<close>

theorem makeRequest_error_without_status:
  "fst (makeRequest (failing_env 500 ''Request failed with status code 500'')
          ''/flows/'' GET None [] 0 (new_service 1000))
     = Inl (Error ''Klaviyo API Error: boom'')
   \<and> fst (makeRequest (failing_env 404 ''Request failed with status code 404'')
            ''/flows/'' GET None [] 0 (new_service 1000))
     = Inl (Error ''Klaviyo API Error: boom'')"
proof -
  have a: "fst (makeRequest (failing_env st m) ''/flows/'' GET None [] 0 (new_service 1000))
             = Inl (Error ''Klaviyo API Error: boom'')" if "st \<noteq> 429" for st m
  proof -
    have up: "upstream (failing_env st m) (calls (new_service 1000))
                (request_config (failing_env st m) ''/flows/'' GET None [])
              = Rejected (Some (st, boom_body)) m"
      by (simp add: failing_env_def sample_env_def)
    have no: "map_option fst (Some (st, boom_body)) \<noteq> Some 429 \<or> maxRetries \<le> 0"
      using that by simp
    show ?thesis
      unfolding makeRequest_rejected(1) [OF up no]
      by (simp add: request_error_def boom_body_def truthy_str_def print_str_def)
  qed
  show ?thesis using a [of 500] a [of 404] by simp
qed

text \<open>
  C9, amended. When the upstream answers an attempt with a status other than 429,
  \<open>makeRequest\<close> makes no further call and throws an \<open>Error\<close> that carries a message
  and no status. The message is \<open>Klaviyo API Error: \<close> followed by
  \<open>errors[0].detail\<close> when that is a non-empty string, else by \<open>errors[0].title\<close>
  when the first error has one; with no \<open>errors\<close> array it is followed by
  \<open>data.message\<close> when that is non-empty, else by the message of the axios error.
\<close>

theorem makeRequest_api_error:
  "upstream e (calls s) (request_config e endpoint meth dat params) = Rejected (Some (status, b)) msg
     \<and> status \<noteq> 429 \<longrightarrow>
   calls (snd (makeRequest e endpoint meth dat params rc s)) = calls s + 1
   \<and> (errors b = Some (x # xs) \<and> e_detail x = Some d \<and> d \<noteq> [] \<longrightarrow>
        fst (makeRequest e endpoint meth dat params rc s) = Inl (Error (''Klaviyo API Error: '' @ d)))
   \<and> (errors b = Some (x # xs) \<and> \<not> truthy_str (e_detail x) \<and> e_title x = Some t \<longrightarrow>
        fst (makeRequest e endpoint meth dat params rc s) = Inl (Error (''Klaviyo API Error: '' @ t)))
   \<and> (errors b = None \<and> err_message b = Some m \<and> m \<noteq> [] \<longrightarrow>
        fst (makeRequest e endpoint meth dat params rc s) = Inl (Error (''Klaviyo API Error: '' @ m)))
   \<and> (errors b = None \<and> \<not> truthy_str (err_message b) \<longrightarrow>
        fst (makeRequest e endpoint meth dat params rc s) = Inl (Error (''Klaviyo API Error: '' @ msg)))"
proof (intro impI, elim conjE)
  assume up: "upstream e (calls s) (request_config e endpoint meth dat params)
                = Rejected (Some (status, b)) msg"
    and st: "status \<noteq> 429"
  have no: "map_option fst (Some (status, b)) \<noteq> Some 429 \<or> maxRetries \<le> rc"
    using st by simp
  note r = makeRequest_rejected [OF up no]
  show "calls (snd (makeRequest e endpoint meth dat params rc s)) = calls s + 1
   \<and> (errors b = Some (x # xs) \<and> e_detail x = Some d \<and> d \<noteq> [] \<longrightarrow>
        fst (makeRequest e endpoint meth dat params rc s) = Inl (Error (''Klaviyo API Error: '' @ d)))
   \<and> (errors b = Some (x # xs) \<and> \<not> truthy_str (e_detail x) \<and> e_title x = Some t \<longrightarrow>
        fst (makeRequest e endpoint meth dat params rc s) = Inl (Error (''Klaviyo API Error: '' @ t)))
   \<and> (errors b = None \<and> err_message b = Some m \<and> m \<noteq> [] \<longrightarrow>
        fst (makeRequest e endpoint meth dat params rc s) = Inl (Error (''Klaviyo API Error: '' @ m)))
   \<and> (errors b = None \<and> \<not> truthy_str (err_message b) \<longrightarrow>
        fst (makeRequest e endpoint meth dat params rc s) = Inl (Error (''Klaviyo API Error: '' @ msg)))"
    unfolding r(1) r(2)
    by (simp add: request_error_def truthy_str_def print_str_def)
qed

text \<open>A 500 whose first error has the detail \<open>boom\<close>: one call, and the message ends in \<open>boom\<close>.\<close>

theorem makeRequest_api_error_witness:
  "calls (snd (makeRequest (failing_env 500 ''Request failed with status code 500'')
                 ''/flows/'' GET None [] 0 (new_service 1000))) = 1
   \<and> fst (makeRequest (failing_env 500 ''Request failed with status code 500'')
            ''/flows/'' GET None [] 0 (new_service 1000))
       = Inl (Error ''Klaviyo API Error: boom'')"
  using makeRequest_api_error [of "failing_env 500 ''Request failed with status code 500''"
      "new_service 1000" "''/flows/''" GET None "[]" 500 boom_body
      "''Request failed with status code 500''" 0
      "\<lparr>e_detail = Some ''boom'', e_title = Some ''Server Error''\<rparr>" "[]" "''boom''"]
  by (simp add: failing_env_def sample_env_def new_service_def boom_body_def)

section \<open>Aggregate queries: facts\<close>

lemma sum_grouped_add:
  "sum_list (map snd (grouped_add g k v)) = sum_list (map snd g) + v"
  unfolding grouped_add_def grouped_get_def
  by (induction g) (auto simp: AList.update.simps)

lemma add_group_sums:
  assumes "add_group by_given grp acc = Inr acc'"
  shows "res_total acc' = res_total acc + group_value grp"
    and "sum_list (map snd (res_grouped acc'))
           = sum_list (map snd (res_grouped acc)) + (if keyed by_given grp then group_value grp else 0)"
  using assms
  by (auto simp: add_group_def Let_def group_value_def keyed_def sum_grouped_add measurement_value_def
           split: option.splits list.splits measurement.splits if_splits)

lemma add_groups_sums:
  assumes "add_groups by_given groups acc = Inr r"
  shows "res_total r = res_total acc + sum_list (map group_value groups)"
    and "sum_list (map snd (res_grouped r))
           = sum_list (map snd (res_grouped acc))
             + sum_list (map group_value (filter (keyed by_given) groups))"
  using assms
proof (induction groups arbitrary: acc)
  case Nil
  { case 1 then show ?case by simp }
  { case 2 then show ?case by simp }
next
  case (Cons grp groups)
  { case 1 then show ?case
      using Cons.IH(1) add_group_sums(1) by (auto split: sum.splits) }
  { case 2 then show ?case
      using Cons.IH(2) add_group_sums(2) by (auto split: sum.splits) }
qed




lemma queryMetricAggregates_result:
  assumes "fst (makeRequest e ''/metric-aggregates/'' POST (Some (aggregate_attributes metricId options)) [] 0 s)
             = Inr response"
  shows "fst (queryMetricAggregates e metricId options s)
           = Inr (case parse_aggregates (o_by options \<noteq> None) response of
                    Inl err \<Rightarrow> \<lparr>res_total = 0, res_grouped = []\<rparr>
                  | Inr r \<Rightarrow> r)"
  using assms
  by (cases "makeRequest e ''/metric-aggregates/'' POST (Some (aggregate_attributes metricId options)) [] 0 s")
     (auto simp: queryMetricAggregates_def try_catch_def await_def reject_def resolve_def
           split: sum.splits)

lemma queryMetricAggregates_failed:
  assumes "fst (makeRequest e ''/metric-aggregates/'' POST (Some (aggregate_attributes metricId options)) [] 0 s)
             = Inl err"
  shows "fst (queryMetricAggregates e metricId options s) = Inr \<lparr>res_total = 0, res_grouped = []\<rparr>"
  using assms
  by (cases "makeRequest e ''/metric-aggregates/'' POST (Some (aggregate_attributes metricId options)) [] 0 s")
     (auto simp: queryMetricAggregates_def try_catch_def await_def reject_def resolve_def
           split: sum.splits)

lemma queryMetricAggregates_state:
  "snd (queryMetricAggregates e metricId options s)
     = snd (makeRequest e ''/metric-aggregates/'' POST (Some (aggregate_attributes metricId options)) [] 0 s)"
  by (cases "makeRequest e ''/metric-aggregates/'' POST (Some (aggregate_attributes metricId options)) [] 0 s")
     (auto simp: queryMetricAggregates_def try_catch_def await_def reject_def resolve_def
           split: sum.splits)

lemma fulfils_queryMetricAggregates: "fulfils (queryMetricAggregates e metricId options)"
  unfolding queryMetricAggregates_def by (rule fulfils_try_catch) simp

lemma add_group_keyed:
  assumes "keyed by_given grp" and "g_measurements grp \<noteq> None"
  shows "add_group by_given grp acc
           = Inr \<lparr>res_total = res_total acc + group_value grp,
                  res_grouped = grouped_add (res_grouped acc) (group_key grp) (group_value grp)\<rparr>"
  using assms
  by (auto simp: add_group_def Let_def group_value_def keyed_def group_key_def measurement_value_def
           split: option.splits list.splits measurement.splits if_splits)

lemma add_group_keyed_unreadable:
  assumes "keyed by_given grp" and "g_measurements grp = None"
  shows "\<exists>err. add_group by_given grp acc = Inl err"
  using assms
  by (auto simp: add_group_def Let_def keyed_def split: option.splits list.splits)

lemma add_group_unkeyed:
  assumes "\<not> keyed by_given grp"
  shows "add_group by_given grp acc
           = Inr \<lparr>res_total = res_total acc + group_value grp, res_grouped = res_grouped acc\<rparr>"
  using assms
  by (cases acc) (auto simp: add_group_def Let_def group_value_def keyed_def
           split: option.splits list.splits)

lemma add_groups_readable:
  "readable by_given groups \<Longrightarrow> \<exists>r. add_groups by_given groups acc = Inr r"
proof (induction groups arbitrary: acc)
  case Nil
  then show ?case by simp
next
  case (Cons grp groups)
  then have r: "readable by_given groups" by (simp add: readable_def)
  show ?case
  proof (cases "keyed by_given grp")
    case True
    then have "g_measurements grp \<noteq> None" using Cons.prems by (simp add: readable_def)
    then show ?thesis using add_group_keyed [OF True] Cons.IH [OF r] by simp
  next
    case False
    then show ?thesis using add_group_unkeyed [OF False] Cons.IH [OF r] by simp
  qed
qed


lemma grouped_get_add:
  "grouped_get (grouped_add g k v) k' = grouped_get g k' + (if k' = k then v else 0)"
  by (simp add: grouped_get_def grouped_add_def update_conv')

lemma grouped_add_keys:
  "map fst (grouped_add g k v) = (if k \<in> set (map fst g) then map fst g else map fst g @ [k])"
  by (simp add: grouped_add_def update_keys)

lemma remdups_drop_seen: "k \<in> set ys \<Longrightarrow> remdups (xs @ k # ys) = remdups (xs @ ys)"
  by (induction xs) auto

lemma first_keys_seen: "k \<in> set xs \<Longrightarrow> first_keys (xs @ k # ys) = first_keys (xs @ ys)"
  by (simp add: first_keys_def remdups_drop_seen)

lemma add_groups_keys:
  assumes "add_groups by_given groups acc = Inr r" and "distinct (map fst (res_grouped acc))"
  shows "map fst (res_grouped r)
           = first_keys (map fst (res_grouped acc) @ map group_key (filter (keyed by_given) groups))"
  using assms
proof (induction groups arbitrary: acc)
  case Nil
  then show ?case by (auto simp: first_keys_def distinct_remdups_id)
next
  case (Cons grp groups)
  show ?case
  proof (cases "keyed by_given grp")
    case False
    let ?acc' = "\<lparr>res_total = res_total acc + group_value grp, res_grouped = res_grouped acc\<rparr>"
    have "add_groups by_given groups ?acc' = Inr r"
      using Cons.prems(1) by (simp add: add_group_unkeyed [OF False])
    from Cons.IH [OF this] Cons.prems(2) False show ?thesis by simp
  next
    case True
    then have m: "g_measurements grp \<noteq> None"
      using Cons.prems(1) add_group_keyed_unreadable [of by_given grp acc] by force
    let ?acc' = "\<lparr>res_total = res_total acc + group_value grp,
                   res_grouped = grouped_add (res_grouped acc) (group_key grp) (group_value grp)\<rparr>"
    have r: "add_groups by_given groups ?acc' = Inr r"
      using Cons.prems(1) by (simp add: add_group_keyed [OF True m])
    have d': "distinct (map fst (res_grouped ?acc'))"
      using Cons.prems(2) by (simp add: grouped_add_keys)
    from Cons.IH [OF r d'] True show ?thesis
      by (auto simp: grouped_add_keys first_keys_seen)
  qed
qed

lemma add_groups_values:
  assumes "add_groups by_given groups acc = Inr r"
  shows "grouped_get (res_grouped r) k = grouped_get (res_grouped acc) k + key_total by_given groups k"
  using assms
proof (induction groups arbitrary: acc)
  case Nil
  then show ?case by (simp add: key_total_def)
next
  case (Cons grp groups)
  show ?case
  proof (cases "keyed by_given grp")
    case False
    let ?acc' = "\<lparr>res_total = res_total acc + group_value grp, res_grouped = res_grouped acc\<rparr>"
    have "add_groups by_given groups ?acc' = Inr r"
      using Cons.prems by (simp add: add_group_unkeyed [OF False])
    from Cons.IH [OF this] False show ?thesis by (simp add: key_total_def)
  next
    case True
    then have m: "g_measurements grp \<noteq> None"
      using Cons.prems add_group_keyed_unreadable [of by_given grp acc] by force
    let ?acc' = "\<lparr>res_total = res_total acc + group_value grp,
                   res_grouped = grouped_add (res_grouped acc) (group_key grp) (group_value grp)\<rparr>"
    have r: "add_groups by_given groups ?acc' = Inr r"
      using Cons.prems by (simp add: add_group_keyed [OF True m])
    from Cons.IH [OF r] True show ?thesis
      by (auto simp: grouped_get_add key_total_def)
  qed
qed

lemma alist_by_keys:
  assumes "distinct (map fst al)"
  shows "al = map (\<lambda>k. (k, grouped_get al k)) (map fst al)"
proof -
  have "map (\<lambda>p. (fst p, grouped_get al (fst p))) al = al"
    by (rule map_idI) (auto simp: grouped_get_def map_of_is_SomeI [OF assms] prod_eq_iff)
  then show ?thesis by (simp add: comp_def)
qed

lemma parse_aggregates_readable:
  assumes "readable by_given (groups_of response)"
  shows "parse_aggregates by_given response
           = Inr \<lparr>res_total = sum_list (map group_value (groups_of response)),
                  res_grouped = grouped_of by_given (groups_of response)\<rparr>"
proof -
  let ?acc = "\<lparr>res_total = 0, res_grouped = []\<rparr>"
  from add_groups_readable [OF assms] obtain r where
    r: "add_groups by_given (groups_of response) ?acc = Inr r" by blast
  have p: "parse_aggregates by_given response = Inr r"
    using r by (auto simp: parse_aggregates_def groups_of_def split: option.splits)
  have t: "res_total r = sum_list (map group_value (groups_of response))"
    using add_groups_sums(1) [OF r] by simp
  have k: "map fst (res_grouped r)
             = first_keys (map group_key (filter (keyed by_given) (groups_of response)))"
    using add_groups_keys [OF r] by simp
  then have d: "distinct (map fst (res_grouped r))" by (simp add: first_keys_def)
  have v: "grouped_get (res_grouped r) k = key_total by_given (groups_of response) k" for k
    using add_groups_values [OF r, of k] by (simp add: grouped_get_def)
  have "res_grouped r = grouped_of by_given (groups_of response)"
    using alist_by_keys [OF d] unfolding k v grouped_of_def .
  then show ?thesis using p t by (cases r) simp
qed




section \<open>Aggregate queries: total and grouped\<close>



lemma sample_resolved:
  "fst (makeRequest (sample_env key (\<lambda>n r. Resolved b)) endpoint meth dat params 0 s) = Inr b"
  by (rule makeRequest_resolved(1)) (simp add: sample_env_def)

lemma sample_rejected:
  "st \<noteq> 429 \<Longrightarrow>
   fst (makeRequest (sample_env key (\<lambda>n r. Rejected (Some (st, b)) m)) endpoint meth dat params 0 s)
     = Inl (request_error (Some (st, b)) m)"
  by (rule makeRequest_rejected(1)) (simp_all add: sample_env_def)

lemma sample_offline:
  "fst (makeRequest (sample_env key (\<lambda>n r. Rejected None m)) endpoint meth dat params 0 s)
     = Inl (request_error None m)"
  by (rule makeRequest_rejected(1)) (simp_all add: sample_env_def)







section \<open>Aggregate queries: failure of the request\<close>

text \<open>
  C7, as the claim states it: \<open>queryMetricAggregates\<close> surfaces the failure of the request
  to its caller. Its whole body is in a \<open>try\<close> whose \<open>catch\<close> returns the result with
  total 0 and nothing grouped: against an upstream that answers 500 it returns that
  result.
\<close>

theorem queryMetricAggregates_swallows_failure:
  "fst (queryMetricAggregates (failing_env 500 ''Request failed with status code 500'') ''M1''
          by_message (new_service 1000))
     = Inr \<lparr>res_total = 0, res_grouped = []\<rparr>"
  unfolding failing_env_def
  by (rule queryMetricAggregates_failed [OF sample_rejected]) simp

text \<open>
  C7, amended. \<open>queryMetricAggregates\<close> never rejects; it leaves the service in the
  state in which its one call of \<open>makeRequest\<close> left it, so it makes no request of its
  own after a failure; and when \<open>makeRequest\<close> fails it returns the result with total 0
  and nothing grouped.
\<close>

theorem queryMetricAggregates_degrades:
  "(\<exists>r. fst (queryMetricAggregates e metricId options s) = Inr r)
   \<and> snd (queryMetricAggregates e metricId options s)
       = snd (makeRequest e ''/metric-aggregates/'' POST (Some (aggregate_attributes metricId options)) [] 0 s)
   \<and> (fst (makeRequest e ''/metric-aggregates/'' POST (Some (aggregate_attributes metricId options)) [] 0 s)
         = Inl err
       \<longrightarrow> fst (queryMetricAggregates e metricId options s) = Inr \<lparr>res_total = 0, res_grouped = []\<rparr>)"
  using fulfilsD [OF fulfils_queryMetricAggregates, of e metricId options s]
    queryMetricAggregates_state [of e metricId options s]
    queryMetricAggregates_failed [of e metricId options s err]
  by blast

text \<open>An upstream that cannot be reached: the result has total 0 and nothing grouped.\<close>

theorem queryMetricAggregates_degrades_witness:
  "fst (queryMetricAggregates offline_env ''M1'' by_message (new_service 1000))
     = Inr \<lparr>res_total = 0, res_grouped = []\<rparr>"
  using queryMetricAggregates_degrades [of offline_env "''M1''" by_message "new_service 1000"
      "request_error None ''Network Error''"]
    sample_offline [of "''pk''" "''Network Error''" "''/metric-aggregates/''" POST
      "Some (aggregate_attributes ''M1'' by_message)" "[]" "new_service 1000"]
  by (simp add: offline_env_def)

section \<open>Date filters of revenue queries\<close>

lemma new_requests_append:
  "requests_of (trace s') = requests_of (trace s) @ rs \<Longrightarrow> new_requests s s' = rs"
  by (simp add: new_requests_def)

lemma makeRequest_requests_n:
  "\<exists>n>0. requests_of (trace (snd (makeRequest e endpoint meth dat params 0 s)))
           = requests_of (trace s) @ replicate n (request_config e endpoint meth dat params)"
proof -
  have "calls s < calls (snd (makeRequest e endpoint meth dat params 0 s))"
    using makeRequest_calls [of 0 s e endpoint meth dat params] by simp
  then have "0 < calls (snd (makeRequest e endpoint meth dat params 0 s)) - calls s" by simp
  then show ?thesis using makeRequest_requests [of e endpoint meth dat params 0 s] by blast
qed

lemma calculateRevenueFromEvents_state:
  "snd (calculateRevenueFromEvents e metricId limit s)
     = snd (makeRequest e ''/events/'' GET None
              [(''filter'', metric_filter metricId), (''page[size]'', limit)] 0 s)"
  by (cases "makeRequest e ''/events/'' GET None
              [(''filter'', metric_filter metricId), (''page[size]'', limit)] 0 s")
     (auto simp: calculateRevenueFromEvents_def try_catch_def await_def resolve_def Let_def
           split: sum.splits)

lemma calculateRevenueByMetricId_state:
  "snd (calculateRevenueByMetricId e metricId options s)
     = (let r = makeRequest e ''/metric-aggregates/'' POST
                  (Some (revenue_attributes e (clock s) metricId options)) [] 0 s
        in case fst r of
             Inr response \<Rightarrow> snd r
           | Inl err \<Rightarrow> snd (calculateRevenueFromEvents e metricId ''100'' (snd r)))"
  by (cases "makeRequest e ''/metric-aggregates/'' POST
                  (Some (revenue_attributes e (clock s) metricId options)) [] 0 s")
     (auto simp: calculateRevenueByMetricId_def try_catch_def await_def resolve_def Let_def
           split: sum.splits)

lemma calculateRevenueByMetricId_requests:
  "\<exists>n m. 0 < n \<and>
     new_requests s (snd (calculateRevenueByMetricId e metricId options s))
       = replicate n (request_config e ''/metric-aggregates/'' POST
                        (Some (revenue_attributes e (clock s) metricId options)) [])
         @ replicate m (request_config e ''/events/'' GET None
                          [(''filter'', metric_filter metricId), (''page[size]'', ''100'')])"
proof -
  let ?agg = "request_config e ''/metric-aggregates/'' POST
                (Some (revenue_attributes e (clock s) metricId options)) []"
  let ?ev = "request_config e ''/events/'' GET None
               [(''filter'', metric_filter metricId), (''page[size]'', ''100'')]"
  let ?r = "makeRequest e ''/metric-aggregates/'' POST
              (Some (revenue_attributes e (clock s) metricId options)) [] 0 s"
  from makeRequest_requests_n obtain n where
    n: "0 < n" "requests_of (trace (snd ?r)) = requests_of (trace s) @ replicate n ?agg"
    by blast
  show ?thesis
  proof (cases "fst ?r")
    case (Inr response)
    then have "snd (calculateRevenueByMetricId e metricId options s) = snd ?r"
      by (simp add: calculateRevenueByMetricId_state Let_def)
    then have "new_requests s (snd (calculateRevenueByMetricId e metricId options s))
                 = replicate n ?agg @ replicate 0 ?ev"
      using n(2) by (simp add: new_requests_append)
    then show ?thesis using n(1) by blast
  next
    case (Inl err)
    let ?t = "snd (makeRequest e ''/events/'' GET None
                     [(''filter'', metric_filter metricId), (''page[size]'', ''100'')] 0 (snd ?r))"
    from makeRequest_requests_n obtain m where
      m: "requests_of (trace ?t) = requests_of (trace (snd ?r)) @ replicate m ?ev"
      by blast
    have "snd (calculateRevenueByMetricId e metricId options s) = ?t"
      using Inl by (simp add: calculateRevenueByMetricId_state calculateRevenueFromEvents_state Let_def)
    then have "new_requests s (snd (calculateRevenueByMetricId e metricId options s))
                 = replicate n ?agg @ replicate m ?ev"
      using n(2) m by (simp add: new_requests_append)
    then show ?thesis using n(1) by blast
  qed
qed

lemma queryMetricAggregates_requests:
  "\<exists>k>0. new_requests s (snd (queryMetricAggregates e metricId options s))
           = replicate k (request_config e ''/metric-aggregates/'' POST
                            (Some (aggregate_attributes metricId options)) [])"
  using makeRequest_requests_n [of e "''/metric-aggregates/''" POST
      "Some (aggregate_attributes metricId options)" "[]" s]
  by (auto simp: queryMetricAggregates_state new_requests_append)

text \<open>
  C4, as the claim states it: a \<open>sum_value\<close> query issued without filters is sent with a
  default date range. \<open>queryMetricAggregates\<close> sets \<open>filter\<close> only when \<open>filters\<close> is
  not empty and has no default: the query for \<open>sum_value\<close> grouped by
  \<open>$attributed_message\<close> with \<open>filters = []\<close>, the one \<open>getFlowMetrics\<close> issues for the
  revenue of the flows, is sent with no \<open>filter\<close>.
\<close>

theorem queryMetricAggregates_sum_value_unfiltered:
  "new_requests (new_service 1000)
     (snd (queryMetricAggregates ok_env ''M1'' sum_unfiltered (new_service 1000)))
   = [request_config ok_env ''/metric-aggregates/'' POST
        (Some \<lparr>measurements = [''sum_value''], metric_id = ''M1'', timezone = ''UTC'',
               filter_by = None, interval = None, group_by = Some [''$attributed_message'']\<rparr>) []]"
proof -
  have a: "aggregate_attributes ''M1'' sum_unfiltered
             = \<lparr>measurements = [''sum_value''], metric_id = ''M1'', timezone = ''UTC'',
                filter_by = None, interval = None, group_by = Some [''$attributed_message'']\<rparr>"
    by (simp add: aggregate_attributes_def sum_unfiltered_def Let_def truthy_str_def)
  have up: "upstream ok_env (calls (new_service 1000))
              (request_config ok_env ''/metric-aggregates/'' POST
                 (Some (aggregate_attributes ''M1'' sum_unfiltered)) [])
            = Resolved empty_listing"
    by (simp add: ok_env_def sample_env_def)
  show ?thesis
    using makeRequest_resolved(4) [OF up, of 0]
    by (simp add: queryMetricAggregates_state new_requests_append a)
qed

text \<open>
  C4, amended. \<open>calculateRevenueByMetricId\<close> sends its \<open>sum_value\<close> query, once or
  again after a 429, always with the two date filters first: from \<open>startDate\<close>, or one
  calendar month before now when it is not given, to \<open>endDate\<close>, or now; the only
  other requests it makes are those of the fallback to \<open>/events/\<close>.
  \<open>queryMetricAggregates\<close> sends the measurements and the filters of its caller as they
  are, and no \<open>filter\<close> at all when \<open>filters\<close> is empty or left out, whatever the
  measurement.
\<close>

theorem revenue_query_filters:
  "(\<exists>n m. 0 < n \<and>
      new_requests s (snd (calculateRevenueByMetricId e metricId options s))
        = replicate n (request_config e ''/metric-aggregates/'' POST
                         (Some (revenue_attributes e (clock s) metricId options)) [])
          @ replicate m (request_config e ''/events/'' GET None
                           [(''filter'', metric_filter metricId), (''page[size]'', ''100'')]))
   \<and> measurements (revenue_attributes e now metricId options) = [''sum_value'']
   \<and> (\<exists>extra. filter_by (revenue_attributes e now metricId options)
         = Some ((''greater-or-equal(datetime,''
                    @ or_str (r_startDate options) (toISOString e (monthBefore e now)) @ '')'')
                 # (''less-than(datetime,'' @ or_str (r_endDate options) (toISOString e now) @ '')'')
                 # extra))
   \<and> (\<exists>k>0. new_requests s (snd (queryMetricAggregates e metricId qoptions s))
         = replicate k (request_config e ''/metric-aggregates/'' POST
                          (Some (aggregate_attributes metricId qoptions)) []))
   \<and> measurements (aggregate_attributes metricId qoptions)
       = (case o_measurements qoptions of None \<Rightarrow> [''count''] | Some ms \<Rightarrow> ms)
   \<and> filter_by (aggregate_attributes metricId qoptions)
       = (case o_filters qoptions of None \<Rightarrow> None | Some f \<Rightarrow> if f = [] then None else Some f)"
proof (intro conjI)
  show "\<exists>n m. 0 < n \<and>
      new_requests s (snd (calculateRevenueByMetricId e metricId options s))
        = replicate n (request_config e ''/metric-aggregates/'' POST
                         (Some (revenue_attributes e (clock s) metricId options)) [])
          @ replicate m (request_config e ''/events/'' GET None
                           [(''filter'', metric_filter metricId), (''page[size]'', ''100'')])"
    by (rule calculateRevenueByMetricId_requests)
  show "measurements (revenue_attributes e now metricId options) = [''sum_value'']"
    by (simp add: revenue_attributes_def Let_def)
  show "\<exists>extra. filter_by (revenue_attributes e now metricId options)
         = Some ((''greater-or-equal(datetime,''
                    @ or_str (r_startDate options) (toISOString e (monthBefore e now)) @ '')'')
                 # (''less-than(datetime,'' @ or_str (r_endDate options) (toISOString e now) @ '')'')
                 # extra)"
    by (simp add: revenue_attributes_def Let_def)
  show "\<exists>k>0. new_requests s (snd (queryMetricAggregates e metricId qoptions s))
         = replicate k (request_config e ''/metric-aggregates/'' POST
                          (Some (aggregate_attributes metricId qoptions)) [])"
    by (rule queryMetricAggregates_requests)
  show "measurements (aggregate_attributes metricId qoptions)
       = (case o_measurements qoptions of None \<Rightarrow> [''count''] | Some ms \<Rightarrow> ms)"
    by (simp add: aggregate_attributes_def Let_def)
  show "filter_by (aggregate_attributes metricId qoptions)
       = (case o_filters qoptions of None \<Rightarrow> None | Some f \<Rightarrow> if f = [] then None else Some f)"
    by (simp add: aggregate_attributes_def Let_def split: option.splits)
qed

text \<open>
  With no dates given, the query of \<open>calculateRevenueByMetricId\<close> carries the two
  default filters; the \<open>sum_value\<close> options with \<open>filters = []\<close> give no filter.
\<close>

theorem revenue_query_filters_witness:
  "(\<exists>n m. 0 < n \<and>
      new_requests (new_service 1000) (snd (calculateRevenueByMetricId ok_env ''M1'' no_dates (new_service 1000)))
        = replicate n (request_config ok_env ''/metric-aggregates/'' POST
             (Some \<lparr>measurements = [''sum_value''], metric_id = ''M1'', timezone = ''UTC'',
                    filter_by = Some [''greater-or-equal(datetime,2024-03-01T00:00:00.000Z)'',
                                      ''less-than(datetime,2024-03-01T00:00:00.000Z)''],
                    interval = None, group_by = None\<rparr>) [])
          @ replicate m (request_config ok_env ''/events/'' GET None
                           [(''filter'', metric_filter ''M1''), (''page[size]'', ''100'')]))
   \<and> filter_by (aggregate_attributes ''M1'' sum_unfiltered) = None"
proof -
  have r: "revenue_attributes ok_env (clock (new_service 1000)) ''M1'' no_dates
             = \<lparr>measurements = [''sum_value''], metric_id = ''M1'', timezone = ''UTC'',
                filter_by = Some [''greater-or-equal(datetime,2024-03-01T00:00:00.000Z)'',
                                  ''less-than(datetime,2024-03-01T00:00:00.000Z)''],
                interval = None, group_by = None\<rparr>"
    by (simp add: revenue_attributes_def Let_def no_dates_def ok_env_def sample_env_def or_str_def
          truthy_str_def)
  have f: "o_filters sum_unfiltered = Some []" by (simp add: sum_unfiltered_def)
  from revenue_query_filters [of "new_service 1000" ok_env "''M1''" no_dates 1000 sum_unfiltered]
  show ?thesis unfolding r f by simp
qed

section \<open>The two definitions of \<open>getCampaignMetrics\<close>\<close>

lemma wrapper_state:
  "snd (try_catch (await p (\<lambda>v. resolve (f v))) (\<lambda>err. resolve d) s) = snd (p s)"
  by (cases "p s") (auto simp: try_catch_def await_def resolve_def split: sum.splits)

lemma wrapper_value:
  "fst (try_catch (await p (\<lambda>v. resolve (f v))) (\<lambda>err. resolve d) s)
     = Inr (case fst (p s) of Inl err \<Rightarrow> d | Inr v \<Rightarrow> f v)"
  by (cases "p s") (auto simp: try_catch_def await_def resolve_def split: sum.splits)

lemma plain_wrapper_state: "snd (try_catch p (\<lambda>err. resolve d) s) = snd (p s)"
  by (cases "p s") (auto simp: try_catch_def resolve_def split: sum.splits)

lemma plain_wrapper_value:
  "fst (try_catch p (\<lambda>err. resolve d) s) = Inr (case fst (p s) of Inl err \<Rightarrow> d | Inr v \<Rightarrow> v)"
  by (cases "p s") (auto simp: try_catch_def resolve_def split: sum.splits)

lemma fulfils_getCampaignMetrics_campaignId: "fulfils (getCampaignMetrics_campaignId e campaignId)"
  unfolding getCampaignMetrics_campaignId_def by (rule fulfils_try_catch) simp

text \<open>
  C10. The class defines \<open>getCampaignMetrics\<close> twice. A call of
  \<open>getCampaignMetrics\<close> runs the later definition, the one with \<open>campaignId\<close>; the
  earlier one, which computes opens, clicks, delivered, bounces and revenue from metric
  aggregates, is held by the prototype under no name. The later definition never
  rejects; all its requests are the GET of
  \<open>/campaigns/{campaignId}/campaign-messages/\<close>; it returns \<open>null\<close> when that request
  fails and the response when it succeeds.
\<close>

theorem getCampaignMetrics_dispatch:
  "dispatch ''getCampaignMetrics'' = Some Def_getCampaignMetrics_campaignId
   \<and> Def_getCampaignMetrics_options \<notin> snd ` set prototype
   \<and> fulfils (getCampaignMetrics_campaignId e campaignId)
   \<and> (\<exists>n>0. new_requests s (snd (getCampaignMetrics_campaignId e campaignId s))
         = replicate n (request_config e (''/campaigns/'' @ campaignId @ ''/campaign-messages/'') GET None []))
   \<and> (fst (makeRequest e (''/campaigns/'' @ campaignId @ ''/campaign-messages/'') GET None [] 0 s) = Inl err
        \<longrightarrow> fst (getCampaignMetrics_campaignId e campaignId s) = Inr None)
   \<and> (fst (makeRequest e (''/campaigns/'' @ campaignId @ ''/campaign-messages/'') GET None [] 0 s) = Inr b
        \<longrightarrow> fst (getCampaignMetrics_campaignId e campaignId s) = Inr (Some b))"
proof (intro conjI impI)
  show "dispatch ''getCampaignMetrics'' = Some Def_getCampaignMetrics_campaignId"
    by (simp add: dispatch_def prototype_def define_methods_def class_body_def)
  show "Def_getCampaignMetrics_options \<notin> snd ` set prototype"
    by (simp add: prototype_def define_methods_def class_body_def)
  show "fulfils (getCampaignMetrics_campaignId e campaignId)"
    by (rule fulfils_getCampaignMetrics_campaignId)
  show "\<exists>n>0. new_requests s (snd (getCampaignMetrics_campaignId e campaignId s))
         = replicate n (request_config e (''/campaigns/'' @ campaignId @ ''/campaign-messages/'') GET None [])"
    using makeRequest_requests_n [of e "''/campaigns/'' @ campaignId @ ''/campaign-messages/''" GET None "[]" s]
    by (auto simp: getCampaignMetrics_campaignId_def wrapper_state new_requests_append)
next
  assume "fst (makeRequest e (''/campaigns/'' @ campaignId @ ''/campaign-messages/'') GET None [] 0 s) = Inl err"
  then show "fst (getCampaignMetrics_campaignId e campaignId s) = Inr None"
    by (simp add: getCampaignMetrics_campaignId_def wrapper_value)
next
  assume "fst (makeRequest e (''/campaigns/'' @ campaignId @ ''/campaign-messages/'') GET None [] 0 s) = Inr b"
  then show "fst (getCampaignMetrics_campaignId e campaignId s) = Inr (Some b)"
    by (simp add: getCampaignMetrics_campaignId_def wrapper_value)
qed

text \<open>Against an upstream that answers 500 the result is \<open>null\<close>; against one that answers, the response.\<close>

theorem getCampaignMetrics_dispatch_witness:
  "dispatch ''getCampaignMetrics'' = Some Def_getCampaignMetrics_campaignId
   \<and> fst (getCampaignMetrics_campaignId (failing_env 500 ''Request failed with status code 500'')
            ''C1'' (new_service 1000)) = Inr None
   \<and> fst (getCampaignMetrics_campaignId ok_env ''C1'' (new_service 1000)) = Inr (Some empty_listing)"
proof -
  have a: "fst (makeRequest (failing_env 500 ''Request failed with status code 500'')
                 (''/campaigns/'' @ ''C1'' @ ''/campaign-messages/'') GET None [] 0 (new_service 1000))
            = Inl (request_error (Some (500, boom_body)) ''Request failed with status code 500'')"
    unfolding failing_env_def by (rule sample_rejected) simp
  have b: "fst (makeRequest ok_env (''/campaigns/'' @ ''C1'' @ ''/campaign-messages/'') GET None [] 0
                 (new_service 1000)) = Inr empty_listing"
    unfolding ok_env_def by (rule sample_resolved)
  from getCampaignMetrics_dispatch [of "failing_env 500 ''Request failed with status code 500''" "''C1''"
      "new_service 1000" "request_error (Some (500, boom_body)) ''Request failed with status code 500''"]
    getCampaignMetrics_dispatch [of ok_env "''C1''" "new_service 1000" _ empty_listing] a b
  show ?thesis by blast
qed

section \<open>Metric names: facts\<close>

text \<open>\<open>str_includes\<close> is the test for a substring.\<close>

lemma str_includes_iff: "str_includes s t \<longleftrightarrow> (\<exists>pre post. s = pre @ t @ post)"
proof (induction s)
  case Nil
  then show ?case by simp
next
  case (Cons c cs)
  have sw: "starts_with (c # cs) t \<longleftrightarrow> (\<exists>post. c # cs = t @ post)"
    unfolding starts_with_def by (metis append_eq_conv_conj append_take_drop_id)
  show ?case
  proof
    assume "str_includes (c # cs) t"
    then consider "starts_with (c # cs) t" | "str_includes cs t" by auto
    then show "\<exists>pre post. c # cs = pre @ t @ post"
    proof cases
      case 1
      then show ?thesis using sw by (metis append_Nil)
    next
      case 2
      then obtain pre post where "cs = pre @ t @ post" using Cons.IH by blast
      then have "c # cs = (c # pre) @ t @ post" by simp
      then show ?thesis by blast
    qed
  next
    assume "\<exists>pre post. c # cs = pre @ t @ post"
    then obtain pre post where eq: "c # cs = pre @ t @ post" by blast
    show "str_includes (c # cs) t"
    proof (cases pre)
      case Nil
      then have "starts_with (c # cs) t" using eq sw by auto
      then show ?thesis by (simp only: str_includes.simps) simp
    next
      case (Cons p pre')
      then have "cs = pre' @ t @ post" using eq by simp
      then show ?thesis using Cons.IH by auto
    qed
  qed
qed

lemma find_first:
  assumes "\<forall>x\<in>set pre. \<not> P x" and "P m"
  shows "find P (pre @ m # post) = Some m"
  using assms by (induction pre) auto

lemma find_none: "\<forall>x\<in>set xs. \<not> P x \<Longrightarrow> find P xs = None"
  by (induction xs) auto

lemma fulfils_getMetrics: "fulfils (getMetrics e)"
  unfolding getMetrics_def by (rule fulfils_try_catch) simp

lemma fulfils_findMetricIdByName: "fulfils (findMetricIdByName e metricName)"
  unfolding findMetricIdByName_def by (rule fulfils_try_catch) simp

lemma findMetricIdByName_value:
  assumes "fst (getMetrics e s) = Inr response"
  shows "fst (findMetricIdByName e metricName s)
           = Inr (case find (\<lambda>m. toLowerCase (metric_name m) = toLowerCase metricName)
                         (data_or_empty response) of
                    None \<Rightarrow> None | Some metric \<Rightarrow> item_id metric)"
  using assms
  by (cases "getMetrics e s")
     (auto simp: findMetricIdByName_def try_catch_def await_def resolve_def Let_def
           split: option.splits sum.splits)

lemma id_or_null_truthy: "id_or_null m = Some i \<Longrightarrow> truthy_str (Some i)"
  by (auto simp: id_or_null_def split: option.splits if_splits)

lemma or_id_exact:
  "findExactMetricId ms a = Some i \<Longrightarrow> or_id (findExactMetricId ms a) (findMetricId ms b) = Some i"
  using id_or_null_truthy [of _ i] by (auto simp: or_id_def findExactMetricId_def)

lemma or_id_fallback:
  "findExactMetricId ms a = None \<Longrightarrow> or_id (findExactMetricId ms a) (findMetricId ms b) = findMetricId ms b"
  by (simp add: or_id_def truthy_str_def)

lemma event_count_promise_value:
  "\<exists>v s'. event_count_promise e f mid s = (Inr v, s') \<and> (mid = None \<longrightarrow> v = 0 \<and> s' = s)"
proof (cases "truthy_str mid")
  case True
  have "fulfils (getEventCountByMetricId e f mid)"
    unfolding getEventCountByMetricId_def
    by (auto intro: fulfils_try_catch)
  then obtain v where "fst (getEventCountByMetricId e f mid s) = Inr v"
    using fulfilsD by blast
  then have "event_count_promise e f mid s = (Inr v, snd (getEventCountByMetricId e f mid s))"
    using True by (simp add: event_count_promise_def prod_eq_iff)
  moreover have "mid \<noteq> None" using True by (auto simp: truthy_str_def split: option.splits)
  ultimately show ?thesis by blast
next
  case False
  then show ?thesis by (simp add: event_count_promise_def resolve_def)
qed

lemma settle_value:
  "p s = (Inr v, s') \<Longrightarrow> settle p s = (Inr (Fulfilled v), s')"
  by (simp add: settle_def)

lemma four_counts:
  "\<exists>ev s'.
     await (settle (event_count_promise e f a))
       (\<lambda>c1. await (settle (event_count_promise e f b))
          (\<lambda>c2. await (settle (event_count_promise e f c))
             (\<lambda>c3. await (settle (event_count_promise e f d))
                (\<lambda>c4. resolve
                   (\<lparr>placedOrder = settled_or 0 c1, viewedProduct = settled_or 0 c2,
                     addedToCart = settled_or 0 c3, activeOnSite = settled_or 0 c4\<rparr>, a))))) s
       = (Inr (ev, a), s')
     \<and> (a = None \<longrightarrow> placedOrder ev = 0)
     \<and> (b = None \<longrightarrow> viewedProduct ev = 0)
     \<and> (c = None \<longrightarrow> addedToCart ev = 0)
     \<and> (d = None \<longrightarrow> activeOnSite ev = 0)"
proof -
  from event_count_promise_value obtain v1 s1 where
    1: "event_count_promise e f a s = (Inr v1, s1)" "a = None \<longrightarrow> v1 = 0" by blast
  from event_count_promise_value obtain v2 s2 where
    2: "event_count_promise e f b s1 = (Inr v2, s2)" "b = None \<longrightarrow> v2 = 0" by blast
  from event_count_promise_value obtain v3 s3 where
    3: "event_count_promise e f c s2 = (Inr v3, s3)" "c = None \<longrightarrow> v3 = 0" by blast
  from event_count_promise_value obtain v4 s4 where
    4: "event_count_promise e f d s3 = (Inr v4, s4)" "d = None \<longrightarrow> v4 = 0" by blast
  have st: "settle (event_count_promise e f a) s = (Inr (Fulfilled v1), s1)"
    "settle (event_count_promise e f b) s1 = (Inr (Fulfilled v2), s2)"
    "settle (event_count_promise e f c) s2 = (Inr (Fulfilled v3), s3)"
    "settle (event_count_promise e f d) s3 = (Inr (Fulfilled v4), s4)"
    using 1(1) 2(1) 3(1) 4(1) by (simp_all add: settle_def)
  have "await (settle (event_count_promise e f a))
       (\<lambda>c1. await (settle (event_count_promise e f b))
          (\<lambda>c2. await (settle (event_count_promise e f c))
             (\<lambda>c3. await (settle (event_count_promise e f d))
                (\<lambda>c4. resolve
                   (\<lparr>placedOrder = settled_or 0 c1, viewedProduct = settled_or 0 c2,
                     addedToCart = settled_or 0 c3, activeOnSite = settled_or 0 c4\<rparr>, a))))) s
          = (Inr (\<lparr>placedOrder = v1, viewedProduct = v2, addedToCart = v3, activeOnSite = v4\<rparr>, a), s4)"
    by (simp add: await_def st resolve_def settled_or_def)
  then show ?thesis using 1(2) 2(2) 3(2) 4(2) by auto
qed

lemma event_counts_value:
  "\<exists>ev s'. event_counts e allMetrics s
       = (Inr (ev, or_id (findExactMetricId allMetrics ''Placed Order'')
                         (findMetricId allMetrics ''placed order'')), s')
     \<and> (or_id (findExactMetricId allMetrics ''Placed Order'')
               (findMetricId allMetrics ''placed order'') = None \<longrightarrow> placedOrder ev = 0)
     \<and> (findMetricId allMetrics ''viewed product'' = None \<longrightarrow> viewedProduct ev = 0)
     \<and> (findMetricId allMetrics ''added to cart'' = None \<longrightarrow> addedToCart ev = 0)
     \<and> (findMetricId allMetrics ''active on site'' = None \<longrightarrow> activeOnSite ev = 0)"
  unfolding event_counts_def Let_def by (rule four_counts)

section \<open>The dashboard: facts\<close>

lemma makeRequest_rejects:
  "rejects e (request_config e endpoint meth dat params) \<Longrightarrow>
   \<exists>err. fst (makeRequest e endpoint meth dat params rc s) = Inl err"
  unfolding rejects_def by (rule makeRequest_all_rejected)

lemma makeRequest_answers:
  "answers e (request_config e endpoint meth dat params) b \<Longrightarrow>
   fst (makeRequest e endpoint meth dat params rc s) = Inr b"
  unfolding answers_def by (rule makeRequest_resolved(1)) simp

lemma fulfils_getAccount: "fulfils (getAccount e)"
  unfolding getAccount_def by (rule fulfils_try_catch) simp

lemma fulfils_getLists: "fulfils (getLists e)"
  unfolding getLists_def by (rule fulfils_try_catch) simp

lemma fulfils_getFlows: "fulfils (getFlows e)"
  unfolding getFlows_def by (rule fulfils_try_catch) simp

lemma fulfils_getCampaigns: "fulfils (getCampaigns e)"
  unfolding getCampaigns_def by (rule fulfils_try_catch) simp

lemma fulfils_event_part: "fulfils (event_part e)"
  unfolding event_part_def by (rule fulfils_try_catch) simp

lemma fulfils_revenue_part: "fulfils (revenue_part e pid)"
  unfolding revenue_part_def by (rule fulfils_try_catch) simp

lemma fulfils_pair: "fulfils p \<Longrightarrow> \<exists>v s'. p s = (Inr v, s')"
  unfolding fulfils_def by blast

lemma catch_error_value: "p s = (Inr v, s') \<Longrightarrow> settle (catch_error p) s = (Inr (Fulfilled (Value v)), s')"
  by (simp add: settle_def catch_error_def try_catch_def await_def resolve_def)

text \<open>
  The build never rejects, and its snapshot is made of what the seven parts return: the
  handlers of \<open>.catch(e => ({ error: e.message }))\<close> and the \<open>null\<close> branches are never
  reached.
\<close>

lemma getDashboardMetrics_value:
  "\<exists>av mv cv lv fv s1 s2 s3 s4 s5 ev pid s6 det rev s7.
     getAccount e s = (Inr av, s1) \<and> getMetrics e s1 = (Inr mv, s2)
     \<and> getCampaigns e s2 = (Inr cv, s3) \<and> getLists e s3 = (Inr lv, s4)
     \<and> getFlows e s4 = (Inr fv, s5)
     \<and> event_part e s5 = (Inr (ev, pid), s6)
     \<and> revenue_part e pid s6 = (Inr (det, rev), s7)
     \<and> getDashboardMetrics e s
         = (Inr \<lparr>snap_account = Some (Value av),
                 snap_metrics = Some (Value mv),
                 metricsWithDetails = det,
                 snap_campaigns = Some (Value cv),
                 snap_lists = Some (Value lv),
                 snap_flows = Some (Value fv),
                 campaignCount = data_length (Some (Value cv)),
                 flowCount = data_length (Some (Value fv)),
                 eventMetrics = ev,
                 revenueMetrics = rev,
                 timestamp = toISOString e (clock s7)\<rparr>, s7)"
proof -
  from fulfils_pair [OF fulfils_getAccount] obtain av s1 where 1: "getAccount e s = (Inr av, s1)" by blast
  from fulfils_pair [OF fulfils_getMetrics] obtain mv s2 where 2: "getMetrics e s1 = (Inr mv, s2)" by blast
  from fulfils_pair [OF fulfils_getCampaigns] obtain cv s3 where 3: "getCampaigns e s2 = (Inr cv, s3)" by blast
  from fulfils_pair [OF fulfils_getLists] obtain lv s4 where 4: "getLists e s3 = (Inr lv, s4)" by blast
  from fulfils_pair [OF fulfils_getFlows] obtain fv s5 where 5: "getFlows e s4 = (Inr fv, s5)" by blast
  from fulfils_pair [OF fulfils_event_part] obtain x s6 where "event_part e s5 = (Inr x, s6)" by blast
  then obtain ev pid where 6: "event_part e s5 = (Inr (ev, pid), s6)" by (cases x) auto
  from fulfils_pair [OF fulfils_revenue_part] obtain y s7 where "revenue_part e pid s6 = (Inr y, s7)" by blast
  then obtain det rev where 7: "revenue_part e pid s6 = (Inr (det, rev), s7)" by (cases y) auto
  have c: "settle (catch_error (getAccount e)) s = (Inr (Fulfilled (Value av)), s1)"
    "settle (catch_error (getMetrics e)) s1 = (Inr (Fulfilled (Value mv)), s2)"
    "settle (catch_error (getCampaigns e)) s2 = (Inr (Fulfilled (Value cv)), s3)"
    "settle (catch_error (getLists e)) s3 = (Inr (Fulfilled (Value lv)), s4)"
    "settle (catch_error (getFlows e)) s4 = (Inr (Fulfilled (Value fv)), s5)"
    using 1 2 3 4 5 by (simp_all add: settle_def catch_error_def try_catch_def await_def resolve_def)
  have "getDashboardMetrics e s
         = (Inr \<lparr>snap_account = Some (Value av),
                 snap_metrics = Some (Value mv),
                 metricsWithDetails = det,
                 snap_campaigns = Some (Value cv),
                 snap_lists = Some (Value lv),
                 snap_flows = Some (Value fv),
                 campaignCount = data_length (Some (Value cv)),
                 flowCount = data_length (Some (Value fv)),
                 eventMetrics = ev,
                 revenueMetrics = rev,
                 timestamp = toISOString e (clock s7)\<rparr>, s7)"
    unfolding getDashboardMetrics_def
    by (simp add: try_catch_def await_def c 6 7 resolve_def Let_def)
  with 1 2 3 4 5 6 7 show ?thesis by blast
qed

lemma getMetrics_down:
  "rejects e (request_config e ''/metrics/'' GET None []) \<Longrightarrow> fst (getMetrics e s) = Inr empty_listing"
  using makeRequest_rejects [of e "''/metrics/''" GET None "[]" 0 s]
  by (auto simp: getMetrics_def plain_wrapper_value)

lemma getMetrics_up:
  "answers e (request_config e ''/metrics/'' GET None []) b \<Longrightarrow> fst (getMetrics e s) = Inr b"
  using makeRequest_answers [of e "''/metrics/''" GET None "[]" b 0 s]
  by (auto simp: getMetrics_def plain_wrapper_value)

lemma getLists_down:
  "rejects e (request_config e ''/lists/'' GET None []) \<Longrightarrow> fst (getLists e s) = Inr empty_listing"
  using makeRequest_rejects [of e "''/lists/''" GET None "[]" 0 s]
  by (auto simp: getLists_def plain_wrapper_value)

lemma getLists_up:
  "answers e (request_config e ''/lists/'' GET None []) b \<Longrightarrow> fst (getLists e s) = Inr b"
  using makeRequest_answers [of e "''/lists/''" GET None "[]" b 0 s]
  by (auto simp: getLists_def plain_wrapper_value)

lemma getFlows_down:
  "rejects e (request_config e ''/flows/'' GET None []) \<Longrightarrow> fst (getFlows e s) = Inr empty_listing"
  using makeRequest_rejects [of e "''/flows/''" GET None "[]" 0 s]
  by (auto simp: getFlows_def plain_wrapper_value)

lemma getFlows_up:
  "answers e (request_config e ''/flows/'' GET None []) b \<Longrightarrow> fst (getFlows e s) = Inr b"
  using makeRequest_answers [of e "''/flows/''" GET None "[]" b 0 s]
  by (auto simp: getFlows_def plain_wrapper_value)

lemma getAccount_down:
  "rejects e (request_config e ''/accounts/'' GET None []) \<Longrightarrow>
   fst (getAccount e s) = Inr (AccountFallback ''Klaviyo Account'' ''N/A'')"
  using makeRequest_rejects [of e "''/accounts/''" GET None "[]" 0 s]
  by (auto simp: getAccount_def wrapper_value)

lemma getAccount_up:
  "answers e (request_config e ''/accounts/'' GET None []) b \<Longrightarrow> fst (getAccount e s) = Inr (AccountBody b)"
  using makeRequest_answers [of e "''/accounts/''" GET None "[]" b 0 s]
  by (auto simp: getAccount_def wrapper_value)

lemma campaigns_of_down:
  "rejects e (channel_request e channel) \<Longrightarrow> fst (campaigns_of e channel s) = Inr empty_listing"
  using makeRequest_rejects [of e "''/campaigns/''" GET None
      "[(''filter'', ''equals(messages.channel,'' @ [CHR 0x27] @ channel @ [CHR 0x27] @ '')'')]" 0 s]
  by (auto simp: campaigns_of_def plain_wrapper_value channel_request_def)

lemma getCampaigns_down:
  assumes "rejects e (channel_request e ''email'')" and "rejects e (channel_request e ''sms'')"
  shows "fst (getCampaigns e s) = Inr empty_listing"
proof -
  have 1: "settle (campaigns_of e ''email'') s
             = (Inr (Fulfilled empty_listing), snd (campaigns_of e ''email'' s))"
    by (rule settle_Inr [OF campaigns_of_down [OF assms(1)]])
  have 2: "settle (campaigns_of e ''sms'') s'
             = (Inr (Fulfilled empty_listing), snd (campaigns_of e ''sms'' s'))" for s'
    by (rule settle_Inr [OF campaigns_of_down [OF assms(2)]])
  show ?thesis
    by (simp add: getCampaigns_def try_catch_def await_def 1 2 resolve_def Let_def settled_or_def
          data_or_empty_def empty_listing_def)
qed

lemma event_part_down:
  assumes "rejects e (request_config e ''/metrics/'' GET None [])"
  shows "fst (event_part e s) = Inr (no_events, None)"
proof -
  let ?s1 = "snd (getMetrics e s)"
  let ?inner = "await (getMetrics e) (\<lambda>allMetricsResponse. event_counts e (data_or_empty allMetricsResponse))"
  have ids: "findExactMetricId [] a = None" "findMetricId [] a = None" "or_id None None = None" for a
    by (simp_all add: or_id_def findExactMetricId_def findMetricId_def id_or_null_def truthy_str_def)
  from event_counts_value [of e "[]" ?s1] obtain ev s' where
    ev: "event_counts e [] ?s1 = (Inr (ev, None), s')"
      "placedOrder ev = 0" "viewedProduct ev = 0" "addedToCart ev = 0" "activeOnSite ev = 0"
    by (auto simp: ids)
  have "ev = no_events" using ev(2-5) by (cases ev) (simp add: no_events_def)
  have "?inner s = event_counts e (data_or_empty empty_listing) ?s1"
    by (rule await_Inr [OF getMetrics_down [OF assms]])
  then have "fst (?inner s) = Inr (no_events, None)"
    using ev(1) \<open>ev = no_events\<close> by (simp add: data_or_empty_def empty_listing_def)
  then show ?thesis
    unfolding event_part_def by (simp add: try_catch_Inr)
qed

lemma getAllMetricsWithDetails_down:
  assumes "rejects e (request_config e ''/metrics/'' GET None [])"
  shows "fst (getAllMetricsWithDetails e s)
           = Inr \<lparr>mwd_metrics = [], mwd_details = [], mwd_total = None\<rparr>"
proof -
  let ?k = "\<lambda>metricsResponse.
             let metrics = data_or_empty metricsResponse
             in if metrics = []
                then resolve \<lparr>mwd_metrics = [], mwd_details = [], mwd_total = None\<rparr>
                else await (fetch_details e (take 20 metrics) [])
                       (\<lambda>details.
                          resolve \<lparr>mwd_metrics = metrics, mwd_details = details,
                                   mwd_total = Some (length metrics)\<rparr>)"
  have "await (getMetrics e) ?k s = ?k empty_listing (snd (getMetrics e s))"
    by (rule await_Inr [OF getMetrics_down [OF assms]])
  then have "fst (await (getMetrics e) ?k s)
               = Inr \<lparr>mwd_metrics = [], mwd_details = [], mwd_total = None\<rparr>"
    by (simp add: data_or_empty_def empty_listing_def resolve_def)
  then show ?thesis
    unfolding getAllMetricsWithDetails_def by (simp add: try_catch_Inr)
qed

lemma revenue_part_down:
  assumes "rejects e (request_config e ''/metrics/'' GET None [])"
  shows "fst (revenue_part e None s)
           = Inr (Some \<lparr>mwd_metrics = [], mwd_details = [], mwd_total = None\<rparr>, no_revenue)"
proof -
  let ?d = "\<lparr>mwd_metrics = [], mwd_details = [], mwd_total = None\<rparr>"
  let ?k = "\<lambda>details.
             try_catch
               (if truthy_str None
                then await
                       (calculateRevenueByMetricId e (print_str None)
                          \<lparr>r_startDate = None, r_endDate = None, r_interval = None,
                           r_timezone = Some ''UTC'', r_attributedMessage = None\<rparr>)
                       (\<lambda>revenueData.
                          resolve
                            (Some details,
                             no_revenue\<lparr>rm_totalRevenue := totalRevenue revenueData,
                                         revenueByEmail := totalRevenue revenueData\<rparr>))
                else resolve (Some details, no_revenue))
               (\<lambda>err. resolve (Some details, no_revenue))"
  have "await (getAllMetricsWithDetails e) ?k s = ?k ?d (snd (getAllMetricsWithDetails e s))"
    by (rule await_Inr [OF getAllMetricsWithDetails_down [OF assms]])
  then have "fst (await (getAllMetricsWithDetails e) ?k s) = Inr (Some ?d, no_revenue)"
    by (simp add: truthy_str_def try_catch_def resolve_def)
  then show ?thesis
    unfolding revenue_part_def by (simp add: try_catch_Inr)
qed

lemma event_part_up:
  assumes "answers e (request_config e ''/metrics/'' GET None []) b"
  shows "\<exists>ev s'. event_part e s
           = (Inr (ev, or_id (findExactMetricId (data_or_empty b) ''Placed Order'')
                             (findMetricId (data_or_empty b) ''placed order'')), s')
     \<and> (or_id (findExactMetricId (data_or_empty b) ''Placed Order'')
               (findMetricId (data_or_empty b) ''placed order'') = None \<longrightarrow> placedOrder ev = 0)
     \<and> (findMetricId (data_or_empty b) ''viewed product'' = None \<longrightarrow> viewedProduct ev = 0)
     \<and> (findMetricId (data_or_empty b) ''added to cart'' = None \<longrightarrow> addedToCart ev = 0)
     \<and> (findMetricId (data_or_empty b) ''active on site'' = None \<longrightarrow> activeOnSite ev = 0)"
proof -
  let ?s1 = "snd (getMetrics e s)"
  let ?inner = "await (getMetrics e) (\<lambda>allMetricsResponse. event_counts e (data_or_empty allMetricsResponse))"
  let ?po = "or_id (findExactMetricId (data_or_empty b) ''Placed Order'')
                   (findMetricId (data_or_empty b) ''placed order'')"
  from event_counts_value [of e "data_or_empty b" ?s1] obtain ev s' where
    ev: "event_counts e (data_or_empty b) ?s1 = (Inr (ev, ?po), s')
      \<and> (?po = None \<longrightarrow> placedOrder ev = 0)
      \<and> (findMetricId (data_or_empty b) ''viewed product'' = None \<longrightarrow> viewedProduct ev = 0)
      \<and> (findMetricId (data_or_empty b) ''added to cart'' = None \<longrightarrow> addedToCart ev = 0)
      \<and> (findMetricId (data_or_empty b) ''active on site'' = None \<longrightarrow> activeOnSite ev = 0)"
    by (elim exE) (rule that, assumption)
  have i: "?inner s = event_counts e (data_or_empty b) ?s1"
    by (rule await_Inr [OF getMetrics_up [OF assms]])
  then have "fst (?inner s) = Inr (ev, ?po)" using ev by simp
  then have "event_part e s = (Inr (ev, ?po), snd (?inner s))"
    unfolding event_part_def by (rule try_catch_Inr)
  then show ?thesis using ev by (intro exI [of _ ev] exI [of _ "snd (?inner s)"]) simp
qed

lemma getDashboardMetrics_all_down:
  assumes "\<And>r. rejects e r"
  shows "fst (getDashboardMetrics e s)
           = Inr \<lparr>snap_account = Some (Value (AccountFallback ''Klaviyo Account'' ''N/A'')),
                  snap_metrics = Some (Value empty_listing),
                  metricsWithDetails = Some \<lparr>mwd_metrics = [], mwd_details = [], mwd_total = None\<rparr>,
                  snap_campaigns = Some (Value empty_listing),
                  snap_lists = Some (Value empty_listing),
                  snap_flows = Some (Value empty_listing),
                  campaignCount = 0,
                  flowCount = 0,
                  eventMetrics = no_events,
                  revenueMetrics = no_revenue,
                  timestamp = toISOString e (clock (snd (getDashboardMetrics e s)))\<rparr>"
proof -
  from getDashboardMetrics_value [of e s] obtain av mv cv lv fv s1 s2 s3 s4 s5 ev pid s6 det rev s7
    where v: "getAccount e s = (Inr av, s1)" "getMetrics e s1 = (Inr mv, s2)"
      "getCampaigns e s2 = (Inr cv, s3)" "getLists e s3 = (Inr lv, s4)"
      "getFlows e s4 = (Inr fv, s5)"
      "event_part e s5 = (Inr (ev, pid), s6)"
      "revenue_part e pid s6 = (Inr (det, rev), s7)"
    and snap: "getDashboardMetrics e s
         = (Inr \<lparr>snap_account = Some (Value av),
                 snap_metrics = Some (Value mv),
                 metricsWithDetails = det,
                 snap_campaigns = Some (Value cv),
                 snap_lists = Some (Value lv),
                 snap_flows = Some (Value fv),
                 campaignCount = data_length (Some (Value cv)),
                 flowCount = data_length (Some (Value fv)),
                 eventMetrics = ev,
                 revenueMetrics = rev,
                 timestamp = toISOString e (clock s7)\<rparr>, s7)"
    by blast
  have "av = AccountFallback ''Klaviyo Account'' ''N/A''"
    using getAccount_down [OF assms, of s] v(1) by simp
  moreover have "mv = empty_listing" using getMetrics_down [OF assms, of s1] v(2) by simp
  moreover have "cv = empty_listing" using getCampaigns_down [OF assms assms, of s2] v(3) by simp
  moreover have "lv = empty_listing" using getLists_down [OF assms, of s3] v(4) by simp
  moreover have "fv = empty_listing" using getFlows_down [OF assms, of s4] v(5) by simp
  moreover have ep: "ev = no_events \<and> pid = None" using event_part_down [OF assms, of s5] v(6) by simp
  moreover have "rev = no_revenue \<and> det = Some \<lparr>mwd_metrics = [], mwd_details = [], mwd_total = None\<rparr>"
    using revenue_part_down [OF assms, of s6] v(7) ep by simp
  moreover have "data_length (Some (Value empty_listing)) = 0" by (simp add: empty_listing_def)
  ultimately show ?thesis unfolding snap by (simp del: data_length.simps)
qed

section \<open>The dashboard: what the fields hold\<close>

lemma campaigns_of_up:
  "answers e (channel_request e channel) b \<Longrightarrow> fst (campaigns_of e channel s) = Inr b"
  using makeRequest_answers [of e "''/campaigns/''" GET None
      "[(''filter'', ''equals(messages.channel,'' @ [CHR 0x27] @ channel @ [CHR 0x27] @ '')'')]" b 0 s]
  by (auto simp: campaigns_of_def plain_wrapper_value channel_request_def)

lemma getCampaigns_value:
  assumes "\<And>s. fst (campaigns_of e ''email'' s) = Inr b1"
    and "\<And>s. fst (campaigns_of e ''sms'' s) = Inr b2"
  shows "fst (getCampaigns e s) = Inr (listing (data_or_empty b1 @ data_or_empty b2) None)"
proof -
  have 1: "settle (campaigns_of e ''email'') s
             = (Inr (Fulfilled b1), snd (campaigns_of e ''email'' s))"
    by (rule settle_Inr [OF assms(1)])
  have 2: "settle (campaigns_of e ''sms'') s'
             = (Inr (Fulfilled b2), snd (campaigns_of e ''sms'' s'))" for s'
    by (rule settle_Inr [OF assms(2)])
  show ?thesis
    by (simp add: getCampaigns_def try_catch_def await_def 1 2 resolve_def Let_def settled_or_def
          listing_def)
qed

lemma data_of_empty_listing: "data_or_empty empty_listing = []"
  by (simp add: data_or_empty_def empty_listing_def)

lemma data_length_value: "data_length (Some (Value b)) = length (data_or_empty b)"
  by (simp add: data_or_empty_def split: option.splits)

lemma unkeyed_without_by: "\<not> keyed False g"
  by (simp add: keyed_def)

lemma count_query_up:
  assumes "answers e (count_request e now i) response"
  shows "fst (queryMetricAggregates e i
                \<lparr>o_measurements = Some [''count''], o_filters = Some (date_filters e now),
                 o_interval = None, o_timezone = Some ''UTC'', o_by = None\<rparr> s)
           = Inr \<lparr>res_total = sum_list (map group_value (groups_of response)), res_grouped = []\<rparr>"
proof -
  let ?o = "\<lparr>o_measurements = Some [''count''], o_filters = Some (date_filters e now),
             o_interval = None, o_timezone = Some ''UTC'', o_by = None\<rparr>"
  have ok: "fst (makeRequest e ''/metric-aggregates/'' POST (Some (aggregate_attributes i ?o)) [] 0 s)
              = Inr response"
    by (rule makeRequest_answers) (use assms in \<open>simp add: count_request_def\<close>)
  have rd: "readable False (groups_of response)"
    by (simp add: readable_def unkeyed_without_by)
  have g: "grouped_of False (groups_of response) = []"
    by (simp add: grouped_of_def unkeyed_without_by first_keys_def)
  show ?thesis
    unfolding queryMetricAggregates_result [OF ok]
    by (simp add: parse_aggregates_readable [OF rd] g)
qed

lemma count_query_down:
  assumes "rejects e (count_request e now i)"
  shows "fst (queryMetricAggregates e i
                \<lparr>o_measurements = Some [''count''], o_filters = Some (date_filters e now),
                 o_interval = None, o_timezone = Some ''UTC'', o_by = None\<rparr> s)
           = Inr \<lparr>res_total = 0, res_grouped = []\<rparr>"
proof -
  let ?o = "\<lparr>o_measurements = Some [''count''], o_filters = Some (date_filters e now),
             o_interval = None, o_timezone = Some ''UTC'', o_by = None\<rparr>"
  have "\<exists>err. fst (makeRequest e ''/metric-aggregates/'' POST (Some (aggregate_attributes i ?o)) [] 0 s)
              = Inl err"
    by (rule makeRequest_rejects) (use assms in \<open>simp add: count_request_def\<close>)
  then show ?thesis using queryMetricAggregates_failed by blast
qed

lemma event_count_promise_counted:
  assumes "mid = None \<or> truthy_str mid"
  shows "\<exists>v s'. event_count_promise e (date_filters e now) mid s = (Inr v, s') \<and> counted e mid v"
proof (cases mid)
  case None
  then show ?thesis by (simp add: event_count_promise_def truthy_str_def resolve_def counted_def)
next
  case (Some i)
  then have t: "truthy_str mid" using assms by simp
  let ?q = "queryMetricAggregates e i
              \<lparr>o_measurements = Some [''count''], o_filters = Some (date_filters e now),
               o_interval = None, o_timezone = Some ''UTC'', o_by = None\<rparr>"
  let ?v = "case fst (?q s) of Inl err \<Rightarrow> 0 | Inr r \<Rightarrow> res_total r"
  have p: "event_count_promise e (date_filters e now) mid
             = try_catch (await ?q (\<lambda>result. resolve (res_total result))) (\<lambda>error. resolve 0)"
    using t Some by (simp add: event_count_promise_def getEventCountByMetricId_def print_str_def)
  have v: "fst (event_count_promise e (date_filters e now) mid s) = Inr ?v"
    unfolding p by (rule wrapper_value)
  have up: "?v = sum_list (map group_value (groups_of response))"
    if "\<forall>now. answers e (count_request e now i) response" for response
    using count_query_up [of e now i response s] that by simp
  have down: "?v = 0" if "\<forall>now. rejects e (count_request e now i)"
    using count_query_down [of e now i s] that by simp
  have "counted e mid ?v"
    unfolding counted_def Some using up down by simp
  then show ?thesis using v by (metis prod.collapse)
qed

lemma four_counts_counted:
  assumes "a = None \<or> truthy_str a" and "b = None \<or> truthy_str b"
    and "c = None \<or> truthy_str c" and "d = None \<or> truthy_str d"
  shows "\<exists>ev s'.
     await (settle (event_count_promise e (date_filters e now) a))
       (\<lambda>c1. await (settle (event_count_promise e (date_filters e now) b))
          (\<lambda>c2. await (settle (event_count_promise e (date_filters e now) c))
             (\<lambda>c3. await (settle (event_count_promise e (date_filters e now) d))
                (\<lambda>c4. resolve
                   (\<lparr>placedOrder = settled_or 0 c1, viewedProduct = settled_or 0 c2,
                     addedToCart = settled_or 0 c3, activeOnSite = settled_or 0 c4\<rparr>, a))))) s
       = (Inr (ev, a), s')
     \<and> counted e a (placedOrder ev) \<and> counted e b (viewedProduct ev)
     \<and> counted e c (addedToCart ev) \<and> counted e d (activeOnSite ev)"
proof -
  let ?f = "date_filters e now"
  from event_count_promise_counted [OF assms(1)] obtain v1 s1 where
    1: "event_count_promise e ?f a s = (Inr v1, s1)" "counted e a v1" by blast
  from event_count_promise_counted [OF assms(2)] obtain v2 s2 where
    2: "event_count_promise e ?f b s1 = (Inr v2, s2)" "counted e b v2" by blast
  from event_count_promise_counted [OF assms(3)] obtain v3 s3 where
    3: "event_count_promise e ?f c s2 = (Inr v3, s3)" "counted e c v3" by blast
  from event_count_promise_counted [OF assms(4)] obtain v4 s4 where
    4: "event_count_promise e ?f d s3 = (Inr v4, s4)" "counted e d v4" by blast
  have st: "settle (event_count_promise e ?f a) s = (Inr (Fulfilled v1), s1)"
    "settle (event_count_promise e ?f b) s1 = (Inr (Fulfilled v2), s2)"
    "settle (event_count_promise e ?f c) s2 = (Inr (Fulfilled v3), s3)"
    "settle (event_count_promise e ?f d) s3 = (Inr (Fulfilled v4), s4)"
    using 1(1) 2(1) 3(1) 4(1) by (simp_all add: settle_def)
  have "await (settle (event_count_promise e ?f a))
       (\<lambda>c1. await (settle (event_count_promise e ?f b))
          (\<lambda>c2. await (settle (event_count_promise e ?f c))
             (\<lambda>c3. await (settle (event_count_promise e ?f d))
                (\<lambda>c4. resolve
                   (\<lparr>placedOrder = settled_or 0 c1, viewedProduct = settled_or 0 c2,
                     addedToCart = settled_or 0 c3, activeOnSite = settled_or 0 c4\<rparr>, a))))) s
          = (Inr (\<lparr>placedOrder = v1, viewedProduct = v2, addedToCart = v3, activeOnSite = v4\<rparr>, a), s4)"
    by (simp add: await_def st resolve_def settled_or_def)
  then show ?thesis using 1(2) 2(2) 3(2) 4(2) by auto
qed

lemma id_or_null_shape: "id_or_null m = None \<or> truthy_str (id_or_null m)"
  by (auto simp: id_or_null_def truthy_str_def split: option.splits)

lemma findMetricId_shape: "findMetricId ms n = None \<or> truthy_str (findMetricId ms n)"
  unfolding findMetricId_def by (rule id_or_null_shape)

lemma placed_order_shape:
  "or_id (findExactMetricId ms a) (findMetricId ms b) = None
   \<or> truthy_str (or_id (findExactMetricId ms a) (findMetricId ms b))"
  using findMetricId_shape [of ms b] by (auto simp: or_id_def)

lemma event_counts_counted:
  "\<exists>ev s'. event_counts e allMetrics s
       = (Inr (ev, or_id (findExactMetricId allMetrics ''Placed Order'')
                         (findMetricId allMetrics ''placed order'')), s')
     \<and> counted e (or_id (findExactMetricId allMetrics ''Placed Order'')
                         (findMetricId allMetrics ''placed order'')) (placedOrder ev)
     \<and> counted e (findMetricId allMetrics ''viewed product'') (viewedProduct ev)
     \<and> counted e (findMetricId allMetrics ''added to cart'') (addedToCart ev)
     \<and> counted e (findMetricId allMetrics ''active on site'') (activeOnSite ev)"
  unfolding event_counts_def Let_def
  by (rule four_counts_counted [unfolded date_filters_def])
     (rule placed_order_shape findMetricId_shape)+

lemma event_part_counted:
  assumes "answers e (request_config e ''/metrics/'' GET None []) b"
  shows "\<exists>ev s'. event_part e s
           = (Inr (ev, or_id (findExactMetricId (data_or_empty b) ''Placed Order'')
                             (findMetricId (data_or_empty b) ''placed order'')), s')
     \<and> counted e (or_id (findExactMetricId (data_or_empty b) ''Placed Order'')
                         (findMetricId (data_or_empty b) ''placed order'')) (placedOrder ev)
     \<and> counted e (findMetricId (data_or_empty b) ''viewed product'') (viewedProduct ev)
     \<and> counted e (findMetricId (data_or_empty b) ''added to cart'') (addedToCart ev)
     \<and> counted e (findMetricId (data_or_empty b) ''active on site'') (activeOnSite ev)"
proof -
  let ?s1 = "snd (getMetrics e s)"
  let ?inner = "await (getMetrics e) (\<lambda>allMetricsResponse. event_counts e (data_or_empty allMetricsResponse))"
  let ?po = "or_id (findExactMetricId (data_or_empty b) ''Placed Order'')
                   (findMetricId (data_or_empty b) ''placed order'')"
  from event_counts_counted [of e "data_or_empty b" ?s1] obtain ev s' where
    ev: "event_counts e (data_or_empty b) ?s1 = (Inr (ev, ?po), s')
      \<and> counted e ?po (placedOrder ev)
      \<and> counted e (findMetricId (data_or_empty b) ''viewed product'') (viewedProduct ev)
      \<and> counted e (findMetricId (data_or_empty b) ''added to cart'') (addedToCart ev)
      \<and> counted e (findMetricId (data_or_empty b) ''active on site'') (activeOnSite ev)"
    by (elim exE) (rule that, assumption)
  have i: "?inner s = event_counts e (data_or_empty b) ?s1"
    by (rule await_Inr [OF getMetrics_up [OF assms]])
  then have "fst (?inner s) = Inr (ev, ?po)" using ev by simp
  then have "event_part e s = (Inr (ev, ?po), snd (?inner s))"
    unfolding event_part_def by (rule try_catch_Inr)
  then show ?thesis using ev by (intro exI [of _ ev] exI [of _ "snd (?inner s)"]) simp
qed

lemma foldl_sum:
  "foldl (\<lambda>acc x. acc + f x) a xs = a + sum_list (map f xs)" for a :: real
  by (induction xs arbitrary: a) simp_all

lemma parse_revenue_total:
  "totalRevenue (parse_revenue response) = sum_list (map revenue_of_group (groups_of response))"
  by (simp add: parse_revenue_def Let_def groups_of_def foldl_sum)

lemma events_sum:
  "foldl (\<lambda>acc ev. if has_value ev then acc + event_value ev else acc) a events
     = a + sum_list (map event_value events)" for a :: real
  by (induction events arbitrary: a)
     (auto simp: has_value_def event_value_def split: option.splits)

lemma calculateRevenueFromEvents_total:
  "\<exists>r. fst (calculateRevenueFromEvents e i ''100'' s) = Inr r
     \<and> (\<forall>response. answers e (first_page_request e i) response
           \<longrightarrow> totalRevenue r = sum_list (map event_value (data_or_empty response)))
     \<and> (rejects e (first_page_request e i) \<longrightarrow> totalRevenue r = 0)"
proof -
  let ?m = "makeRequest e ''/events/'' GET None
              [(''filter'', metric_filter i), (''page[size]'', ''100'')] 0"
  let ?f = "\<lambda>eventsResponse.
              \<lparr>totalRevenue = foldl (\<lambda>acc ev. if has_value ev then acc + event_value ev else acc) 0
                                (data_or_empty eventsResponse),
               eventCount = int (length (data_or_empty eventsResponse)),
               eventsWithRevenue = Some (length (filter has_value (data_or_empty eventsResponse))),
               calc_method = ''events''\<rparr>"
  let ?d = "\<lparr>totalRevenue = 0, eventCount = 0, eventsWithRevenue = Some 0, calc_method = ''events''\<rparr>"
  let ?r = "case fst (?m s) of Inl err \<Rightarrow> ?d | Inr v \<Rightarrow> ?f v"
  have v: "fst (calculateRevenueFromEvents e i ''100'' s) = Inr ?r"
    unfolding calculateRevenueFromEvents_def Let_def by (rule wrapper_value)
  have up: "totalRevenue ?r = sum_list (map event_value (data_or_empty response))"
    if "answers e (first_page_request e i) response" for response
  proof -
    have "fst (?m s) = Inr response"
      by (rule makeRequest_answers) (use that in \<open>simp add: first_page_request_def\<close>)
    then show ?thesis by (simp add: events_sum)
  qed
  have down: "totalRevenue ?r = 0" if "rejects e (first_page_request e i)"
  proof -
    have "\<exists>err. fst (?m s) = Inl err"
      by (rule makeRequest_rejects) (use that in \<open>simp add: first_page_request_def\<close>)
    then show ?thesis by auto
  qed
  show ?thesis using v up down by blast
qed

lemma calculateRevenueByMetricId_total:
  "\<exists>r. fst (calculateRevenueByMetricId e i
              \<lparr>r_startDate = None, r_endDate = None, r_interval = None,
               r_timezone = Some ''UTC'', r_attributedMessage = None\<rparr> s) = Inr r
     \<and> (\<forall>response. (\<forall>now. answers e (revenue_request e now i) response)
           \<longrightarrow> totalRevenue r = sum_list (map revenue_of_group (groups_of response)))
     \<and> (\<forall>response. (\<forall>now. rejects e (revenue_request e now i))
                       \<and> answers e (first_page_request e i) response
           \<longrightarrow> totalRevenue r = sum_list (map event_value (data_or_empty response)))
     \<and> ((\<forall>now. rejects e (revenue_request e now i)) \<and> rejects e (first_page_request e i)
           \<longrightarrow> totalRevenue r = 0)"
proof -
  let ?o = "\<lparr>r_startDate = None, r_endDate = None, r_interval = None,
             r_timezone = Some ''UTC'', r_attributedMessage = None\<rparr>"
  let ?m = "makeRequest e ''/metric-aggregates/'' POST
              (Some (revenue_attributes e (clock s) i ?o)) [] 0"
  let ?p = "await ?m (\<lambda>response. resolve (parse_revenue response))"
  have c: "calculateRevenueByMetricId e i ?o s
             = try_catch ?p (\<lambda>error. calculateRevenueFromEvents e i ''100'') s"
    by (simp add: calculateRevenueByMetricId_def)
  show ?thesis
  proof (cases "fst (?m s)")
    case (Inr response)
    then have "fst (?p s) = Inr (parse_revenue response)"
      by (simp add: await_Inr resolve_def)
    then have v: "fst (calculateRevenueByMetricId e i ?o s) = Inr (parse_revenue response)"
      unfolding c by (simp add: try_catch_Inr)
    have same: "response' = response"
      if "\<forall>now. answers e (revenue_request e now i) response'" for response'
    proof -
      have "fst (?m s) = Inr response'"
        by (rule makeRequest_answers) (use that in \<open>simp add: revenue_request_def\<close>)
      then show ?thesis using Inr by simp
    qed
    have no: "\<not> (\<forall>now. rejects e (revenue_request e now i))"
    proof
      assume "\<forall>now. rejects e (revenue_request e now i)"
      then have "rejects e (request_config e ''/metric-aggregates/'' POST
                              (Some (revenue_attributes e (clock s) i ?o)) [])"
        by (simp add: revenue_request_def)
      from makeRequest_rejects [OF this, of 0 s] show False using Inr by simp
    qed
    show ?thesis using v same no parse_revenue_total by blast
  next
    case (Inl err)
    then have "fst (?p s) = Inl err" by (simp add: await_Inl)
    then have v: "calculateRevenueByMetricId e i ?o s
                    = calculateRevenueFromEvents e i ''100'' (snd (?p s))"
      unfolding c by (rule try_catch_Inl)
    have no: "\<not> (\<forall>now. answers e (revenue_request e now i) response)" for response
    proof
      assume "\<forall>now. answers e (revenue_request e now i) response"
      then have "answers e (request_config e ''/metric-aggregates/'' POST
                              (Some (revenue_attributes e (clock s) i ?o)) []) response"
        by (simp add: revenue_request_def)
      from makeRequest_answers [OF this, of 0 s] show False using Inl by simp
    qed
    from calculateRevenueFromEvents_total [of e i "snd (?p s)"] show ?thesis
      unfolding v using no by blast
  qed
qed

lemma fulfils_getAllMetricsWithDetails: "fulfils (getAllMetricsWithDetails e)"
  unfolding getAllMetricsWithDetails_def by (rule fulfils_try_catch) simp

lemma revenue_part_earned:
  assumes "pid = None \<or> truthy_str pid"
  shows "\<exists>d revenue s'. fst (getAllMetricsWithDetails e s) = Inr d
           \<and> revenue_part e pid s = (Inr (Some d, revenue), s') \<and> earned e pid revenue"
proof -
  let ?o = "\<lparr>r_startDate = None, r_endDate = None, r_interval = None,
             r_timezone = Some ''UTC'', r_attributedMessage = None\<rparr>"
  from fulfilsD [OF fulfils_getAllMetricsWithDetails] obtain d where
    d: "fst (getAllMetricsWithDetails e s) = Inr d" by blast
  let ?s1 = "snd (getAllMetricsWithDetails e s)"
  let ?k = "\<lambda>details.
             try_catch
               (if truthy_str pid
                then await (calculateRevenueByMetricId e (print_str pid) ?o)
                       (\<lambda>revenueData.
                          resolve
                            (Some details,
                             no_revenue\<lparr>rm_totalRevenue := totalRevenue revenueData,
                                         revenueByEmail := totalRevenue revenueData\<rparr>))
                else resolve (Some details, no_revenue))
               (\<lambda>err. resolve (Some details, no_revenue))"
  have a: "await (getAllMetricsWithDetails e) ?k s = ?k d ?s1"
    using d by (rule await_Inr)
  have "\<exists>revenue. fst (?k d ?s1) = Inr (Some d, revenue) \<and> earned e pid revenue"
  proof (cases pid)
    case None
    then show ?thesis
      by (simp add: truthy_str_def try_catch_def resolve_def earned_def)
  next
    case (Some i)
    then have t: "truthy_str pid" using assms by simp
    from calculateRevenueByMetricId_total [of e i ?s1] obtain r where
      r: "fst (calculateRevenueByMetricId e i ?o ?s1) = Inr r"
      and up: "\<forall>response. (\<forall>now. answers e (revenue_request e now i) response)
           \<longrightarrow> totalRevenue r = sum_list (map revenue_of_group (groups_of response))"
      and ev: "\<forall>response. (\<forall>now. rejects e (revenue_request e now i))
                       \<and> answers e (first_page_request e i) response
           \<longrightarrow> totalRevenue r = sum_list (map event_value (data_or_empty response))"
      and down: "(\<forall>now. rejects e (revenue_request e now i)) \<and> rejects e (first_page_request e i)
           \<longrightarrow> totalRevenue r = 0"
      by (elim exE conjE) (rule that, assumption+)
    have rv: "no_revenue\<lparr>rm_totalRevenue := x, revenueByEmail := x\<rparr> = revenue_of x" for x
      by (simp add: no_revenue_def revenue_of_def)
    have z: "revenue_of 0 = no_revenue" by (simp add: no_revenue_def revenue_of_def)
    have "fst (?k d ?s1) = Inr (Some d, revenue_of (totalRevenue r))"
      using t Some r
      by (simp add: print_str_def try_catch_Inr await_Inr resolve_def rv)
    moreover have "earned e pid (revenue_of (totalRevenue r))"
      unfolding earned_def Some using up ev down z by auto
    ultimately show ?thesis by blast
  qed
  then obtain revenue where
    k: "fst (?k d ?s1) = Inr (Some d, revenue)" and e: "earned e pid revenue" by blast
  have "fst (await (getAllMetricsWithDetails e) ?k s) = Inr (Some d, revenue)"
    using a k by simp
  then have "revenue_part e pid s
               = (Inr (Some d, revenue), snd (await (getAllMetricsWithDetails e) ?k s))"
    unfolding revenue_part_def by (rule try_catch_Inr)
  then show ?thesis using d e by blast
qed

lemma getMetricById_detailed:
  assumes "detailed e m d"
  shows "fst (getMetricById e (print_str (item_id m)) [] s) = Inr d"
proof -
  let ?m = "makeRequest e (''/metrics/'' @ print_str (item_id m) @ ''/'') GET None [] 0"
  have v: "fst (getMetricById e (print_str (item_id m)) [] s)
             = Inr (case fst (?m s) of Inl err \<Rightarrow> None | Inr v \<Rightarrow> Some v)"
    unfolding getMetricById_def by (rule wrapper_value)
  show ?thesis
  proof (cases d)
    case None
    then have "rejects e (request_config e (''/metrics/'' @ print_str (item_id m) @ ''/'') GET None [])"
      using assms by (simp add: detailed_def detail_request_def)
    from makeRequest_rejects [OF this, of 0 s] show ?thesis using v None by auto
  next
    case (Some b)
    then have "answers e (request_config e (''/metrics/'' @ print_str (item_id m) @ ''/'') GET None []) b"
      using assms by (simp add: detailed_def detail_request_def)
    from makeRequest_answers [OF this, of 0 s] show ?thesis using v Some by simp
  qed
qed

lemma fetch_details_value:
  assumes "\<forall>m\<in>set ms. detailed e m (det m)"
  shows "fst (fetch_details e ms acc s)
           = Inr (acc @ concat (map (\<lambda>m. case det m of None \<Rightarrow> [] | Some d \<Rightarrow> [d]) ms))"
  using assms
proof (induction ms arbitrary: acc s)
  case Nil
  then show ?case by (simp add: resolve_def)
next
  case (Cons m rest)
  let ?acc' = "case det m of None \<Rightarrow> acc | Some d \<Rightarrow> acc @ [d]"
  let ?g = "getMetricById e (print_str (item_id m)) []"
  let ?inner = "await ?g
                  (\<lambda>detail s. resolve (case detail of None \<Rightarrow> acc | Some d \<Rightarrow> acc @ [d])
                                 (wait PauseWait 250 s))"
  let ?step = "try_catch ?inner (\<lambda>error. resolve acc)"
  have g: "fst (?g s) = Inr (det m)"
    by (rule getMetricById_detailed) (use Cons.prems in simp)
  have "?inner s = resolve ?acc' (wait PauseWait 250 (snd (?g s)))"
    using g by (rule await_Inr)
  then have "fst (?inner s) = Inr ?acc'"
    by (simp add: resolve_def)
  then have "fst (?step s) = Inr ?acc'" by (simp add: try_catch_Inr)
  then have "fetch_details e (m # rest) acc s = fetch_details e rest ?acc' (snd (?step s))"
    by (simp add: await_Inr)
  moreover have "fst (fetch_details e rest ?acc' (snd (?step s)))
                   = Inr (?acc' @ concat (map (\<lambda>m. case det m of None \<Rightarrow> [] | Some d \<Rightarrow> [d]) rest))"
    by (rule Cons.IH) (use Cons.prems in simp)
  ultimately show ?case by (simp split: option.splits)
qed

lemma getAllMetricsWithDetails_up:
  assumes "answers e (request_config e ''/metrics/'' GET None []) b"
    and "\<forall>m\<in>set (take 20 (data_or_empty b)). detailed e m (det m)"
  shows "fst (getAllMetricsWithDetails e s) = Inr (details_of (data_or_empty b) det)"
proof -
  let ?k = "\<lambda>metricsResponse.
             let metrics = data_or_empty metricsResponse
             in if metrics = []
                then resolve \<lparr>mwd_metrics = [], mwd_details = [], mwd_total = None\<rparr>
                else await (fetch_details e (take 20 metrics) [])
                       (\<lambda>details.
                          resolve \<lparr>mwd_metrics = metrics, mwd_details = details,
                                   mwd_total = Some (length metrics)\<rparr>)"
  let ?s1 = "snd (getMetrics e s)"
  have a: "await (getMetrics e) ?k s = ?k b ?s1"
    using getMetrics_up [OF assms(1)] by (rule await_Inr)
  have "fst (?k b ?s1) = Inr (details_of (data_or_empty b) det)"
  proof (cases "data_or_empty b = []")
    case True
    then show ?thesis by (simp add: details_of_def resolve_def)
  next
    case False
    have "fst (fetch_details e (take 20 (data_or_empty b)) [] ?s1)
            = Inr ([] @ concat (map (\<lambda>m. case det m of None \<Rightarrow> [] | Some d \<Rightarrow> [d])
                                  (take 20 (data_or_empty b))))"
      by (rule fetch_details_value [OF assms(2)])
    then show ?thesis using False
      by (simp add: details_of_def Let_def await_Inr resolve_def)
  qed
  then have "fst (await (getMetrics e) ?k s) = Inr (details_of (data_or_empty b) det)"
    using a by simp
  then show ?thesis
    unfolding getAllMetricsWithDetails_def by (simp add: try_catch_Inr)
qed

lemma flows_down_env_facts:
  "rejects flows_down_env (request_config flows_down_env ''/flows/'' GET None [])"
  "answers flows_down_env (request_config flows_down_env ''/lists/'' GET None [])
     (listing [metric_named ''M1'' ''Placed Order''] None)"
  "answers flows_down_env (request_config flows_down_env ''/metrics/'' GET None [])
     (listing [metric_named ''M1'' ''Placed Order''] None)"
  "answers flows_down_env (request_config flows_down_env ''/accounts/'' GET None [])
     (listing [metric_named ''M1'' ''Placed Order''] None)"
  "answers flows_down_env (channel_request flows_down_env ''email'')
     (listing [metric_named ''M1'' ''Placed Order''] None)"
  "answers flows_down_env (channel_request flows_down_env ''sms'')
     (listing [metric_named ''M1'' ''Placed Order''] None)"
  by (simp_all add: rejects_def answers_def flows_down_env_def sample_env_def request_config_def
        channel_request_def)

lemma flows_down_env_aggregates:
  "answers flows_down_env (count_request flows_down_env now ''M1'') (one_group (count_of 5))"
  "answers flows_down_env (revenue_request flows_down_env now ''M1'')
     (one_group \<lparr>m_unique = None, m_count = None, m_sum_value = Some (Scalar 120)\<rparr>)"
  "detailed flows_down_env (metric_named ''M1'' ''Placed Order'')
     (Some (listing [metric_named ''M1'' ''Placed Order''] None))"
  by (simp_all add: answers_def flows_down_env_def sample_env_def request_config_def
        count_request_def revenue_request_def detailed_def detail_request_def aggregate_reply_def
        aggregate_attributes_def revenue_attributes_def Let_def metric_named_def print_str_def)

lemma flows_down_env_ids:
  "or_id (findExactMetricId [metric_named ''M1'' ''Placed Order''] ''Placed Order'')
         (findMetricId [metric_named ''M1'' ''Placed Order''] ''placed order'') = Some ''M1''"
  "findMetricId [metric_named ''M1'' ''Placed Order''] ''viewed product'' = None"
  "findMetricId [metric_named ''M1'' ''Placed Order''] ''added to cart'' = None"
  "findMetricId [metric_named ''M1'' ''Placed Order''] ''active on site'' = None"
  by code_simp+

lemma one_group_values:
  "sum_list (map group_value (groups_of (one_group (count_of 5)))) = 5"
  "sum_list (map revenue_of_group
     (groups_of (one_group \<lparr>m_unique = None, m_count = None, m_sum_value = Some (Scalar 120)\<rparr>))) = 120"
  by (simp_all add: groups_of_def one_group_def group_value_def count_of_def revenue_of_group_def
        selected_measurement_def truthy_measurement_def measurement_value_def)

lemma listing_data: "data_or_empty (listing xs nx) = xs"
  by (simp add: listing_def data_or_empty_def)

section \<open>The dashboard build and its sub-fetches\<close>

text \<open>
  C1, as the claim states it: the build fails if and only if the load of the metric
  catalog fails, and an optional object whose fetch failed is \<open>null\<close>. \<open>getMetrics\<close>
  catches the failure of its request and returns an empty list, so a failed catalog
  load does not fail the build; and \<open>getAccount\<close> returns a placeholder object. Against
  an upstream that answers every request with 500 the build returns this snapshot.
\<close>

theorem getDashboardMetrics_survives_catalog_failure:
  "fst (getDashboardMetrics (failing_env 500 ''Request failed with status code 500'') (new_service 1000))
     = Inr \<lparr>snap_account = Some (Value (AccountFallback ''Klaviyo Account'' ''N/A'')),
            snap_metrics = Some (Value empty_listing),
            metricsWithDetails = Some \<lparr>mwd_metrics = [], mwd_details = [], mwd_total = None\<rparr>,
            snap_campaigns = Some (Value empty_listing),
            snap_lists = Some (Value empty_listing),
            snap_flows = Some (Value empty_listing),
            campaignCount = 0,
            flowCount = 0,
            eventMetrics = no_events,
            revenueMetrics = no_revenue,
            timestamp = ''2024-03-01T00:00:00.000Z''\<rparr>"
proof -
  have r: "rejects (failing_env 500 ''Request failed with status code 500'') r" for r
    by (simp add: rejects_def failing_env_def sample_env_def)
  have t: "toISOString (failing_env 500 ''Request failed with status code 500'') x
             = ''2024-03-01T00:00:00.000Z''" for x
    by (simp add: failing_env_def sample_env_def)
  show ?thesis
    unfolding getDashboardMetrics_all_down [OF r] t by simp
qed

text \<open>
  C1, amended. For every upstream the build returns a snapshot and never fails, also
  when the load of the metric catalog fails: then \<open>metrics\<close> is the empty list, the
  four event counters are 0, the revenue is 0 and \<open>metricsWithDetails\<close> is empty. When
  the requests of one sub-fetch are rejected, its field has the default: the empty list
  for flows, lists and campaigns (with the count 0), the placeholder object for the
  account. A field whose request is answered holds the answer, whatever happens to the
  other sub-fetches: the account, the metrics, the lists and the flows hold the body of
  the answer, with \<open>flowCount\<close> its length; \<open>campaigns\<close> holds the email campaigns
  followed by the sms campaigns, an empty list standing for a channel whose request is
  rejected, with \<open>campaignCount\<close> the length. When the catalog is answered, each event
  counter is 0 if its name resolves to no id, the total of the answer to its count
  request if that is answered, and 0 if it is rejected; \<open>revenueMetrics\<close> holds the
  sum of \<open>sum_value\<close> of the answer to the revenue request of the Placed Order id,
  the sum of \<open>$value\<close> of the first 100 events if only the fallback is answered, and 0
  with no id or no answer; \<open>metricsWithDetails\<close> holds the catalog, its length, and the
  details of those of its first 20 metrics whose detail request is answered. The
  \<open>timestamp\<close> is the time at which the build ends.
\<close>

theorem getDashboardMetrics_degrades:
  "\<exists>snap s'. getDashboardMetrics e s = (Inr snap, s')
     \<and> (rejects e (request_config e ''/metrics/'' GET None []) \<longrightarrow>
          snap_metrics snap = Some (Value empty_listing) \<and> eventMetrics snap = no_events
          \<and> revenueMetrics snap = no_revenue
          \<and> metricsWithDetails snap = Some \<lparr>mwd_metrics = [], mwd_details = [], mwd_total = None\<rparr>)
     \<and> (rejects e (request_config e ''/flows/'' GET None []) \<longrightarrow>
          snap_flows snap = Some (Value empty_listing) \<and> flowCount snap = 0)
     \<and> (rejects e (request_config e ''/lists/'' GET None []) \<longrightarrow>
          snap_lists snap = Some (Value empty_listing))
     \<and> (rejects e (channel_request e ''email'') \<and> rejects e (channel_request e ''sms'') \<longrightarrow>
          snap_campaigns snap = Some (Value empty_listing) \<and> campaignCount snap = 0)
     \<and> (rejects e (request_config e ''/accounts/'' GET None []) \<longrightarrow>
          snap_account snap = Some (Value (AccountFallback ''Klaviyo Account'' ''N/A'')))
     \<and> (\<forall>b. answers e (request_config e ''/accounts/'' GET None []) b \<longrightarrow>
          snap_account snap = Some (Value (AccountBody b)))
     \<and> (\<forall>b. answers e (request_config e ''/metrics/'' GET None []) b \<longrightarrow>
          snap_metrics snap = Some (Value b))
     \<and> (\<forall>b. answers e (request_config e ''/lists/'' GET None []) b \<longrightarrow>
          snap_lists snap = Some (Value b))
     \<and> (\<forall>b. answers e (request_config e ''/flows/'' GET None []) b \<longrightarrow>
          snap_flows snap = Some (Value b) \<and> flowCount snap = length (data_or_empty b))
     \<and> (\<forall>b1 b2. answers e (channel_request e ''email'') b1 \<and> answers e (channel_request e ''sms'') b2 \<longrightarrow>
          snap_campaigns snap = Some (Value (listing (data_or_empty b1 @ data_or_empty b2) None))
          \<and> campaignCount snap = length (data_or_empty b1) + length (data_or_empty b2))
     \<and> (\<forall>b1. answers e (channel_request e ''email'') b1 \<and> rejects e (channel_request e ''sms'') \<longrightarrow>
          snap_campaigns snap = Some (Value (listing (data_or_empty b1) None))
          \<and> campaignCount snap = length (data_or_empty b1))
     \<and> (\<forall>b2. rejects e (channel_request e ''email'') \<and> answers e (channel_request e ''sms'') b2 \<longrightarrow>
          snap_campaigns snap = Some (Value (listing (data_or_empty b2) None))
          \<and> campaignCount snap = length (data_or_empty b2))
     \<and> (\<forall>b. answers e (request_config e ''/metrics/'' GET None []) b \<longrightarrow>
          counted e (or_id (findExactMetricId (data_or_empty b) ''Placed Order'')
                           (findMetricId (data_or_empty b) ''placed order''))
            (placedOrder (eventMetrics snap))
          \<and> counted e (findMetricId (data_or_empty b) ''viewed product'') (viewedProduct (eventMetrics snap))
          \<and> counted e (findMetricId (data_or_empty b) ''added to cart'') (addedToCart (eventMetrics snap))
          \<and> counted e (findMetricId (data_or_empty b) ''active on site'') (activeOnSite (eventMetrics snap))
          \<and> earned e (or_id (findExactMetricId (data_or_empty b) ''Placed Order'')
                            (findMetricId (data_or_empty b) ''placed order''))
              (revenueMetrics snap)
          \<and> (\<forall>det. (\<forall>m\<in>set (take 20 (data_or_empty b)). detailed e m (det m)) \<longrightarrow>
                metricsWithDetails snap = Some (details_of (data_or_empty b) det)))
     \<and> timestamp snap = toISOString e (clock s')"
proof -
  from getDashboardMetrics_value [of e s] obtain av mv cv lv fv s1 s2 s3 s4 s5 ev pid s6 det rev s7
    where v: "getAccount e s = (Inr av, s1)" "getMetrics e s1 = (Inr mv, s2)"
      "getCampaigns e s2 = (Inr cv, s3)" "getLists e s3 = (Inr lv, s4)"
      "getFlows e s4 = (Inr fv, s5)"
      "event_part e s5 = (Inr (ev, pid), s6)"
      "revenue_part e pid s6 = (Inr (det, rev), s7)"
    and snap: "getDashboardMetrics e s
         = (Inr \<lparr>snap_account = Some (Value av),
                 snap_metrics = Some (Value mv),
                 metricsWithDetails = det,
                 snap_campaigns = Some (Value cv),
                 snap_lists = Some (Value lv),
                 snap_flows = Some (Value fv),
                 campaignCount = data_length (Some (Value cv)),
                 flowCount = data_length (Some (Value fv)),
                 eventMetrics = ev,
                 revenueMetrics = rev,
                 timestamp = toISOString e (clock s7)\<rparr>, s7)"
    by blast
  have catalog: "mv = empty_listing \<and> ev = no_events \<and> rev = no_revenue
                   \<and> det = Some \<lparr>mwd_metrics = [], mwd_details = [], mwd_total = None\<rparr>"
    if down: "rejects e (request_config e ''/metrics/'' GET None [])"
  proof -
    have m: "mv = empty_listing" using getMetrics_down [OF down, of s1] v(2) by simp
    have "ev = no_events \<and> pid = None" using event_part_down [OF down, of s5] v(6) by simp
    moreover from this have "rev = no_revenue \<and> det = Some \<lparr>mwd_metrics = [], mwd_details = [], mwd_total = None\<rparr>"
      using revenue_part_down [OF down, of s6] v(7) by simp
    ultimately show ?thesis using m by simp
  qed
  have flows: "fv = empty_listing" if "rejects e (request_config e ''/flows/'' GET None [])"
    using getFlows_down [OF that, of s4] v(5) by simp
  have lists: "lv = empty_listing" if "rejects e (request_config e ''/lists/'' GET None [])"
    using getLists_down [OF that, of s3] v(4) by simp
  have campaigns: "cv = empty_listing"
    if "rejects e (channel_request e ''email'')" "rejects e (channel_request e ''sms'')"
    using getCampaigns_down [OF that, of s2] v(3) by simp
  have account: "av = AccountFallback ''Klaviyo Account'' ''N/A''"
    if "rejects e (request_config e ''/accounts/'' GET None [])"
    using getAccount_down [OF that, of s] v(1) by simp
  have account_up: "av = AccountBody b" if "answers e (request_config e ''/accounts/'' GET None []) b" for b
    using getAccount_up [OF that, of s] v(1) by simp
  have metrics_up: "mv = b" if "answers e (request_config e ''/metrics/'' GET None []) b" for b
    using getMetrics_up [OF that, of s1] v(2) by simp
  have lists_up: "lv = b" if "answers e (request_config e ''/lists/'' GET None []) b" for b
    using getLists_up [OF that, of s3] v(4) by simp
  have flows_up: "fv = b" if "answers e (request_config e ''/flows/'' GET None []) b" for b
    using getFlows_up [OF that, of s4] v(5) by simp
  have both: "cv = listing (data_or_empty b1 @ data_or_empty b2) None"
    if "answers e (channel_request e ''email'') b1" "answers e (channel_request e ''sms'') b2" for b1 b2
    using getCampaigns_value [of e b1 b2 s2, OF campaigns_of_up [OF that(1)] campaigns_of_up [OF that(2)]]
      v(3) by simp
  have email: "cv = listing (data_or_empty b1) None"
    if "answers e (channel_request e ''email'') b1" "rejects e (channel_request e ''sms'')" for b1
    using getCampaigns_value [of e b1 empty_listing s2,
        OF campaigns_of_up [OF that(1)] campaigns_of_down [OF that(2)]]
      v(3) by (simp add: data_of_empty_listing)
  have sms: "cv = listing (data_or_empty b2) None"
    if "rejects e (channel_request e ''email'')" "answers e (channel_request e ''sms'') b2" for b2
    using getCampaigns_value [of e empty_listing b2 s2,
        OF campaigns_of_down [OF that(1)] campaigns_of_up [OF that(2)]]
      v(3) by (simp add: data_of_empty_listing)
  have resolved: "counted e (or_id (findExactMetricId (data_or_empty b) ''Placed Order'')
                                   (findMetricId (data_or_empty b) ''placed order'')) (placedOrder ev)
      \<and> counted e (findMetricId (data_or_empty b) ''viewed product'') (viewedProduct ev)
      \<and> counted e (findMetricId (data_or_empty b) ''added to cart'') (addedToCart ev)
      \<and> counted e (findMetricId (data_or_empty b) ''active on site'') (activeOnSite ev)
      \<and> earned e (or_id (findExactMetricId (data_or_empty b) ''Placed Order'')
                        (findMetricId (data_or_empty b) ''placed order'')) rev
      \<and> (\<forall>dt. (\<forall>m\<in>set (take 20 (data_or_empty b)). detailed e m (dt m)) \<longrightarrow>
            det = Some (details_of (data_or_empty b) dt))"
    if up: "answers e (request_config e ''/metrics/'' GET None []) b" for b
  proof -
    let ?po = "or_id (findExactMetricId (data_or_empty b) ''Placed Order'')
                     (findMetricId (data_or_empty b) ''placed order'')"
    from event_part_counted [OF up, of s5] obtain ev' t where
      ep: "event_part e s5 = (Inr (ev', ?po), t)"
      and c: "counted e ?po (placedOrder ev')"
        "counted e (findMetricId (data_or_empty b) ''viewed product'') (viewedProduct ev')"
        "counted e (findMetricId (data_or_empty b) ''added to cart'') (addedToCart ev')"
        "counted e (findMetricId (data_or_empty b) ''active on site'') (activeOnSite ev')"
      by (elim exE conjE) (rule that, assumption+)
    from ep v(6) have same: "ev' = ev" "pid = ?po" by simp_all
    have "?po = None \<or> truthy_str ?po" by (rule placed_order_shape)
    from revenue_part_earned [where e = e and s = s6, OF this]
    obtain d revenue t' where
      d: "fst (getAllMetricsWithDetails e s6) = Inr d"
      and rp: "revenue_part e ?po s6 = (Inr (Some d, revenue), t')"
      and ea: "earned e ?po revenue"
      by (elim exE conjE) (rule that, assumption+)
    from rp v(7) same(2) have r: "det = Some d" "rev = revenue" by simp_all
    have dd: "d = details_of (data_or_empty b) dt"
      if "\<forall>m\<in>set (take 20 (data_or_empty b)). detailed e m (dt m)" for dt
      using getAllMetricsWithDetails_up [OF up that, of s6] d by simp
    show ?thesis using c ea dd unfolding same(1) r by blast
  qed
  let ?snap = "\<lparr>snap_account = Some (Value av),
                 snap_metrics = Some (Value mv),
                 metricsWithDetails = det,
                 snap_campaigns = Some (Value cv),
                 snap_lists = Some (Value lv),
                 snap_flows = Some (Value fv),
                 campaignCount = data_length (Some (Value cv)),
                 flowCount = data_length (Some (Value fv)),
                 eventMetrics = ev,
                 revenueMetrics = rev,
                 timestamp = toISOString e (clock s7)\<rparr>"
  have e0: "data_length (Some (Value empty_listing)) = 0" by (simp add: empty_listing_def)
  have ln: "data_length (Some (Value (listing xs None))) = length xs" for xs
    by (simp add: listing_def)
  have g0: "getDashboardMetrics e s = (Inr ?snap, s7)" by (rule snap)
  have g1: "rejects e (request_config e ''/metrics/'' GET None []) \<longrightarrow>
          snap_metrics ?snap = Some (Value empty_listing) \<and> eventMetrics ?snap = no_events
          \<and> revenueMetrics ?snap = no_revenue
          \<and> metricsWithDetails ?snap = Some \<lparr>mwd_metrics = [], mwd_details = [], mwd_total = None\<rparr>"
    using catalog by simp
  have g2: "rejects e (request_config e ''/flows/'' GET None []) \<longrightarrow>
          snap_flows ?snap = Some (Value empty_listing) \<and> flowCount ?snap = 0"
    using flows e0 by (simp del: data_length.simps)
  have g3: "rejects e (request_config e ''/lists/'' GET None []) \<longrightarrow>
          snap_lists ?snap = Some (Value empty_listing)"
    using lists by simp
  have g4: "rejects e (channel_request e ''email'') \<and> rejects e (channel_request e ''sms'') \<longrightarrow>
          snap_campaigns ?snap = Some (Value empty_listing) \<and> campaignCount ?snap = 0"
    using campaigns e0 by (simp del: data_length.simps)
  have g5: "rejects e (request_config e ''/accounts/'' GET None []) \<longrightarrow>
          snap_account ?snap = Some (Value (AccountFallback ''Klaviyo Account'' ''N/A''))"
    using account by simp
  have g6: "\<forall>b. answers e (request_config e ''/accounts/'' GET None []) b \<longrightarrow>
          snap_account ?snap = Some (Value (AccountBody b))"
    using account_up by simp
  have g7: "\<forall>b. answers e (request_config e ''/metrics/'' GET None []) b \<longrightarrow>
          snap_metrics ?snap = Some (Value b)"
    using metrics_up by simp
  have g8: "\<forall>b. answers e (request_config e ''/lists/'' GET None []) b \<longrightarrow>
          snap_lists ?snap = Some (Value b)"
    using lists_up by simp
  have g9: "\<forall>b. answers e (request_config e ''/flows/'' GET None []) b \<longrightarrow>
          snap_flows ?snap = Some (Value b) \<and> flowCount ?snap = length (data_or_empty b)"
    using flows_up data_length_value by (simp del: data_length.simps)
  have g10: "\<forall>b1 b2. answers e (channel_request e ''email'') b1 \<and> answers e (channel_request e ''sms'') b2 \<longrightarrow>
          snap_campaigns ?snap = Some (Value (listing (data_or_empty b1 @ data_or_empty b2) None))
          \<and> campaignCount ?snap = length (data_or_empty b1) + length (data_or_empty b2)"
  proof (intro allI impI)
    fix b1 b2
    assume "answers e (channel_request e ''email'') b1 \<and> answers e (channel_request e ''sms'') b2"
    then have "cv = listing (data_or_empty b1 @ data_or_empty b2) None" using both by blast
    then show "snap_campaigns ?snap = Some (Value (listing (data_or_empty b1 @ data_or_empty b2) None))
          \<and> campaignCount ?snap = length (data_or_empty b1) + length (data_or_empty b2)"
      using ln [of "data_or_empty b1 @ data_or_empty b2"] by (simp del: data_length.simps)
  qed
  have g11: "\<forall>b1. answers e (channel_request e ''email'') b1 \<and> rejects e (channel_request e ''sms'') \<longrightarrow>
          snap_campaigns ?snap = Some (Value (listing (data_or_empty b1) None))
          \<and> campaignCount ?snap = length (data_or_empty b1)"
  proof (intro allI impI)
    fix b1
    assume "answers e (channel_request e ''email'') b1 \<and> rejects e (channel_request e ''sms'')"
    then have "cv = listing (data_or_empty b1) None" using email by blast
    then show "snap_campaigns ?snap = Some (Value (listing (data_or_empty b1) None))
          \<and> campaignCount ?snap = length (data_or_empty b1)"
      using ln [of "data_or_empty b1"] by (simp del: data_length.simps)
  qed
  have g12: "\<forall>b2. rejects e (channel_request e ''email'') \<and> answers e (channel_request e ''sms'') b2 \<longrightarrow>
          snap_campaigns ?snap = Some (Value (listing (data_or_empty b2) None))
          \<and> campaignCount ?snap = length (data_or_empty b2)"
  proof (intro allI impI)
    fix b2
    assume "rejects e (channel_request e ''email'') \<and> answers e (channel_request e ''sms'') b2"
    then have "cv = listing (data_or_empty b2) None" using sms by blast
    then show "snap_campaigns ?snap = Some (Value (listing (data_or_empty b2) None))
          \<and> campaignCount ?snap = length (data_or_empty b2)"
      using ln [of "data_or_empty b2"] by (simp del: data_length.simps)
  qed
  have g13: "\<forall>b. answers e (request_config e ''/metrics/'' GET None []) b \<longrightarrow>
          counted e (or_id (findExactMetricId (data_or_empty b) ''Placed Order'')
                           (findMetricId (data_or_empty b) ''placed order''))
            (placedOrder (eventMetrics ?snap))
          \<and> counted e (findMetricId (data_or_empty b) ''viewed product'') (viewedProduct (eventMetrics ?snap))
          \<and> counted e (findMetricId (data_or_empty b) ''added to cart'') (addedToCart (eventMetrics ?snap))
          \<and> counted e (findMetricId (data_or_empty b) ''active on site'') (activeOnSite (eventMetrics ?snap))
          \<and> earned e (or_id (findExactMetricId (data_or_empty b) ''Placed Order'')
                            (findMetricId (data_or_empty b) ''placed order''))
              (revenueMetrics ?snap)
          \<and> (\<forall>det. (\<forall>m\<in>set (take 20 (data_or_empty b)). detailed e m (det m)) \<longrightarrow>
                metricsWithDetails ?snap = Some (details_of (data_or_empty b) det))"
    using resolved by simp
  have g14: "timestamp ?snap = toISOString e (clock s7)" by simp
  show ?thesis
    by (intro exI [of _ ?snap] exI [of _ s7] conjI)
       (fact g0 g1 g2 g3 g4 g5 g6 g7 g8 g9 g10 g11 g12 g13 g14)+
qed

text \<open>
  The flows endpoint answers 500 and every other endpoint answers, the catalog with the
  one metric Placed Order, its count query with 5 and its revenue query with 120:
  \<open>flows\<close> is the empty list and \<open>flowCount\<close> is 0, the account, the metrics and the
  lists hold their answer, \<open>campaigns\<close> holds the two answers one after the other,
  \<open>placedOrder\<close> is 5 with the other counters 0, the revenue is 120, and
  \<open>metricsWithDetails\<close> holds the catalog with the detail of its metric.
\<close>

theorem getDashboardMetrics_degrades_witness:
  "fst (getDashboardMetrics flows_down_env (new_service 1000))
     = Inr \<lparr>snap_account = Some (Value (AccountBody (listing [metric_named ''M1'' ''Placed Order''] None))),
            snap_metrics = Some (Value (listing [metric_named ''M1'' ''Placed Order''] None)),
            metricsWithDetails =
              Some \<lparr>mwd_metrics = [metric_named ''M1'' ''Placed Order''],
                    mwd_details = [listing [metric_named ''M1'' ''Placed Order''] None],
                    mwd_total = Some 1\<rparr>,
            snap_campaigns =
              Some (Value (listing [metric_named ''M1'' ''Placed Order'',
                                    metric_named ''M1'' ''Placed Order''] None)),
            snap_lists = Some (Value (listing [metric_named ''M1'' ''Placed Order''] None)),
            snap_flows = Some (Value empty_listing),
            campaignCount = 2,
            flowCount = 0,
            eventMetrics = \<lparr>placedOrder = 5, viewedProduct = 0, addedToCart = 0, activeOnSite = 0\<rparr>,
            revenueMetrics = \<lparr>rm_totalRevenue = 120, revenueByEmail = 120, revenueOverTime = []\<rparr>,
            timestamp = ''2024-03-01T00:00:00.000Z''\<rparr>"
proof -
  let ?e = flows_down_env
  let ?cat = "listing [metric_named ''M1'' ''Placed Order''] None"
  from getDashboardMetrics_degrades [of ?e "new_service 1000"]
  obtain snap s' where
    s: "getDashboardMetrics ?e (new_service 1000) = (Inr snap, s')"
    and f: "rejects ?e (request_config ?e ''/flows/'' GET None []) \<longrightarrow>
          snap_flows snap = Some (Value empty_listing) \<and> flowCount snap = 0"
    and a: "\<forall>b. answers ?e (request_config ?e ''/accounts/'' GET None []) b \<longrightarrow>
          snap_account snap = Some (Value (AccountBody b))"
    and m: "\<forall>b. answers ?e (request_config ?e ''/metrics/'' GET None []) b \<longrightarrow>
          snap_metrics snap = Some (Value b)"
    and l: "\<forall>b. answers ?e (request_config ?e ''/lists/'' GET None []) b \<longrightarrow>
          snap_lists snap = Some (Value b)"
    and c: "\<forall>b1 b2. answers ?e (channel_request ?e ''email'') b1 \<and> answers ?e (channel_request ?e ''sms'') b2 \<longrightarrow>
          snap_campaigns snap = Some (Value (listing (data_or_empty b1 @ data_or_empty b2) None))
          \<and> campaignCount snap = length (data_or_empty b1) + length (data_or_empty b2)"
    and r: "\<forall>b. answers ?e (request_config ?e ''/metrics/'' GET None []) b \<longrightarrow>
          counted ?e (or_id (findExactMetricId (data_or_empty b) ''Placed Order'')
                           (findMetricId (data_or_empty b) ''placed order''))
            (placedOrder (eventMetrics snap))
          \<and> counted ?e (findMetricId (data_or_empty b) ''viewed product'') (viewedProduct (eventMetrics snap))
          \<and> counted ?e (findMetricId (data_or_empty b) ''added to cart'') (addedToCart (eventMetrics snap))
          \<and> counted ?e (findMetricId (data_or_empty b) ''active on site'') (activeOnSite (eventMetrics snap))
          \<and> earned ?e (or_id (findExactMetricId (data_or_empty b) ''Placed Order'')
                            (findMetricId (data_or_empty b) ''placed order''))
              (revenueMetrics snap)
          \<and> (\<forall>det. (\<forall>m\<in>set (take 20 (data_or_empty b)). detailed ?e m (det m)) \<longrightarrow>
                metricsWithDetails snap = Some (details_of (data_or_empty b) det))"
    and t: "timestamp snap = toISOString ?e (clock s')"
    by (elim exE conjE) (rule that, assumption+)
  from r flows_down_env_facts(3) have
    r': "counted ?e (Some ''M1'') (placedOrder (eventMetrics snap))"
      "counted ?e None (viewedProduct (eventMetrics snap))"
      "counted ?e None (addedToCart (eventMetrics snap))"
      "counted ?e None (activeOnSite (eventMetrics snap))"
      "earned ?e (Some ''M1'') (revenueMetrics snap)"
    and d: "\<forall>det. (\<forall>m\<in>set [metric_named ''M1'' ''Placed Order'']. detailed ?e m (det m)) \<longrightarrow>
                metricsWithDetails snap = Some (details_of [metric_named ''M1'' ''Placed Order''] det)"
    unfolding atomize_conj
    using listing_data [of "[metric_named ''M1'' ''Placed Order'']" None] flows_down_env_ids
    by (elim allE [of _ ?cat]) simp
  have "\<forall>response. (\<forall>now. answers ?e (count_request ?e now ''M1'') response)
                      \<longrightarrow> placedOrder (eventMetrics snap) = sum_list (map group_value (groups_of response))"
    using r'(1) by (simp add: counted_def)
  then have "placedOrder (eventMetrics snap)
               = sum_list (map group_value (groups_of (one_group (count_of 5))))"
    using flows_down_env_aggregates(1) by blast
  then have ev: "eventMetrics snap = \<lparr>placedOrder = 5, viewedProduct = 0, addedToCart = 0, activeOnSite = 0\<rparr>"
    using r'(2-4) one_group_values(1)
    by (cases "eventMetrics snap") (simp add: counted_def)
  have "\<forall>response. (\<forall>now. answers ?e (revenue_request ?e now ''M1'') response)
                      \<longrightarrow> revenueMetrics snap
                            = revenue_of (sum_list (map revenue_of_group (groups_of response)))"
    using r'(5) by (simp add: earned_def)
  then have "revenueMetrics snap
               = revenue_of (sum_list (map revenue_of_group (groups_of
                   (one_group \<lparr>m_unique = None, m_count = None, m_sum_value = Some (Scalar 120)\<rparr>))))"
    using flows_down_env_aggregates(2) by blast
  then have rv: "revenueMetrics snap = \<lparr>rm_totalRevenue = 120, revenueByEmail = 120, revenueOverTime = []\<rparr>"
    by (simp add: one_group_values(2) revenue_of_def)
  have dt: "metricsWithDetails snap
              = Some \<lparr>mwd_metrics = [metric_named ''M1'' ''Placed Order''],
                      mwd_details = [?cat], mwd_total = Some 1\<rparr>"
    using d [rule_format, of "\<lambda>m. Some ?cat"] flows_down_env_aggregates(3)
    by (simp add: details_of_def)
  have ts: "timestamp snap = ''2024-03-01T00:00:00.000Z''"
    using t by (simp add: flows_down_env_def sample_env_def)
  have "snap_flows snap = Some (Value empty_listing)" "flowCount snap = 0"
    "snap_account snap = Some (Value (AccountBody ?cat))"
    "snap_metrics snap = Some (Value ?cat)"
    "snap_lists snap = Some (Value ?cat)"
    "snap_campaigns snap = Some (Value (listing [metric_named ''M1'' ''Placed Order'',
                                                 metric_named ''M1'' ''Placed Order''] None))"
    "campaignCount snap = 2"
    using f a m l c flows_down_env_facts listing_data [of "[metric_named ''M1'' ''Placed Order'']" None]
    by auto
  then show ?thesis using s ev rv dt ts by (cases snap) simp
qed

section \<open>Resolving metric names\<close>

lemma findMetricId_first:
  assumes "\<forall>x\<in>set pre. \<not> (\<exists>a c. toLowerCase (metric_name x) = a @ toLowerCase searchName @ c)"
    and "\<exists>a c. toLowerCase (metric_name m) = a @ toLowerCase searchName @ c"
  shows "findMetricId (pre @ m # post) searchName = id_or_null (Some m)"
  unfolding findMetricId_def
  using find_first [of pre "\<lambda>m. str_includes (toLowerCase (metric_name m)) (toLowerCase searchName)" m post]
    assms
  by (simp add: str_includes_iff)

lemma findMetricId_none:
  assumes "\<forall>x\<in>set allMetrics. \<not> (\<exists>a c. toLowerCase (metric_name x) = a @ toLowerCase searchName @ c)"
  shows "findMetricId allMetrics searchName = None"
  unfolding findMetricId_def
  using find_none [of allMetrics "\<lambda>m. str_includes (toLowerCase (metric_name m)) (toLowerCase searchName)"]
    assms
  by (simp add: str_includes_iff id_or_null_def)

lemma findExactMetricId_first:
  assumes "\<forall>x\<in>set pre. toLowerCase (metric_name x) \<noteq> toLowerCase exactName"
    and "toLowerCase (metric_name m) = toLowerCase exactName"
  shows "findExactMetricId (pre @ m # post) exactName = id_or_null (Some m)"
  unfolding findExactMetricId_def
  using find_first [of pre "\<lambda>m. toLowerCase (metric_name m) = toLowerCase exactName" m post] assms
  by simp

lemma findMetricIdByName_first:
  assumes "fst (getMetrics e s) = Inr response" and "data_or_empty response = pre @ m # post"
    and "\<forall>x\<in>set pre. toLowerCase (metric_name x) \<noteq> toLowerCase metricName"
    and "toLowerCase (metric_name m) = toLowerCase metricName"
  shows "fst (findMetricIdByName e metricName s) = Inr (item_id m)"
  unfolding findMetricIdByName_value [OF assms(1)] assms(2)
  using find_first [of pre "\<lambda>m. toLowerCase (metric_name m) = toLowerCase metricName" m post] assms(3,4)
  by simp

lemma findMetricIdByName_none:
  assumes "fst (getMetrics e s) = Inr response"
    and "\<forall>x\<in>set (data_or_empty response). toLowerCase (metric_name x) \<noteq> toLowerCase metricName"
  shows "fst (findMetricIdByName e metricName s) = Inr None"
  unfolding findMetricIdByName_value [OF assms(1)]
  using find_none [of "data_or_empty response" "\<lambda>m. toLowerCase (metric_name m) = toLowerCase metricName"]
    assms(2)
  by simp

lemma dashboard_counters:
  assumes "answers e (request_config e ''/metrics/'' GET None []) b"
  shows "\<exists>snap s'. getDashboardMetrics e s = (Inr snap, s')
     \<and> (or_id (findExactMetricId (data_or_empty b) ''Placed Order'')
               (findMetricId (data_or_empty b) ''placed order'') = None
          \<longrightarrow> placedOrder (eventMetrics snap) = 0)
     \<and> (findMetricId (data_or_empty b) ''viewed product'' = None \<longrightarrow> viewedProduct (eventMetrics snap) = 0)
     \<and> (findMetricId (data_or_empty b) ''added to cart'' = None \<longrightarrow> addedToCart (eventMetrics snap) = 0)
     \<and> (findMetricId (data_or_empty b) ''active on site'' = None \<longrightarrow> activeOnSite (eventMetrics snap) = 0)"
proof -
  from getDashboardMetrics_value [of e s] obtain av mv cv lv fv s5 ev pid s6 det rev s7
    where v: "event_part e s5 = (Inr (ev, pid), s6)"
    and snap: "getDashboardMetrics e s
         = (Inr \<lparr>snap_account = Some (Value av),
                 snap_metrics = Some (Value mv),
                 metricsWithDetails = det,
                 snap_campaigns = Some (Value cv),
                 snap_lists = Some (Value lv),
                 snap_flows = Some (Value fv),
                 campaignCount = data_length (Some (Value cv)),
                 flowCount = data_length (Some (Value fv)),
                 eventMetrics = ev,
                 revenueMetrics = rev,
                 timestamp = toISOString e (clock s7)\<rparr>, s7)"
    by blast
  from event_part_up [OF assms, of s5] v
  have "(or_id (findExactMetricId (data_or_empty b) ''Placed Order'')
               (findMetricId (data_or_empty b) ''placed order'') = None \<longrightarrow> placedOrder ev = 0)
     \<and> (findMetricId (data_or_empty b) ''viewed product'' = None \<longrightarrow> viewedProduct ev = 0)
     \<and> (findMetricId (data_or_empty b) ''added to cart'' = None \<longrightarrow> addedToCart ev = 0)
     \<and> (findMetricId (data_or_empty b) ''active on site'' = None \<longrightarrow> activeOnSite ev = 0)"
    by auto
  then show ?thesis
    unfolding snap
    by (intro exI [of _ s7] exI [of _ "\<lparr>snap_account = Some (Value av),
                 snap_metrics = Some (Value mv),
                 metricsWithDetails = det,
                 snap_campaigns = Some (Value cv),
                 snap_lists = Some (Value lv),
                 snap_flows = Some (Value fv),
                 campaignCount = data_length (Some (Value cv)),
                 flowCount = data_length (Some (Value fv)),
                 eventMetrics = ev,
                 revenueMetrics = rev,
                 timestamp = toISOString e (clock s7)\<rparr>"]) simp
qed

lemma sample_names:
  "toLowerCase (metric_name (metric_named ''A'' ''Viewed Product Page'')) = ''viewed product page''"
  "toLowerCase (metric_name (metric_named ''B'' ''Placed Order'')) = ''placed order''"
  "toLowerCase (metric_name (metric_named ''M1'' ''Placed Order Refund'')) = ''placed order refund''"
  "toLowerCase ''placed order'' = ''placed order''"
  "toLowerCase ''Added to Cart'' = ''added to cart''"
  by code_simp+

lemma sample_lookups:
  "findMetricId two_metrics ''added to cart'' = None"
  "findMetricId two_metrics ''active on site'' = None"
  "findMetricId variant_catalog ''viewed product'' = Some ''A''"
  "findExactMetricId variant_catalog ''viewed product'' = Some ''B''"
  by code_simp+

lemma catalog_env_answers:
  "answers (catalog_env ms) (request_config (catalog_env ms) ''/metrics/'' GET None []) (listing ms None)"
  by (simp add: answers_def catalog_env_def sample_env_def)

lemma data_listing [simp]: "data_or_empty (listing ms n) = ms"
  by (simp add: data_or_empty_def listing_def)

text \<open>
  C5, as the claim states it: every resolution takes the exact match first and falls back
  to the first substring match. \<open>findMetricIdByName\<close> has no fallback: for a catalog
  whose only metric is \<open>Placed Order Refund\<close> it returns \<open>null\<close> for \<open>placed order\<close>.
  And the dashboard resolves three of its four metrics by substring only: in the
  catalog \<open>Viewed Product Page\<close>, \<open>Viewed Product\<close> the name \<open>viewed product\<close> resolves
  to the first metric, though the second is the exact match.
\<close>

theorem findMetricIdByName_has_no_substring_fallback:
  "fst (findMetricIdByName (catalog_env refund_catalog) ''placed order'' (new_service 1000)) = Inr None
   \<and> findMetricId variant_catalog ''viewed product'' = Some ''A''
   \<and> findExactMetricId variant_catalog ''viewed product'' = Some ''B''"
proof -
  have g: "fst (getMetrics (catalog_env refund_catalog) (new_service 1000)) = Inr (listing refund_catalog None)"
    by (rule getMetrics_up [OF catalog_env_answers])
  have "fst (findMetricIdByName (catalog_env refund_catalog) ''placed order'' (new_service 1000)) = Inr None"
    by (rule findMetricIdByName_none [OF g]) (simp add: refund_catalog_def sample_names)
  then show ?thesis by (simp add: sample_lookups)
qed

text \<open>
  C5, amended. \<open>findMetricIdByName\<close> never rejects; it returns the id of the first
  metric, in catalog order, whose name equals the given name without regard to case,
  and \<open>null\<close> when there is none. In the dashboard build, \<open>placedOrderId\<close> is the exact
  match for \<open>Placed Order\<close> when there is one (the first, with an id), else the first
  substring match for \<open>placed order\<close>; the other three metrics are resolved by
  \<open>findMetricId\<close>, the first metric in catalog order whose lower-cased name contains the
  lower-cased search name, and \<open>null\<close> when no name contains it. A metric that resolves
  to \<open>null\<close> leaves its counter in the snapshot at 0.
\<close>

theorem metric_name_resolution:
  "fulfils (findMetricIdByName e metricName)
   \<and> (fst (getMetrics e s) = Inr response \<and> data_or_empty response = pre @ m # post
        \<and> (\<forall>x\<in>set pre. toLowerCase (metric_name x) \<noteq> toLowerCase metricName)
        \<and> toLowerCase (metric_name m) = toLowerCase metricName
       \<longrightarrow> fst (findMetricIdByName e metricName s) = Inr (item_id m))
   \<and> (fst (getMetrics e s) = Inr response
        \<and> (\<forall>x\<in>set (data_or_empty response). toLowerCase (metric_name x) \<noteq> toLowerCase metricName)
       \<longrightarrow> fst (findMetricIdByName e metricName s) = Inr None)
   \<and> (findExactMetricId allMetrics ''Placed Order'' = Some i
       \<longrightarrow> or_id (findExactMetricId allMetrics ''Placed Order'') (findMetricId allMetrics ''placed order'')
             = Some i)
   \<and> (findExactMetricId allMetrics ''Placed Order'' = None
       \<longrightarrow> or_id (findExactMetricId allMetrics ''Placed Order'') (findMetricId allMetrics ''placed order'')
             = findMetricId allMetrics ''placed order'')
   \<and> (allMetrics = pre' @ m' # post'
        \<and> (\<forall>x\<in>set pre'. toLowerCase (metric_name x) \<noteq> toLowerCase searchName)
        \<and> toLowerCase (metric_name m') = toLowerCase searchName
       \<longrightarrow> findExactMetricId allMetrics searchName = id_or_null (Some m'))
   \<and> (allMetrics = pre' @ m' # post'
        \<and> (\<forall>x\<in>set pre'. \<not> (\<exists>a c. toLowerCase (metric_name x) = a @ toLowerCase searchName @ c))
        \<and> (\<exists>a c. toLowerCase (metric_name m') = a @ toLowerCase searchName @ c)
       \<longrightarrow> findMetricId allMetrics searchName = id_or_null (Some m'))
   \<and> ((\<forall>x\<in>set allMetrics. \<not> (\<exists>a c. toLowerCase (metric_name x) = a @ toLowerCase searchName @ c))
       \<longrightarrow> findMetricId allMetrics searchName = None)
   \<and> (answers e (request_config e ''/metrics/'' GET None []) b \<longrightarrow>
        (\<exists>snap s'. getDashboardMetrics e s = (Inr snap, s')
           \<and> (or_id (findExactMetricId (data_or_empty b) ''Placed Order'')
                     (findMetricId (data_or_empty b) ''placed order'') = None
                \<longrightarrow> placedOrder (eventMetrics snap) = 0)
           \<and> (findMetricId (data_or_empty b) ''viewed product'' = None
                \<longrightarrow> viewedProduct (eventMetrics snap) = 0)
           \<and> (findMetricId (data_or_empty b) ''added to cart'' = None
                \<longrightarrow> addedToCart (eventMetrics snap) = 0)
           \<and> (findMetricId (data_or_empty b) ''active on site'' = None
                \<longrightarrow> activeOnSite (eventMetrics snap) = 0)))"
proof (intro conjI impI)
  show "fulfils (findMetricIdByName e metricName)" by (rule fulfils_findMetricIdByName)
next
  assume "fst (getMetrics e s) = Inr response \<and> data_or_empty response = pre @ m # post
        \<and> (\<forall>x\<in>set pre. toLowerCase (metric_name x) \<noteq> toLowerCase metricName)
        \<and> toLowerCase (metric_name m) = toLowerCase metricName"
  then show "fst (findMetricIdByName e metricName s) = Inr (item_id m)"
    using findMetricIdByName_first by blast
next
  assume "fst (getMetrics e s) = Inr response
        \<and> (\<forall>x\<in>set (data_or_empty response). toLowerCase (metric_name x) \<noteq> toLowerCase metricName)"
  then show "fst (findMetricIdByName e metricName s) = Inr None"
    using findMetricIdByName_none by blast
next
  assume "findExactMetricId allMetrics ''Placed Order'' = Some i"
  then show "or_id (findExactMetricId allMetrics ''Placed Order'') (findMetricId allMetrics ''placed order'')
             = Some i"
    by (rule or_id_exact)
next
  assume "findExactMetricId allMetrics ''Placed Order'' = None"
  then show "or_id (findExactMetricId allMetrics ''Placed Order'') (findMetricId allMetrics ''placed order'')
             = findMetricId allMetrics ''placed order''"
    by (rule or_id_fallback)
next
  assume "allMetrics = pre' @ m' # post'
        \<and> (\<forall>x\<in>set pre'. toLowerCase (metric_name x) \<noteq> toLowerCase searchName)
        \<and> toLowerCase (metric_name m') = toLowerCase searchName"
  then show "findExactMetricId allMetrics searchName = id_or_null (Some m')"
    using findExactMetricId_first by blast
next
  assume "allMetrics = pre' @ m' # post'
        \<and> (\<forall>x\<in>set pre'. \<not> (\<exists>a c. toLowerCase (metric_name x) = a @ toLowerCase searchName @ c))
        \<and> (\<exists>a c. toLowerCase (metric_name m') = a @ toLowerCase searchName @ c)"
  then show "findMetricId allMetrics searchName = id_or_null (Some m')"
    using findMetricId_first [of pre' searchName m' post'] by blast
next
  assume "\<forall>x\<in>set allMetrics. \<not> (\<exists>a c. toLowerCase (metric_name x) = a @ toLowerCase searchName @ c)"
  then show "findMetricId allMetrics searchName = None" by (rule findMetricId_none)
next
  assume "answers e (request_config e ''/metrics/'' GET None []) b"
  then show "\<exists>snap s'. getDashboardMetrics e s = (Inr snap, s')
           \<and> (or_id (findExactMetricId (data_or_empty b) ''Placed Order'')
                     (findMetricId (data_or_empty b) ''placed order'') = None
                \<longrightarrow> placedOrder (eventMetrics snap) = 0)
           \<and> (findMetricId (data_or_empty b) ''viewed product'' = None
                \<longrightarrow> viewedProduct (eventMetrics snap) = 0)
           \<and> (findMetricId (data_or_empty b) ''added to cart'' = None
                \<longrightarrow> addedToCart (eventMetrics snap) = 0)
           \<and> (findMetricId (data_or_empty b) ''active on site'' = None
                \<longrightarrow> activeOnSite (eventMetrics snap) = 0)"
    by (rule dashboard_counters)
qed

text \<open>
  The catalog \<open>Viewed Product Page\<close>, \<open>Placed Order\<close>: \<open>placed order\<close> resolves to the second
  metric, \<open>Added to Cart\<close> to \<open>null\<close>, and the snapshot has 0 for the two counters
  whose metric is missing.
\<close>

theorem metric_name_resolution_witness:
  "fst (findMetricIdByName (catalog_env two_metrics) ''placed order'' (new_service 1000)) = Inr (Some ''B'')
   \<and> fst (findMetricIdByName (catalog_env two_metrics) ''Added to Cart'' (new_service 1000)) = Inr None
   \<and> (\<exists>snap s'. getDashboardMetrics (catalog_env two_metrics) (new_service 1000) = (Inr snap, s')
         \<and> addedToCart (eventMetrics snap) = 0 \<and> activeOnSite (eventMetrics snap) = 0)"
proof -
  let ?e = "catalog_env two_metrics"
  let ?s = "new_service 1000"
  have g: "fst (getMetrics ?e ?s) = Inr (listing two_metrics None)"
    by (rule getMetrics_up [OF catalog_env_answers])
  have d: "data_or_empty (listing two_metrics None)
             = [metric_named ''A'' ''Viewed Product Page''] @ metric_named ''B'' ''Placed Order'' # []"
    by (simp add: two_metrics_def)
  have 1: "fst (findMetricIdByName ?e ''placed order'' ?s) = Inr (item_id (metric_named ''B'' ''Placed Order''))"
    using metric_name_resolution [of ?e "''placed order''" ?s "listing two_metrics None"
        "[metric_named ''A'' ''Viewed Product Page'']" "metric_named ''B'' ''Placed Order''" "[]"]
      g d
    by (simp add: sample_names)
  have 2: "fst (findMetricIdByName ?e ''Added to Cart'' ?s) = Inr None"
    using metric_name_resolution [of ?e "''Added to Cart''" ?s "listing two_metrics None"] g
    by (simp add: sample_names two_metrics_def)
  have 3: "\<exists>snap s'. getDashboardMetrics ?e ?s = (Inr snap, s')
         \<and> addedToCart (eventMetrics snap) = 0 \<and> activeOnSite (eventMetrics snap) = 0"
    using metric_name_resolution [of ?e _ ?s _ _ _ _ _ _ _ _ _ _ "listing two_metrics None"]
      catalog_env_answers [of two_metrics]
    by (simp add: sample_lookups) blast
  from 1 2 3 show ?thesis by (simp add: metric_named_def)
qed

section \<open>Pagination\<close>




text \<open>A failed request ends the loop, and the events fetched so far are dropped.\<close>

lemma getAllEventsByMetricId_first_page_fails:
  assumes "rejects e (first_page_request e metricId)"
  shows "\<exists>s'. getAllEventsByMetricId e metricId s = Some (Inr empty_listing, s')"
proof -
  from makeRequest_rejects [of e "''/events/''" GET None
      "[(''filter'', metric_filter metricId), (''page[size]'', ''100'')]" 0 s] assms
  obtain err where
    "fst (makeRequest e ''/events/'' GET None
            [(''filter'', metric_filter metricId), (''page[size]'', ''100'')] 0 s) = Inl err"
    by (auto simp: first_page_request_def)
  then have "fetch_pages e (metric_filter metricId) True None [] s
               = Some (Inl err, snd (makeRequest e ''/events/'' GET None
                    [(''filter'', metric_filter metricId), (''page[size]'', ''100'')] 0 s))"
    by (subst fetch_pages.simps) (auto simp add: page_request_def split: prod.splits)
  then show ?thesis by (simp add: getAllEventsByMetricId_def)
qed






end
